(* ===== verification/Prelude.thy ===== *)
theory Prelude
  imports Main "HOL-Library.Word" "HOL-Library.AList"
begin

unbundle bit_operations_syntax

text \<open>
  Shared vocabulary of the development.

  \<^item> Machine integers: Go's \<open>uint8\<close>, \<open>uint16\<close>, \<open>uint32\<close>, \<open>uint64\<close> are words of that width;
    \<open>int64\<close> is a 64-bit word read with \<^const>\<open>sint\<close>, so both wrap as in Go.
  \<^item> Time: a \<open>time.Time\<close> is the number of nanoseconds since Go's zero time, so \<open>IsZero\<close> is
    equality with 0; a \<open>time.Duration\<close> is the number of nanoseconds, and \<open>Time.Sub\<close>
    saturates at the 64-bit bounds as the standard library documents.
  \<^item> Runtime panics (index out of range, nil dereference) are \<^const>\<open>None\<close> of a result
    of type \<^typ>\<open>'a option\<close>.
  \<^item> Array updates with the bounds check written out.
  \<^item> Folding lemmas: the loops of the program are folds over the entries of a map; the
    lemmas here say how a measure of the state grows along such a loop.
\<close>

type_synonym u8 = "8 word"
type_synonym u16 = "16 word"
type_synonym u32 = "32 word"
type_synonym u64 = "64 word"
type_synonym i64 = "64 word"

type_synonym go_time = int
type_synonym duration = int

named_theorems frame_simps \<open>what an operation leaves unchanged\<close>
named_theorems inv_intros \<open>operations keep the invariants\<close>


section \<open>Time\<close>

definition min_duration :: duration where
  "min_duration = - (2 ^ 63)"

definition max_duration :: duration where
  "max_duration = 2 ^ 63 - 1"

definition time_IsZero :: "go_time \<Rightarrow> bool" where
  "time_IsZero t \<longleftrightarrow> t = 0"

definition time_Sub :: "go_time \<Rightarrow> go_time \<Rightarrow> duration" where
  "time_Sub t u = max min_duration (min max_duration (t - u))"

definition time_After :: "go_time \<Rightarrow> go_time \<Rightarrow> bool" where
  "time_After t u \<longleftrightarrow> t > u"

definition millisecond :: duration where
  "millisecond = 1000000"

definition second :: duration where
  "second = 1000000000"

text \<open>Go's integer division truncates towards zero.\<close>

definition trunc_div :: "int \<Rightarrow> int \<Rightarrow> int" where
  "trunc_div n d = (if (n < 0) = (d < 0) then \<bar>n\<bar> div \<bar>d\<bar> else - (\<bar>n\<bar> div \<bar>d\<bar>))"

lemma trunc_div_pos [simp]: "0 \<le> n \<Longrightarrow> 0 < d \<Longrightarrow> trunc_div n d = n div d"
  by (simp add: trunc_div_def)

lemma time_Sub_self [simp]: "time_Sub t t = 0"
  by (simp add: time_Sub_def min_duration_def max_duration_def)

lemma time_Sub_exact:
  "min_duration \<le> t - u \<Longrightarrow> t - u \<le> max_duration \<Longrightarrow> time_Sub t u = t - u"
  by (simp add: time_Sub_def)

lemma time_Sub_nonneg: "0 \<le> time_Sub t u \<longleftrightarrow> u \<le> t"
  by (auto simp: time_Sub_def min_duration_def max_duration_def)

lemma time_Sub_mono: "u \<le> v \<Longrightarrow> time_Sub t v \<le> time_Sub t u"
  by (auto simp: time_Sub_def)


section \<open>Arrays with the bounds check of the language\<close>

text \<open>\<open>a[i].Add(v)\<close> on an array of counters: a panic when \<open>i\<close> is out of range.\<close>

definition arr_add :: "'a::len word list \<Rightarrow> nat \<Rightarrow> 'a word \<Rightarrow> 'a word list option" where
  "arr_add xs i v = (if i < length xs then Some (xs[i := xs ! i + v]) else None)"

lemma arr_add_in_range: "i < length xs \<Longrightarrow> arr_add xs i v = Some (xs[i := xs ! i + v])"
  by (simp add: arr_add_def)

lemma arr_add_None [simp]: "arr_add xs i v = None \<longleftrightarrow> length xs \<le> i"
  by (auto simp: arr_add_def)

lemma arr_add_length: "arr_add xs i v = Some ys \<Longrightarrow> length ys = length xs"
  by (auto simp: arr_add_def split: if_splits)

lemma arr_add_nth:
  "arr_add xs i v = Some ys \<Longrightarrow> j < length xs \<Longrightarrow> ys ! j = xs ! j + (if j = i then v else 0)"
  by (auto simp: arr_add_def nth_list_update split: if_splits)


section \<open>Loops as folds\<close>

text \<open>
  \<open>m.Range(f)\<close> calls \<open>f\<close> on every entry in turn and stops when \<open>f\<close> returns false; the
  state that \<open>f\<close> captures is threaded through.
\<close>

fun range_loop :: "('s \<Rightarrow> 'k \<Rightarrow> 'v \<Rightarrow> 's \<times> bool) \<Rightarrow> ('k \<times> 'v) list \<Rightarrow> 's \<Rightarrow> 's" where
  "range_loop f [] s = s"
| "range_loop f ((k, v) # xs) s =
     (case f s k v of (s', go) \<Rightarrow> if go then range_loop f xs s' else s')"

lemma range_loop_total:
  "range_loop (\<lambda>s k v. (g k v s, True)) xs s = fold (\<lambda>(k, v). g k v) xs s"
  by (induction xs arbitrary: s) auto

lemma range_loop_append:
  "range_loop (\<lambda>s k v. (g k v s, True)) (xs @ ys) s =
   range_loop (\<lambda>s k v. (g k v s, True)) ys (range_loop (\<lambda>s k v. (g k v s, True)) xs s)"
  by (simp add: range_loop_total)

lemma fold_invariant:
  "P s \<Longrightarrow> (\<And>x s. x \<in> set xs \<Longrightarrow> P s \<Longrightarrow> P (f x s)) \<Longrightarrow> P (fold f xs s)"
  by (induction xs arbitrary: s) auto

text \<open>A measure that every step increases by its own share ends up as the sum of the shares.\<close>

lemma fold_measure:
  fixes M :: "'s \<Rightarrow> 'a::comm_monoid_add"
  assumes "\<And>x s. x \<in> set xs \<Longrightarrow> M (f x s) = M s + g x"
  shows "M (fold f xs s) = M s + sum_list (map g xs)"
  using assms by (induction xs arbitrary: s) (auto simp: ac_simps)

lemma sum_list_filter_if:
  fixes g :: "'b \<Rightarrow> 'a::comm_monoid_add"
  shows "sum_list (map (\<lambda>x. if P x then g x else 0) xs) = sum_list (map g (filter P xs))"
  by (induction xs) auto

lemma fold_measure_inv:
  fixes M :: "'s \<Rightarrow> 'a::comm_monoid_add"
  assumes "I s"
    and "\<And>x s. x \<in> set xs \<Longrightarrow> I s \<Longrightarrow> I (f x s)"
    and "\<And>x s. x \<in> set xs \<Longrightarrow> I s \<Longrightarrow> M (f x s) = M s + g x"
  shows "M (fold f xs s) = M s + sum_list (map g xs)"
  using assms by (induction xs arbitrary: s) (auto simp: ac_simps)


section \<open>Strings\<close>

text \<open>Digits in a base, most significant first, as \<open>strconv.FormatUint\<close> prints them.\<close>

definition digit :: "nat \<Rightarrow> char" where
  "digit n = (if n < 10 then char_of (48 + n) else char_of (87 + n))"

fun format_base :: "nat \<Rightarrow> nat \<Rightarrow> string" where
  "format_base b n = (if n < b \<or> b < 2 then [digit n] else format_base b (n div b) @ [digit (n mod b)])"

declare format_base.simps [simp del]

definition FormatUint10 :: "nat \<Rightarrow> string" where
  "FormatUint10 n = format_base 10 n"

definition FormatUint16 :: "nat \<Rightarrow> string" where
  "FormatUint16 n = format_base 16 n"

definition lower_char :: "char \<Rightarrow> char" where
  "lower_char c =
     (let n = (of_char c :: nat) in if 65 \<le> n \<and> n \<le> 90 then char_of (n + 32) else c)"

text \<open>\<open>strings.ToLower\<close> on ASCII text.\<close>

definition ToLower :: "string \<Rightarrow> string" where
  "ToLower s = map lower_char s"

definition HasSuffix :: "string \<Rightarrow> string \<Rightarrow> bool" where
  "HasSuffix s t \<longleftrightarrow> length t \<le> length s \<and> drop (length s - length t) s = t"

definition contains_char :: "string \<Rightarrow> char \<Rightarrow> bool" where
  "contains_char s c \<longleftrightarrow> c \<in> set s"

definition is_separator :: "char \<Rightarrow> bool" where
  "is_separator c \<longleftrightarrow> c = CHR 0x5C \<or> c = CHR 0x2F"

definition drop_drive :: "string \<Rightarrow> string" where
  "drop_drive s = (case s of (d # c # rest) \<Rightarrow> if c = CHR 0x3A then rest else s | _ \<Rightarrow> s)"

text \<open>\<open>filepath.Base\<close> on Windows, for paths whose volume name is a drive letter.\<close>

definition filepath_Base :: "string \<Rightarrow> string" where
  "filepath_Base path =
     (if path = [] then [CHR 0x2E]
      else let p = rev (dropWhile is_separator (rev path));
               q = drop_drive p;
               b = rev (takeWhile (\<lambda>c. \<not> is_separator c) (rev q))
           in if b = [] then [CHR 0x5C] else b)"

end
