(* ===== verification/Conc_Map.thy ===== *)
theory Conc_Map
  imports Prelude
begin

unbundle bit_operations_syntax

text \<open>
  Package \<open>internal/maps\<close>.

  \<^item> \<open>concurrent_map\<close> is the interface \<open>ConcurrentMap\<close> of \<open>maps.go\<close>: its methods are the
    \<open>fixes\<close> and the documented contract of each method is an \<open>assumes\<close>.
  \<^item> \<open>cmap\<close> is the map the other components hold: the list of its entries in the order in
    which \<open>Range\<close> visits them. No theorem constrains that order, so what is proved of
    every \<open>cmap\<close> holds for every iteration order of the implementation.
  \<^item> \<open>sharded_map\<close> models \<open>sharded_map.go\<close>, \<open>std_\<close> models \<open>sync_map.go\<close> over the standard
    library's \<open>sync.Map\<close>, \<open>xs_\<close> models the wrappers of \<open>xsync_map.go\<close>, whose library is a
    parameter. Each one is proved to satisfy the interface.
\<close>


section \<open>The interface\<close>

locale concurrent_map =
  fixes lookup :: "'m \<Rightarrow> 'k \<Rightarrow> 'v option"
    and invar :: "'m \<Rightarrow> bool"
    and empty :: 'm
    and load :: "'k \<Rightarrow> 'm \<Rightarrow> 'v option"
    and store :: "'k \<Rightarrow> 'v \<Rightarrow> 'm \<Rightarrow> 'm"
    and delete :: "'k \<Rightarrow> 'm \<Rightarrow> 'm"
    and load_and_delete :: "'k \<Rightarrow> 'm \<Rightarrow> 'v option \<times> 'm"
    and load_or_store :: "'k \<Rightarrow> (unit \<Rightarrow> 'v) \<Rightarrow> 'm \<Rightarrow> ('v \<times> bool) \<times> 'm"
    and update :: "'k \<Rightarrow> ('v option \<Rightarrow> 'v option) \<Rightarrow> 'm \<Rightarrow> 'm"
    and entries :: "'m \<Rightarrow> ('k \<times> 'v) list"
  assumes empty_spec: "invar empty \<and> lookup empty = Map.empty"
    and load_spec: "invar m \<Longrightarrow> load k m = lookup m k"
    and store_spec: "invar m \<Longrightarrow> invar (store k v m) \<and> lookup (store k v m) = (lookup m)(k \<mapsto> v)"
    and delete_spec: "invar m \<Longrightarrow> invar (delete k m) \<and> lookup (delete k m) = (lookup m)(k := None)"
    and load_and_delete_spec: "invar m \<Longrightarrow> load_and_delete k m = (r, m') \<Longrightarrow>
      invar m' \<and> r = lookup m k \<and> lookup m' = (lookup m)(k := None)"
    and load_or_store_spec: "invar m \<Longrightarrow> load_or_store k f m = ((v, loaded), m') \<Longrightarrow>
      invar m' \<and> loaded = (lookup m k \<noteq> None) \<and>
      v = (case lookup m k of Some w \<Rightarrow> w | None \<Rightarrow> f ()) \<and> lookup m' = (lookup m)(k \<mapsto> v)"
    and update_spec: "invar m \<Longrightarrow>
      invar (update k g m) \<and> lookup (update k g m) = (lookup m)(k := g (lookup m k))"
    and entries_spec: "invar m \<Longrightarrow> distinct (map fst (entries m)) \<and> map_of (entries m) = lookup m"
begin

text \<open>The conditional delete of the process and thread managers: drop the entry only when
  its value satisfies the test, and leave every other key alone.\<close>

lemma conditional_delete:
  assumes "invar m"
  shows "lookup (update k (\<lambda>w. case w of Some v \<Rightarrow> if P v then None else Some v | None \<Rightarrow> None) m) j =
    (if j = k \<and> (\<exists>v. lookup m k = Some v \<and> P v) then None else lookup m j)"
  using assms by (auto simp: update_spec split: option.splits)

text \<open>A get-or-create is stable: the second call loads what the first one made.\<close>

lemma get_or_create_stable:
  assumes "invar m" and "load_or_store k f m = ((v, l), m')"
  shows "\<exists>m''. load_or_store k g m' = ((v, True), m'') \<and> lookup m'' = lookup m'"
proof -
  note first = load_or_store_spec [OF assms]
  obtain w b m'' where second: "load_or_store k g m' = ((w, b), m'')"
    by (metis surj_pair)
  with load_or_store_spec [OF _ second] first show ?thesis
    by (auto simp: fun_upd_idem_iff)
qed

lemma load_after_load_and_delete:
  "invar m \<Longrightarrow> load_and_delete k m = (r, m') \<Longrightarrow> load k m' = None"
  by (auto simp: load_spec dest: load_and_delete_spec)

text \<open>A counting \<open>Range\<close> visits every key exactly once.\<close>

lemma range_counts_keys:
  assumes "invar m"
  shows "range_loop (\<lambda>n k v. (Suc n, True)) (entries m) 0 = card (dom (lookup m))"
proof -
  have "fold (\<lambda>(k, v). Suc) xs n = n + length xs" for xs :: "('k \<times> 'v) list" and n
    by (induction xs arbitrary: n) auto
  then have "range_loop (\<lambda>n k v. (Suc n, True)) (entries m) 0 = length (entries m)"
    by (simp add: range_loop_total)
  also have "\<dots> = card (set (map fst (entries m)))"
    using assms by (metis distinct_card entries_spec length_map)
  also have "set (map fst (entries m)) = dom (lookup m)"
    using assms by (metis dom_map_of_conv_image_fst entries_spec list.set_map)
  finally show ?thesis .
qed

text \<open>Two updates of the same key, each run atomically, compose.\<close>

lemma update_update:
  "invar m \<Longrightarrow> lookup (update k h (update k g m)) = (lookup m)(k := h (g (lookup m k)))"
  by (simp add: update_spec)

end


section \<open>The map of entries\<close>

type_synonym ('k, 'v) cmap = "('k \<times> 'v) list"

definition cm_invar :: "('k, 'v) cmap \<Rightarrow> bool" where
  "cm_invar m \<longleftrightarrow> distinct (map fst m)"

definition cm_empty :: "('k, 'v) cmap" where
  "cm_empty = []"

definition cm_load :: "'k \<Rightarrow> ('k, 'v) cmap \<Rightarrow> 'v option" where
  "cm_load k m = map_of m k"

definition cm_store :: "'k \<Rightarrow> 'v \<Rightarrow> ('k, 'v) cmap \<Rightarrow> ('k, 'v) cmap" where
  "cm_store k v m = AList.update k v m"

definition cm_delete :: "'k \<Rightarrow> ('k, 'v) cmap \<Rightarrow> ('k, 'v) cmap" where
  "cm_delete k m = AList.delete k m"

definition cm_load_and_delete :: "'k \<Rightarrow> ('k, 'v) cmap \<Rightarrow> 'v option \<times> ('k, 'v) cmap" where
  "cm_load_and_delete k m =
     (case cm_load k m of None \<Rightarrow> (None, m) | Some v \<Rightarrow> (Some v, cm_delete k m))"

definition cm_load_or_store ::
    "'k \<Rightarrow> (unit \<Rightarrow> 'v) \<Rightarrow> ('k, 'v) cmap \<Rightarrow> ('v \<times> bool) \<times> ('k, 'v) cmap" where
  "cm_load_or_store k f m =
     (case cm_load k m of
        Some v \<Rightarrow> ((v, True), m)
      | None \<Rightarrow> let v = f () in ((v, False), cm_store k v m))"

text \<open>The callback gets \<open>(value, exists)\<close> and returns \<open>(newValue, keep)\<close>; here the pair
  with a false flag is \<^const>\<open>None\<close>.\<close>

definition cm_update :: "'k \<Rightarrow> ('v option \<Rightarrow> 'v option) \<Rightarrow> ('k, 'v) cmap \<Rightarrow> ('k, 'v) cmap" where
  "cm_update k g m = (case g (cm_load k m) of Some v \<Rightarrow> cm_store k v m | None \<Rightarrow> cm_delete k m)"

definition cm_entries :: "('k, 'v) cmap \<Rightarrow> ('k \<times> 'v) list" where
  "cm_entries m = m"

definition cm_range :: "('s \<Rightarrow> 'k \<Rightarrow> 'v \<Rightarrow> 's \<times> bool) \<Rightarrow> ('k, 'v) cmap \<Rightarrow> 's \<Rightarrow> 's" where
  "cm_range f m s = range_loop f (cm_entries m) s"

definition cm_count :: "('k, 'v) cmap \<Rightarrow> nat" where
  "cm_count m = cm_range (\<lambda>n _ _. (Suc n, True)) m 0"

lemma cm_load_empty [simp]: "cm_load k cm_empty = None"
  by (simp add: cm_load_def cm_empty_def)

lemma cm_load_store [simp]: "cm_load j (cm_store k v m) = (if j = k then Some v else cm_load j m)"
  by (simp add: cm_load_def cm_store_def update_conv)

lemma cm_load_delete [simp]: "cm_load j (cm_delete k m) = (if j = k then None else cm_load j m)"
  by (simp add: cm_load_def cm_delete_def delete_conv)

lemma cm_load_update [simp]:
  "cm_load j (cm_update k g m) = (if j = k then g (cm_load k m) else cm_load j m)"
  by (simp add: cm_update_def split: option.split)

lemma cm_invar_empty [simp, intro]: "cm_invar cm_empty"
  by (simp add: cm_invar_def cm_empty_def)

lemma cm_invar_store [simp, intro]: "cm_invar m \<Longrightarrow> cm_invar (cm_store k v m)"
  by (simp add: cm_invar_def cm_store_def distinct_update)

lemma cm_invar_delete [simp, intro]: "cm_invar m \<Longrightarrow> cm_invar (cm_delete k m)"
  by (simp add: cm_invar_def cm_delete_def distinct_delete)

lemma cm_invar_update [simp, intro]: "cm_invar m \<Longrightarrow> cm_invar (cm_update k g m)"
  by (simp add: cm_update_def split: option.split)

lemma cm_entries_load: "cm_invar m \<Longrightarrow> (k, v) \<in> set m \<longleftrightarrow> cm_load k m = Some v"
  by (simp add: cm_invar_def cm_load_def)

lemma cm_load_Some_entry: "cm_load k m = Some v \<Longrightarrow> (k, v) \<in> set m"
  by (simp add: cm_load_def map_of_SomeD)

lemma cm_range_total:
  "cm_range (\<lambda>s k v. (g k v s, True)) m s = fold (\<lambda>(k, v). g k v) m s"
  by (simp add: cm_range_def cm_entries_def range_loop_total)

lemma cm_count_length [simp]: "cm_count m = length m"
proof -
  have "fold (\<lambda>(k, v). Suc) xs n = n + length xs" for xs :: "('a \<times> 'b) list" and n
    by (induction xs arbitrary: n) auto
  then show ?thesis
    by (simp add: cm_count_def cm_range_total)
qed

interpretation cm: concurrent_map "\<lambda>m k. cm_load k m" cm_invar cm_empty cm_load cm_store
  cm_delete cm_load_and_delete cm_load_or_store cm_update cm_entries
proof (unfold_locales, goal_cases)
  case (5 m k r m')
  then show ?case
    by (auto simp: cm_load_and_delete_def fun_eq_iff split: option.splits)
next
  case (6 m k f v loaded m')
  then show ?case
    by (auto simp: cm_load_or_store_def fun_eq_iff Let_def split: option.splits)
next
  case (8 m)
  then show ?case
    by (auto simp: cm_entries_def cm_invar_def cm_load_def)
qed (auto simp: fun_eq_iff)


text \<open>The clean-up idiom of the managers: range over a map, collect the entries that satisfy
  a predicate and delete each from the map while ranging.\<close>

definition cm_sweep :: "('v \<Rightarrow> bool) \<Rightarrow> ('k, 'v) cmap \<Rightarrow> ('k \<times> 'v) list \<times> ('k, 'v) cmap" where
  "cm_sweep P m = cm_range (\<lambda>(l, m') k v.
     (if P v then (l @ [(k, v)], cm_delete k m') else (l, m'), True)) m ([], m)"

lemma cm_sweep_fold:
  "range_loop (\<lambda>(l, m') k v. (if P v then (l @ [(k, v)], cm_delete k m') else (l, m'), True)) xs (l, m) =
   (l @ filter (\<lambda>(k, v). P v) xs, fold cm_delete (map fst (filter (\<lambda>(k, v). P v) xs)) m)"
  by (induction xs arbitrary: l m) auto

lemma cm_sweep_eq:
  "cm_sweep P m = (filter (\<lambda>(k, v). P v) m, fold cm_delete (map fst (filter (\<lambda>(k, v). P v) m)) m)"
  by (simp add: cm_sweep_def cm_range_def cm_entries_def cm_sweep_fold)

lemma cm_load_fold_delete:
  "cm_load k (fold cm_delete ks m) = (if k \<in> set ks then None else cm_load k m)"
  by (induction ks arbitrary: m) auto

lemma cm_invar_fold_delete [simp, intro]: "cm_invar m \<Longrightarrow> cm_invar (fold cm_delete ks m)"
  by (induction ks arbitrary: m) auto

lemma cm_load_sweep:
  assumes "cm_invar m"
  shows "cm_load k (snd (cm_sweep P m)) =
    (case cm_load k m of Some v \<Rightarrow> if P v then None else Some v | None \<Rightarrow> None)"
  using cm_entries_load [OF assms]
  by (auto simp: cm_sweep_eq cm_load_fold_delete image_iff split: option.split)

lemma cm_sweep_hits:
  assumes "cm_invar m"
  shows "(k, v) \<in> set (fst (cm_sweep P m)) \<longleftrightarrow> cm_load k m = Some v \<and> P v"
    and "distinct (map fst (fst (cm_sweep P m)))"
    and "cm_invar (snd (cm_sweep P m))"
  using assms cm_entries_load [OF assms]
  by (auto simp: cm_sweep_eq) (simp add: cm_invar_def distinct_map_filter)


section \<open>ShardedMap\<close>

text \<open>64 maps, each with a lock of its own; a key belongs to the shard of its low six bits.\<close>

type_synonym ('k, 'v) sharded_map = "('k word, 'v) cmap list"

definition numShards :: nat where
  "numShards = 64"

definition getShard :: "'k::len word \<Rightarrow> nat" where
  "getShard key = unat ((ucast key :: u64) AND 63)"

definition NewShardedMap :: "('k::len, 'v) sharded_map" where
  "NewShardedMap = replicate numShards cm_empty"

definition sh_Load :: "'k::len word \<Rightarrow> ('k, 'v) sharded_map \<Rightarrow> 'v option" where
  "sh_Load key m = cm_load key (m ! getShard key)"

definition sh_Store :: "'k::len word \<Rightarrow> 'v \<Rightarrow> ('k, 'v) sharded_map \<Rightarrow> ('k, 'v) sharded_map" where
  "sh_Store key value m = m[getShard key := cm_store key value (m ! getShard key)]"

definition sh_Delete :: "'k::len word \<Rightarrow> ('k, 'v) sharded_map \<Rightarrow> ('k, 'v) sharded_map" where
  "sh_Delete key m = m[getShard key := cm_delete key (m ! getShard key)]"

definition sh_LoadAndDelete ::
    "'k::len word \<Rightarrow> ('k, 'v) sharded_map \<Rightarrow> 'v option \<times> ('k, 'v) sharded_map" where
  "sh_LoadAndDelete key m =
     (let shard = m ! getShard key
      in case cm_load key shard of
           Some val \<Rightarrow> (Some val, m[getShard key := cm_delete key shard])
         | None \<Rightarrow> (None, m))"

text \<open>The first lookup runs under the read lock, the second one under the write lock; run
  without interference they see the same shard.\<close>

definition sh_LoadOrStore :: "'k::len word \<Rightarrow> (unit \<Rightarrow> 'v) \<Rightarrow> ('k, 'v) sharded_map \<Rightarrow>
    ('v \<times> bool) \<times> ('k, 'v) sharded_map" where
  "sh_LoadOrStore key valueFactory m =
     (case cm_load key (m ! getShard key) of
        Some val \<Rightarrow> ((val, True), m)
      | None \<Rightarrow>
          (case cm_load key (m ! getShard key) of
             Some val \<Rightarrow> ((val, True), m)
           | None \<Rightarrow>
               let val = valueFactory ()
               in ((val, False), m[getShard key := cm_store key val (m ! getShard key)])))"

definition sh_Update ::
    "'k::len word \<Rightarrow> ('v option \<Rightarrow> 'v option) \<Rightarrow> ('k, 'v) sharded_map \<Rightarrow> ('k, 'v) sharded_map" where
  "sh_Update key updateFunc m =
     (let shard = m ! getShard key; oldVal = cm_load key shard
      in case updateFunc oldVal of
           Some newVal \<Rightarrow> m[getShard key := cm_store key newVal shard]
         | None \<Rightarrow> if oldVal \<noteq> None then m[getShard key := cm_delete key shard] else m)"

text \<open>
  \<open>Range\<close> copies the entries of one shard, runs the callback on the copies without the
  lock, and goes on with the next shard as it is then. The map itself may be part of the
  state the callback changes: \<open>the_map\<close> reads it there. The flag says whether the loop ran
  to its end.
\<close>

fun range_flag :: "('s \<Rightarrow> 'k \<Rightarrow> 'v \<Rightarrow> 's \<times> bool) \<Rightarrow> ('k \<times> 'v) list \<Rightarrow> 's \<Rightarrow> 's \<times> bool" where
  "range_flag f [] s = (s, True)"
| "range_flag f ((k, v) # xs) s =
     (case f s k v of (s', go) \<Rightarrow> if go then range_flag f xs s' else (s', False))"

fun sh_range_from :: "('s \<Rightarrow> ('k::len, 'v) sharded_map) \<Rightarrow>
    ('s \<Rightarrow> 'k word \<Rightarrow> 'v \<Rightarrow> 's \<times> bool) \<Rightarrow> nat list \<Rightarrow> 's \<Rightarrow> 's" where
  "sh_range_from the_map f [] s = s"
| "sh_range_from the_map f (i # is) s =
     (case range_flag f (cm_entries (the_map s ! i)) s of
        (s', go) \<Rightarrow> if go then sh_range_from the_map f is s' else s')"

definition sh_Range :: "('s \<Rightarrow> ('k::len, 'v) sharded_map) \<Rightarrow>
    ('s \<Rightarrow> 'k word \<Rightarrow> 'v \<Rightarrow> 's \<times> bool) \<Rightarrow> 's \<Rightarrow> 's" where
  "sh_Range the_map f s = sh_range_from the_map f [0..<numShards] s"

definition sh_entries :: "('k::len, 'v) sharded_map \<Rightarrow> ('k word \<times> 'v) list" where
  "sh_entries m = concat m"

definition sh_invar :: "('k::len, 'v) sharded_map \<Rightarrow> bool" where
  "sh_invar m \<longleftrightarrow> length m = numShards \<and>
     (\<forall>i < numShards. cm_invar (m ! i) \<and> (\<forall>(k, v) \<in> set (m ! i). getShard k = i))"

lemma getShard_less [simp]: "getShard k < numShards"
proof -
  have "unat ((ucast k :: u64) AND 63) \<le> unat (63 :: u64)"
    by (rule word_and_le1 [THEN word_le_nat_alt [THEN iffD1]])
  then show ?thesis by (simp add: getShard_def numShards_def)
qed

lemma sh_invarD:
  assumes "sh_invar m"
  shows "length m = numShards" and "i < numShards \<Longrightarrow> cm_invar (m ! i)"
    and "i < numShards \<Longrightarrow> cm_load k (m ! i) = Some v \<Longrightarrow> getShard k = i"
  using assms by (auto simp: sh_invar_def dest!: cm_load_Some_entry)

lemma sh_shard_invar [simp, intro]: "sh_invar m \<Longrightarrow> cm_invar (m ! getShard k)"
  by (rule sh_invarD(2) [OF _ getShard_less])

lemma sh_load_upd:
  assumes "sh_invar m"
  shows "sh_Load j (m[getShard k := s]) = (if getShard j = getShard k then cm_load j s else sh_Load j m)"
  using sh_invarD(1) [OF assms] by (auto simp: sh_Load_def nth_list_update)

lemma sh_invar_upd:
  assumes "sh_invar m" and "cm_invar s" and "\<And>j v. cm_load j s = Some v \<Longrightarrow> getShard j = getShard k"
  shows "sh_invar (m[getShard k := s])"
proof -
  have "\<forall>(j, v) \<in> set s. getShard j = getShard k"
    using assms(2,3) by (auto simp: cm_entries_load)
  then show ?thesis
    using assms by (auto simp: sh_invar_def nth_list_update)
qed

lemma sh_invar_Store: "sh_invar m \<Longrightarrow> sh_invar (sh_Store k v m)"
  unfolding sh_Store_def
  by (rule sh_invar_upd) (auto dest: sh_invarD(3) [OF _ getShard_less] split: if_splits)

lemma sh_invar_Delete: "sh_invar m \<Longrightarrow> sh_invar (sh_Delete k m)"
  unfolding sh_Delete_def
  by (rule sh_invar_upd) (auto dest: sh_invarD(3) [OF _ getShard_less] split: if_splits)

lemma sh_Load_Store: "sh_invar m \<Longrightarrow> sh_Load j (sh_Store k v m) = (if j = k then Some v else sh_Load j m)"
  by (simp add: sh_Store_def sh_load_upd) (simp add: sh_Load_def)

lemma sh_Load_Delete: "sh_invar m \<Longrightarrow> sh_Load j (sh_Delete k m) = (if j = k then None else sh_Load j m)"
  by (simp add: sh_Delete_def sh_load_upd) (simp add: sh_Load_def)

lemma sh_LoadAndDelete_eq:
  "sh_LoadAndDelete k m = (sh_Load k m, if sh_Load k m = None then m else sh_Delete k m)"
  by (simp add: sh_LoadAndDelete_def sh_Load_def sh_Delete_def Let_def split: option.split)

lemma sh_LoadOrStore_eq:
  "sh_LoadOrStore k f m =
   (case sh_Load k m of Some v \<Rightarrow> ((v, True), m) | None \<Rightarrow> ((f (), False), sh_Store k (f ()) m))"
  by (simp add: sh_LoadOrStore_def sh_Load_def sh_Store_def Let_def split: option.split)

lemma sh_Update_eq:
  "sh_Update k g m =
   (case g (sh_Load k m) of
      Some v \<Rightarrow> sh_Store k v m
    | None \<Rightarrow> if sh_Load k m = None then m else sh_Delete k m)"
  by (cases "cm_load k (m ! getShard k)"; cases "g (cm_load k (m ! getShard k))")
    (simp_all add: sh_Update_def sh_Load_def sh_Store_def sh_Delete_def Let_def)

lemma distinct_concat_shards:
  assumes "\<And>i. i < length m \<Longrightarrow> distinct (map fst (m ! i))"
    and "\<And>i k v. i < length m \<Longrightarrow> (k, v) \<in> set (m ! i) \<Longrightarrow> h k = n + i"
  shows "distinct (map fst (concat m))"
  using assms
proof (induction m arbitrary: n)
  case Nil
  then show ?case by simp
next
  case (Cons x m)
  have d: "distinct (map fst x)"
    using Cons.prems(1) [of 0] by simp
  have hx: "h k = n" if "(k, v) \<in> set x" for k v
    using Cons.prems(2) [of 0 k v] that by simp
  have hm: "h k = Suc n + i" if "i < length m" "(k, v) \<in> set (m ! i)" for i k v
    using Cons.prems(2) [of "Suc i" k v] that by simp
  have "distinct (map fst (concat m))"
    using Cons.prems(1) [of "Suc i" for i] hm by (intro Cons.IH [of "Suc n"]) auto
  moreover have "fst ` set x \<inter> fst ` set (concat m) = {}"
  proof -
    have "h k \<noteq> n" if "k \<in> fst ` set (concat m)" for k
      using that hm by (fastforce simp: in_set_conv_nth)
    then show ?thesis using hx by fastforce
  qed
  ultimately show ?case
    using d by simp
qed

lemma sh_entries_distinct: "sh_invar m \<Longrightarrow> distinct (map fst (sh_entries m))"
  unfolding sh_entries_def
  by (rule distinct_concat_shards [where h = getShard and n = 0])
    (auto simp: sh_invar_def cm_invar_def)

lemma sh_entries_load:
  assumes "sh_invar m"
  shows "(k, v) \<in> set (sh_entries m) \<longleftrightarrow> sh_Load k m = Some v"
proof
  assume "(k, v) \<in> set (sh_entries m)"
  then obtain x where "x \<in> set m" "(k, v) \<in> set x"
    by (auto simp: sh_entries_def)
  then obtain i where i: "i < numShards" "(k, v) \<in> set (m ! i)"
    using sh_invarD(1) [OF assms] by (auto simp: in_set_conv_nth [of x])
  with assms have "getShard k = i"
    by (auto simp: sh_invar_def)
  with i assms show "sh_Load k m = Some v"
    by (simp add: sh_Load_def sh_invarD(2) flip: cm_entries_load)
next
  assume "sh_Load k m = Some v"
  with assms show "(k, v) \<in> set (sh_entries m)"
    using getShard_less [of k]
    by (auto simp: sh_Load_def sh_entries_def sh_invarD(1) dest!: cm_load_Some_entry
        intro!: bexI [of _ "m ! getShard k"])
qed

lemma sh_map_of_entries:
  assumes "sh_invar m"
  shows "map_of (sh_entries m) = (\<lambda>k. sh_Load k m)"
proof
  fix k
  have "map_of (sh_entries m) k = Some v \<longleftrightarrow> sh_Load k m = Some v" for v
    using assms by (simp add: sh_entries_distinct sh_entries_load)
  then show "map_of (sh_entries m) k = sh_Load k m"
    by (metis not_Some_eq)
qed

lemma sh_invar_New: "sh_invar NewShardedMap"
  by (simp add: sh_invar_def NewShardedMap_def cm_empty_def cm_invar_def)

lemma sh_Load_New: "sh_Load k NewShardedMap = None"
  using getShard_less [of k] by (simp add: sh_Load_def NewShardedMap_def)

interpretation sh: concurrent_map "\<lambda>m k. sh_Load k m" sh_invar NewShardedMap sh_Load sh_Store
  sh_Delete sh_LoadAndDelete sh_LoadOrStore sh_Update sh_entries
proof (unfold_locales, goal_cases)
  case (5 m k r m')
  then show ?case
    by (auto simp: sh_LoadAndDelete_eq fun_eq_iff sh_Load_Delete intro: sh_invar_Delete)
next
  case (6 m k f v loaded m')
  then show ?case
    by (auto simp: sh_LoadOrStore_eq fun_eq_iff sh_Load_Store intro: sh_invar_Store
        split: option.splits)
next
  case (7 m k g)
  then show ?case
    by (auto simp: sh_Update_eq fun_eq_iff sh_Load_Store sh_Load_Delete
        intro: sh_invar_Store sh_invar_Delete split: option.split)
next
  case (8 m)
  then show ?case
    by (simp add: sh_entries_distinct sh_map_of_entries)
qed (auto simp: fun_eq_iff sh_invar_New sh_Load_New sh_Load_Store sh_Load_Delete
    intro: sh_invar_Store sh_invar_Delete)


subsection \<open>A client run: outputs and final contents\<close>

datatype ('k, 'v) map_op =
    OpLoad 'k
  | OpStore 'k 'v
  | OpDelete 'k
  | OpLoadAndDelete 'k
  | OpLoadOrStore 'k 'v
  | OpUpdate 'k "'v option \<Rightarrow> 'v option"

fun sh_exec :: "('k::len word, 'v) map_op \<Rightarrow> ('k, 'v) sharded_map \<Rightarrow> 'v option \<times> ('k, 'v) sharded_map" where
  "sh_exec (OpLoad k) m = (sh_Load k m, m)"
| "sh_exec (OpStore k v) m = (None, sh_Store k v m)"
| "sh_exec (OpDelete k) m = (None, sh_Delete k m)"
| "sh_exec (OpLoadAndDelete k) m = sh_LoadAndDelete k m"
| "sh_exec (OpLoadOrStore k v) m = (case sh_LoadOrStore k (\<lambda>_. v) m of ((w, _), m') \<Rightarrow> (Some w, m'))"
| "sh_exec (OpUpdate k g) m = (None, sh_Update k g m)"

fun map_exec :: "('k, 'v) map_op \<Rightarrow> ('k \<rightharpoonup> 'v) \<Rightarrow> 'v option \<times> ('k \<rightharpoonup> 'v)" where
  "map_exec (OpLoad k) m = (m k, m)"
| "map_exec (OpStore k v) m = (None, m(k \<mapsto> v))"
| "map_exec (OpDelete k) m = (None, m(k := None))"
| "map_exec (OpLoadAndDelete k) m = (m k, m(k := None))"
| "map_exec (OpLoadOrStore k v) m = (case m k of Some w \<Rightarrow> (Some w, m) | None \<Rightarrow> (Some v, m(k \<mapsto> v)))"
| "map_exec (OpUpdate k g) m = (None, m(k := g (m k)))"

fun run_ops :: "('op \<Rightarrow> 'm \<Rightarrow> 'out \<times> 'm) \<Rightarrow> 'op list \<Rightarrow> 'm \<Rightarrow> 'out list \<times> 'm" where
  "run_ops exec [] m = ([], m)"
| "run_ops exec (x # xs) m =
     (case exec x m of (r, m') \<Rightarrow> case run_ops exec xs m' of (rs, m'') \<Rightarrow> (r # rs, m''))"

lemma sh_exec_step:
  assumes "sh_invar m" and "sh_exec x m = (r, m')"
  shows "sh_invar m' \<and> map_exec x (\<lambda>k. sh_Load k m) = (r, \<lambda>k. sh_Load k m')"
proof (cases x)
  case (OpLoadOrStore k v)
  show ?thesis
  proof (cases "sh_Load k m")
    case None
    with assms OpLoadOrStore show ?thesis
      by (auto simp: sh_LoadOrStore_eq fun_eq_iff sh_Load_Store sh_invar_Store)
  next
    case (Some w)
    with assms OpLoadOrStore have "r = Some w" and "m' = m"
      by (simp_all add: sh_LoadOrStore_eq)
    with assms(1) Some OpLoadOrStore show ?thesis by simp
  qed
next
  case (OpLoadAndDelete k)
  with assms sh.load_and_delete_spec [of m k r m'] show ?thesis
    by simp
next
  case (OpUpdate k g)
  with assms sh.update_spec [of m k g] show ?thesis
    by auto
qed (use assms in \<open>auto simp: fun_eq_iff sh_Load_Store sh_Load_Delete sh_invar_Store sh_invar_Delete\<close>)

lemma sh_run_refines:
  assumes "sh_invar m" and "run_ops sh_exec xs m = (rs, m')"
  shows "run_ops map_exec xs (\<lambda>k. sh_Load k m) = (rs, \<lambda>k. sh_Load k m')"
  using assms
proof (induction xs arbitrary: m rs)
  case Nil
  then show ?case by simp
next
  case (Cons x xs)
  obtain r m1 where "sh_exec x m = (r, m1)"
    by (metis surj_pair)
  with Cons sh_exec_step [of m x r m1] show ?case
    by (auto split: prod.splits)
qed


subsection \<open>Deleting while ranging\<close>

text \<open>The callback of the clean-up code: collect the keys whose value satisfies \<open>P\<close> and
  delete them from the map being visited.\<close>

definition collect_delete :: "('v \<Rightarrow> bool) \<Rightarrow> 'k::len word list \<times> ('k, 'v) sharded_map \<Rightarrow>
    'k word \<Rightarrow> 'v \<Rightarrow> ('k word list \<times> ('k, 'v) sharded_map) \<times> bool" where
  "collect_delete P s k v = (if P v then (fst s @ [k], sh_Delete k (snd s)) else s, True)"

lemma range_flag_collect:
  "range_flag (collect_delete P) xs s = (fold (\<lambda>(k, v) s. fst (collect_delete P s k v)) xs s, True)"
  by (induction xs arbitrary: s) (auto simp: collect_delete_def)

definition hits :: "('v \<Rightarrow> bool) \<Rightarrow> ('k \<times> 'v) list \<Rightarrow> 'k list" where
  "hits P xs = map fst (filter (\<lambda>(k, v). P v) xs)"

lemma hits_simps [simp]:
  "hits P [] = []"
  "hits P ((k, v) # xs) = (if P v then k # hits P xs else hits P xs)"
  "hits P (xs @ ys) = hits P xs @ hits P ys"
  by (simp_all add: hits_def)

lemma collect_delete_fold:
  assumes "sh_invar m" and "\<And>k v. (k, v) \<in> set xs \<Longrightarrow> getShard k = i"
  shows "\<exists>m'. fold (\<lambda>(k, v) s. fst (collect_delete P s k v)) xs (ks, m) = (ks @ hits P xs, m') \<and>
      sh_invar m' \<and> (\<forall>j. j < numShards \<longrightarrow> j \<noteq> i \<longrightarrow> m' ! j = m ! j) \<and>
      (\<forall>k. sh_Load k m' = (if k \<in> set (hits P xs) then None else sh_Load k m))"
  using assms
proof (induction xs arbitrary: ks m)
  case Nil
  then show ?case by simp
next
  case (Cons e xs)
  obtain k v where e: "e = (k, v)" by force
  define m1 where "m1 = (if P v then sh_Delete k m else m)"
  have k: "getShard k = i" using Cons.prems(2) [of k v] e by simp
  have m1: "sh_invar m1" "\<And>j. j < numShards \<Longrightarrow> j \<noteq> i \<Longrightarrow> m1 ! j = m ! j"
    "\<And>q. sh_Load q m1 = (if P v \<and> q = k then None else sh_Load q m)"
    using Cons.prems(1) k by (auto simp: m1_def sh_invar_Delete sh_Load_Delete) (simp add: sh_Delete_def)
  have step: "fst (collect_delete P (ks, m) k v) = (if P v then ks @ [k] else ks, m1)"
    by (simp add: collect_delete_def m1_def)
  obtain m2 where "fold (\<lambda>(k, v) s. fst (collect_delete P s k v)) xs (if P v then ks @ [k] else ks, m1) =
      ((if P v then ks @ [k] else ks) @ hits P xs, m2)"
    "sh_invar m2" "\<forall>j. j < numShards \<longrightarrow> j \<noteq> i \<longrightarrow> m2 ! j = m1 ! j"
    "\<forall>q. sh_Load q m2 = (if q \<in> set (hits P xs) then None else sh_Load q m1)"
    using Cons.IH [OF m1(1), of "if P v then ks @ [k] else ks"] Cons.prems(2)
    by (meson list.set_intros(2))
  then show ?case
    using m1(2,3) by (intro exI [of _ m2]) (simp add: e step)
qed

lemma collect_delete_shards:
  assumes "sh_invar m" and "distinct is" and "set is \<subseteq> {..<numShards}"
  shows "\<exists>m'. sh_range_from snd (collect_delete P) is (ks, m) =
      (ks @ hits P (concat (map ((!) m) is)), m') \<and> sh_invar m' \<and>
      (\<forall>k. sh_Load k m' =
        (if k \<in> set (hits P (concat (map ((!) m) is))) then None else sh_Load k m))"
  using assms
proof (induction "is" arbitrary: ks m)
  case Nil
  then show ?case by simp
next
  case (Cons i "is")
  have shard: "getShard k = i" if "(k, v) \<in> set (m ! i)" for k v
    using that Cons.prems by (auto simp: sh_invar_def)
  obtain m1 where m1: "fold (\<lambda>(k, v) s. fst (collect_delete P s k v)) (m ! i) (ks, m) =
      (ks @ hits P (m ! i), m1)" "sh_invar m1"
    "\<forall>j. j < numShards \<longrightarrow> j \<noteq> i \<longrightarrow> m1 ! j = m ! j"
    "\<forall>k. sh_Load k m1 = (if k \<in> set (hits P (m ! i)) then None else sh_Load k m)"
    using collect_delete_fold [OF Cons.prems(1), where xs = "m ! i" and P = P and ks = ks] shard by blast
  have rest: "map ((!) m1) is = map ((!) m) is"
    using m1(3) Cons.prems(2,3) by auto
  have "range_flag (collect_delete P) (m ! i) (ks, m) = ((ks @ hits P (m ! i), m1), True)"
    using m1(1) by (simp add: range_flag_collect)
  moreover obtain m2 where "sh_range_from snd (collect_delete P) is (ks @ hits P (m ! i), m1) =
      ((ks @ hits P (m ! i)) @ hits P (concat (map ((!) m) is)), m2)" "sh_invar m2"
    "\<forall>k. sh_Load k m2 = (if k \<in> set (hits P (concat (map ((!) m) is))) then None else sh_Load k m1)"
    using Cons.IH [OF m1(2), of "ks @ hits P (m ! i)"] Cons.prems(2,3) unfolding rest by auto
  ultimately show ?case
    using m1(4) by (intro exI [of _ m2]) (simp add: cm_entries_def)
qed

lemma concat_shards: "sh_invar m \<Longrightarrow> concat (map ((!) m) [0..<numShards]) = sh_entries m"
  by (metis map_nth sh_entries_def sh_invarD(1))


section \<open>StdSyncMap\<close>

text \<open>The standard library's \<open>sync.Map\<close>, one operation at a time, is a \<open>cmap\<close>. The factory of
  \<open>LoadOrStore\<close> is always evaluated, and \<open>Update\<close> is a load and a later store or delete:
  the two halves are separate definitions so that other operations can come between.\<close>

definition std_Load :: "'k \<Rightarrow> ('k, 'v) cmap \<Rightarrow> 'v option" where
  "std_Load key m = cm_load key m"

definition std_Store :: "'k \<Rightarrow> 'v \<Rightarrow> ('k, 'v) cmap \<Rightarrow> ('k, 'v) cmap" where
  "std_Store key value m = cm_store key value m"

definition std_Delete :: "'k \<Rightarrow> ('k, 'v) cmap \<Rightarrow> ('k, 'v) cmap" where
  "std_Delete key m = cm_delete key m"

definition std_LoadAndDelete :: "'k \<Rightarrow> ('k, 'v) cmap \<Rightarrow> 'v option \<times> ('k, 'v) cmap" where
  "std_LoadAndDelete key m = cm_load_and_delete key m"

definition std_LoadOrStore ::
    "'k \<Rightarrow> (unit \<Rightarrow> 'v) \<Rightarrow> ('k, 'v) cmap \<Rightarrow> ('v \<times> bool) \<times> ('k, 'v) cmap" where
  "std_LoadOrStore key valueFactory m = (let v = valueFactory () in cm_load_or_store key (\<lambda>_. v) m)"

definition std_Update_load ::
    "'k \<Rightarrow> ('v option \<Rightarrow> 'v option) \<Rightarrow> ('k, 'v) cmap \<Rightarrow> bool \<times> 'v option" where
  "std_Update_load key updateFunc m =
     (let oldVal = cm_load key m in (oldVal \<noteq> None, updateFunc oldVal))"

definition std_Update_write :: "'k \<Rightarrow> bool \<times> 'v option \<Rightarrow> ('k, 'v) cmap \<Rightarrow> ('k, 'v) cmap" where
  "std_Update_write key d m =
     (case snd d of
        Some newVal \<Rightarrow> cm_store key newVal m
      | None \<Rightarrow> if fst d then cm_delete key m else m)"

definition std_Update :: "'k \<Rightarrow> ('v option \<Rightarrow> 'v option) \<Rightarrow> ('k, 'v) cmap \<Rightarrow> ('k, 'v) cmap" where
  "std_Update key updateFunc m = std_Update_write key (std_Update_load key updateFunc m) m"

lemma std_Update_load_eq:
  "cm_load j (std_Update k g m) = (if j = k then g (cm_load k m) else cm_load j m)"
  by (auto simp: std_Update_def std_Update_load_def std_Update_write_def Let_def split: option.split)

lemma std_Update_invar: "cm_invar m \<Longrightarrow> cm_invar (std_Update k g m)"
  by (simp add: std_Update_def std_Update_load_def std_Update_write_def Let_def split: option.split)

interpretation std: concurrent_map "\<lambda>m k. cm_load k m" cm_invar cm_empty std_Load std_Store
  std_Delete std_LoadAndDelete std_LoadOrStore std_Update cm_entries
proof (unfold_locales, goal_cases)
  case (5 m k r m')
  then show ?case unfolding std_LoadAndDelete_def by (rule cm.load_and_delete_spec)
next
  case (6 m k f v loaded m')
  then show ?case
    using cm.load_or_store_spec [of m k "\<lambda>_. f ()" v loaded m'] by (simp add: std_LoadOrStore_def)
next
  case (7 m k g)
  then show ?case
    by (auto simp: fun_eq_iff std_Update_load_eq std_Update_invar)
qed (use cm.entries_spec in \<open>auto simp: fun_eq_iff std_Load_def std_Store_def std_Delete_def\<close>)


section \<open>XSyncMap\<close>

text \<open>The wrappers over \<open>xsync.Map\<close>. The library is the record of its operations, a
  parameter of the wrappers; \<open>zero\<close> is the zero value of \<open>V\<close>.\<close>

datatype compute_op = CancelOp | UpdateOp | DeleteOp

record ('k, 'v, 'm) xsync_ops =
  xl_Load :: "'k \<Rightarrow> 'm \<Rightarrow> 'v option"
  xl_Store :: "'k \<Rightarrow> 'v \<Rightarrow> 'm \<Rightarrow> 'm"
  xl_Delete :: "'k \<Rightarrow> 'm \<Rightarrow> 'm"
  xl_LoadAndDelete :: "'k \<Rightarrow> 'm \<Rightarrow> 'v option \<times> 'm"
  xl_LoadOrCompute :: "'k \<Rightarrow> (unit \<Rightarrow> 'v \<times> bool) \<Rightarrow> 'm \<Rightarrow> ('v \<times> bool) \<times> 'm"
  xl_Compute :: "'k \<Rightarrow> ('v option \<Rightarrow> 'v \<times> compute_op) \<Rightarrow> 'm \<Rightarrow> 'm"
  xl_Entries :: "'m \<Rightarrow> ('k \<times> 'v) list"

definition xs_Load :: "('k, 'v, 'm) xsync_ops \<Rightarrow> 'k \<Rightarrow> 'm \<Rightarrow> 'v option" where
  "xs_Load lib key m = xl_Load lib key m"

definition xs_Store :: "('k, 'v, 'm) xsync_ops \<Rightarrow> 'k \<Rightarrow> 'v \<Rightarrow> 'm \<Rightarrow> 'm" where
  "xs_Store lib key value m = xl_Store lib key value m"

definition xs_Delete :: "('k, 'v, 'm) xsync_ops \<Rightarrow> 'k \<Rightarrow> 'm \<Rightarrow> 'm" where
  "xs_Delete lib key m = xl_Delete lib key m"

definition xs_LoadAndDelete :: "('k, 'v, 'm) xsync_ops \<Rightarrow> 'k \<Rightarrow> 'm \<Rightarrow> 'v option \<times> 'm" where
  "xs_LoadAndDelete lib key m = xl_LoadAndDelete lib key m"

definition xs_LoadOrStore ::
    "('k, 'v, 'm) xsync_ops \<Rightarrow> 'k \<Rightarrow> (unit \<Rightarrow> 'v) \<Rightarrow> 'm \<Rightarrow> ('v \<times> bool) \<times> 'm" where
  "xs_LoadOrStore lib key valueFactory m = xl_LoadOrCompute lib key (\<lambda>_. (valueFactory (), False)) m"

definition xs_Update ::
    "('k, 'v, 'm) xsync_ops \<Rightarrow> 'v \<Rightarrow> 'k \<Rightarrow> ('v option \<Rightarrow> 'v option) \<Rightarrow> 'm \<Rightarrow> 'm" where
  "xs_Update lib zero key updateFunc m =
     xl_Compute lib key
       (\<lambda>old. case updateFunc old of Some newVal \<Rightarrow> (newVal, UpdateOp) | None \<Rightarrow> (zero, DeleteOp)) m"

definition xs_Entries :: "('k, 'v, 'm) xsync_ops \<Rightarrow> 'm \<Rightarrow> ('k \<times> 'v) list" where
  "xs_Entries lib m = xl_Entries lib m"

text \<open>What the library documents of these operations.\<close>

locale xsync_library =
  fixes lib :: "('k, 'v, 'm) xsync_ops"
    and lib_lookup :: "'m \<Rightarrow> 'k \<Rightarrow> 'v option"
    and lib_invar :: "'m \<Rightarrow> bool"
    and lib_new :: 'm
    and zero :: 'v
  assumes lib_new: "lib_invar lib_new \<and> lib_lookup lib_new = Map.empty"
    and lib_Load: "lib_invar m \<Longrightarrow> xl_Load lib k m = lib_lookup m k"
    and lib_Store: "lib_invar m \<Longrightarrow> lib_invar (xl_Store lib k v m) \<and>
      lib_lookup (xl_Store lib k v m) = (lib_lookup m)(k \<mapsto> v)"
    and lib_Delete: "lib_invar m \<Longrightarrow> lib_invar (xl_Delete lib k m) \<and>
      lib_lookup (xl_Delete lib k m) = (lib_lookup m)(k := None)"
    and lib_LoadAndDelete: "lib_invar m \<Longrightarrow> xl_LoadAndDelete lib k m = (r, m') \<Longrightarrow>
      lib_invar m' \<and> r = lib_lookup m k \<and> lib_lookup m' = (lib_lookup m)(k := None)"
    and lib_LoadOrCompute_hit: "lib_invar m \<Longrightarrow> lib_lookup m k = Some v \<Longrightarrow>
      xl_LoadOrCompute lib k f m = ((v, True), m)"
    and lib_LoadOrCompute_miss: "lib_invar m \<Longrightarrow> lib_lookup m k = None \<Longrightarrow> f () = (v, False) \<Longrightarrow>
      \<exists>m'. xl_LoadOrCompute lib k f m = ((v, False), m') \<and> lib_invar m' \<and>
           lib_lookup m' = (lib_lookup m)(k \<mapsto> v)"
    and lib_Compute: "lib_invar m \<Longrightarrow> g (lib_lookup m k) = (v, cop) \<Longrightarrow>
      lib_invar (xl_Compute lib k g m) \<and>
      lib_lookup (xl_Compute lib k g m) = (case cop of
        CancelOp \<Rightarrow> lib_lookup m
      | UpdateOp \<Rightarrow> (lib_lookup m)(k \<mapsto> v)
      | DeleteOp \<Rightarrow> (lib_lookup m)(k := None))"
    and lib_Entries: "lib_invar m \<Longrightarrow>
      distinct (map fst (xl_Entries lib m)) \<and> map_of (xl_Entries lib m) = lib_lookup m"

sublocale xsync_library \<subseteq> concurrent_map lib_lookup lib_invar lib_new "xs_Load lib" "xs_Store lib"
  "xs_Delete lib" "xs_LoadAndDelete lib" "xs_LoadOrStore lib" "xs_Update lib zero" "xs_Entries lib"
proof (unfold_locales, goal_cases)
  case (6 m k f v loaded m')
  show ?case
  proof (cases "lib_lookup m k")
    case None
    with 6 lib_LoadOrCompute_miss [OF 6(1) None, of "\<lambda>_. (f (), False)"] show ?thesis
      by (auto simp: xs_LoadOrStore_def)
  next
    case (Some w)
    with 6 lib_LoadOrCompute_hit [OF 6(1) Some, of "\<lambda>_. (f (), False)"] show ?thesis
      by (auto simp: xs_LoadOrStore_def)
  qed
next
  case (7 m k g)
  then show ?case
    unfolding xs_Update_def
    using lib_Compute [OF 7, of "\<lambda>old. case g old of Some nv \<Rightarrow> (nv, UpdateOp) | None \<Rightarrow> (zero, DeleteOp)" k]
    by (cases "g (lib_lookup m k)") auto
qed (auto simp: lib_new lib_Load lib_Store lib_Delete lib_Entries xs_Load_def xs_Store_def
    xs_Delete_def xs_LoadAndDelete_def xs_Entries_def dest: lib_LoadAndDelete)

text \<open>The documented behaviour can hold: a library made of the map of entries has it.\<close>

definition xsync_of_cmap :: "('k, 'v, ('k, 'v) cmap) xsync_ops" where
  "xsync_of_cmap = \<lparr>
     xl_Load = cm_load, xl_Store = cm_store, xl_Delete = cm_delete,
     xl_LoadAndDelete = cm_load_and_delete,
     xl_LoadOrCompute = (\<lambda>k f m. case cm_load k m of
         Some v \<Rightarrow> ((v, True), m)
       | None \<Rightarrow> (case f () of (v, cancel) \<Rightarrow> ((v, False), if cancel then m else cm_store k v m))),
     xl_Compute = (\<lambda>k g m. case g (cm_load k m) of (v, cop) \<Rightarrow>
       (case cop of CancelOp \<Rightarrow> m | UpdateOp \<Rightarrow> cm_store k v m | DeleteOp \<Rightarrow> cm_delete k m)),
     xl_Entries = cm_entries\<rparr>"

interpretation xs: xsync_library xsync_of_cmap "\<lambda>m k. cm_load k m" cm_invar cm_empty zero for zero
proof (unfold_locales, goal_cases)
  case (5 m k r m')
  then show ?case
    using cm.load_and_delete_spec [of m k r m'] by (simp add: xsync_of_cmap_def)
qed (use cm.entries_spec in \<open>auto simp: xsync_of_cmap_def fun_eq_iff split: compute_op.splits\<close>)


section \<open>Properties\<close>

definition increment :: "nat option \<Rightarrow> nat option" where
  "increment cur = Some (case cur of None \<Rightarrow> 1 | Some n \<Rightarrow> n + 1)"

lemma sh_run_invar:
  "sh_invar m \<Longrightarrow> sh_invar (snd (run_ops sh_exec xs m))"
proof (induction xs arbitrary: m)
  case (Cons x xs)
  obtain r m1 where r: "sh_exec x m = (r, m1)" by force
  obtain rs m2 where "run_ops sh_exec xs m1 = (rs, m2)" by force
  with r show ?case using Cons.IH [of m1] sh_exec_step [OF Cons.prems r] by simp
qed simp

text \<open>A sharded map behaves like one map: any sequence of operations on a new sharded map
  returns the results of the same operations on a new finite map, and the contents agree
  at the end.\<close>

theorem sharded_map_refines_map:
  "run_ops map_exec xs Map.empty =
     (fst (run_ops sh_exec xs NewShardedMap), \<lambda>k. sh_Load k (snd (run_ops sh_exec xs NewShardedMap)))"
proof -
  have e: "Map.empty = (\<lambda>k. sh_Load k NewShardedMap)" by (simp add: fun_eq_iff sh_Load_New)
  show ?thesis
    unfolding e by (rule sh_run_refines [OF sh_invar_New prod.collapse [symmetric]])
qed

text \<open>C22. Deleting entries from inside \<open>Range\<close> is safe on a sharded map that any operations
  built: the callback sees every matching entry exactly once, exactly those are gone
  afterwards, and the others are untouched.\<close>

theorem range_delete_exact:
  "\<exists>ks m'. sh_Range snd (collect_delete P) ([], snd (run_ops sh_exec xs NewShardedMap)) = (ks, m')
     \<and> distinct ks
     \<and> (\<forall>k. k \<in> set ks \<longleftrightarrow> (\<exists>v. sh_Load k (snd (run_ops sh_exec xs NewShardedMap)) = Some v \<and> P v))
     \<and> (\<forall>k. sh_Load k m' = (if k \<in> set ks then None else sh_Load k (snd (run_ops sh_exec xs NewShardedMap))))"
proof -
  let ?m = "snd (run_ops sh_exec xs NewShardedMap)"
  have m: "sh_invar ?m" by (rule sh_run_invar [OF sh_invar_New])
  let ?ks = "hits P (sh_entries ?m)"
  have "distinct ?ks"
    using sh_entries_distinct [OF m] by (simp add: hits_def distinct_map_filter)
  moreover have "k \<in> set ?ks \<longleftrightarrow> (\<exists>v. sh_Load k ?m = Some v \<and> P v)" for k
    using sh_entries_load [OF m] by (force simp: hits_def)
  ultimately show ?thesis
    using collect_delete_shards [OF m, of "[0..<numShards]" P "[]"]
    by (auto simp: sh_Range_def concat_shards [OF m] atLeast0LessThan)
qed

text \<open>The \<open>sync.Map\<close> variant has no atomic update: when two updates of one key both read
  before either writes, one of them is lost.\<close>

theorem std_update_loses:
  "cm_load k (std_Update_write k (std_Update_load k increment m) (std_Update_write k (std_Update_load k increment m) m))
           = cm_load k (std_Update k increment m)
     \<and> cm_load k (std_Update k increment (std_Update k increment m)) \<noteq> cm_load k (std_Update k increment m)"
  by (auto simp: increment_def std_Update_def std_Update_load_def std_Update_write_def Let_def split: option.split)

end
