(* ===== verification/Process_Data.thy ===== *)
theory Process_Data
  imports Conc_Map
begin

unbundle bit_operations_syntax

text \<open>
  The per-process state of \<open>internal/kernel/statemanager\<close>: \<open>process_data.go\<close> (the record of
  one process instance) and its modules \<open>process_diskio.go\<close>, \<open>process_memory.go\<close>,
  \<open>process_network.go\<close>, \<open>process_registry.go\<close>, \<open>process_thread.go\<close>.

  An atomic counter is a word; a \<open>Record\<close> method returns the updated record, or
  \<^const>\<open>None\<close> where an array index would panic. \<open>wf_process_data\<close> says that the arrays have
  the length they are allocated with and that the maps have distinct keys; every method
  keeps it, no method panics under it, and \<open>Reset\<close> turns a well-formed record into a new one,
  which is what makes the pooled objects reusable.
\<close>


section \<open>Disk module\<close>

definition DiskOpRead :: nat where "DiskOpRead = 0"
definition DiskOpWrite :: nat where "DiskOpWrite = 1"
definition DiskOpFlush :: nat where "DiskOpFlush = 2"
definition DiskOpCount :: nat where "DiskOpCount = 3"

definition DiskOpToString :: "string list" where
  "DiskOpToString = [''read'', ''write'', ''flush'']"

record disk_metrics =
  IOCount :: "i64 list"
  BytesRead :: i64
  BytesWritten :: i64

record disk_module =
  Disks :: "(u32, disk_metrics) cmap"

definition newDiskMetrics :: disk_metrics where
  "newDiskMetrics = \<lparr>IOCount = replicate DiskOpCount 0, BytesRead = 0, BytesWritten = 0\<rparr>"

definition newDiskModule :: disk_module where
  "newDiskModule = \<lparr>Disks = cm_empty\<rparr>"

definition disk_Reset :: "disk_module \<Rightarrow> disk_module" where
  "disk_Reset dm = dm\<lparr>Disks := cm_empty\<rparr>"

text \<open>The second lookup is the double check under the write lock. The result is the entry's
  counters, which the caller updates in place.\<close>

definition getOrCreateDiskMetrics :: "disk_module \<Rightarrow> u32 \<Rightarrow> disk_metrics \<times> disk_module" where
  "getOrCreateDiskMetrics dm diskNumber =
     (case cm_load diskNumber (Disks dm) of
        Some metrics \<Rightarrow> (metrics, dm)
      | None \<Rightarrow>
          (case cm_load diskNumber (Disks dm) of
             Some metrics \<Rightarrow> (metrics, dm)
           | None \<Rightarrow> (newDiskMetrics, dm\<lparr>Disks := cm_store diskNumber newDiskMetrics (Disks dm)\<rparr>)))"


section \<open>Memory module\<close>

record memory_module =
  HardPageFaults :: u64

definition newMemoryModule :: memory_module where
  "newMemoryModule = \<lparr>HardPageFaults = 0\<rparr>"

definition memory_Reset :: "memory_module \<Rightarrow> memory_module" where
  "memory_Reset mm = mm\<lparr>HardPageFaults := 0\<rparr>"


section \<open>Network module\<close>

definition ProtocolTCP :: nat where "ProtocolTCP = 0"
definition ProtocolUDP :: nat where "ProtocolUDP = 1"
definition protocolMax :: nat where "protocolMax = 2"

record network_module =
  BytesSent :: "u64 list"
  BytesReceived :: "u64 list"
  ConnectionsAttempted :: "u64 list"
  ConnectionsAccepted :: "u64 list"
  RetransmissionsTotal :: u64
  ConnectionsFailed :: "(u32, u64) cmap"

definition newNetworkModule :: network_module where
  "newNetworkModule = \<lparr>
     BytesSent = replicate protocolMax 0, BytesReceived = replicate protocolMax 0,
     ConnectionsAttempted = replicate protocolMax 0, ConnectionsAccepted = replicate protocolMax 0,
     RetransmissionsTotal = 0, ConnectionsFailed = cm_empty\<rparr>"

definition network_Reset :: "network_module \<Rightarrow> network_module" where
  "network_Reset nm = nm\<lparr>
     RetransmissionsTotal := 0,
     BytesSent := map (\<lambda>_. 0) (BytesSent nm), BytesReceived := map (\<lambda>_. 0) (BytesReceived nm),
     ConnectionsAttempted := map (\<lambda>_. 0) (ConnectionsAttempted nm),
     ConnectionsAccepted := map (\<lambda>_. 0) (ConnectionsAccepted nm),
     ConnectionsFailed := cm_empty\<rparr>"

definition getOrCreateFailureCounter :: "network_module \<Rightarrow> u32 \<Rightarrow> u64 \<times> network_module" where
  "getOrCreateFailureCounter nm key =
     (case cm_load key (ConnectionsFailed nm) of
        Some counter \<Rightarrow> (counter, nm)
      | None \<Rightarrow>
          (case cm_load key (ConnectionsFailed nm) of
             Some counter \<Rightarrow> (counter, nm)
           | None \<Rightarrow> (0, nm\<lparr>ConnectionsFailed := cm_store key 0 (ConnectionsFailed nm)\<rparr>)))"


section \<open>Registry module\<close>

definition ResultSuccess :: nat where "ResultSuccess = 0"
definition ResultFailure :: nat where "ResultFailure = 1"
definition ResultMax :: nat where "ResultMax = 2"
definition MaxRegistryOpcodes :: nat where "MaxRegistryOpcodes = 256"
definition MaxRegistryArray :: nat where "MaxRegistryArray = MaxRegistryOpcodes * ResultMax"

record registry_module =
  Operations :: "u64 list"

definition newRegistryModule :: registry_module where
  "newRegistryModule = \<lparr>Operations = replicate MaxRegistryArray 0\<rparr>"

definition registry_Reset :: "registry_module \<Rightarrow> registry_module" where
  "registry_Reset rm = rm\<lparr>Operations := map (\<lambda>_. 0) (Operations rm)\<rparr>"

text \<open>The table of operation names: entries 10 to 33 are set, the others are empty.\<close>

definition registry_opcode_names :: "string list" where
  "registry_opcode_names =
    [''create'', ''open'', ''delete'', ''query'', ''set_value'', ''delete_value'', ''query_value'',
     ''enumerate_key'', ''enumerate_value_key'', ''query_multiple_value'', ''set_information'',
     ''flush'', ''kcb_create'', ''kcb_delete'', ''kcb_rundown_begin'', ''kcb_rundown_end'',
     ''virtualize'', ''close'', ''set_security'', ''query_security'', ''commit'', ''prepare'',
     ''rollback'', ''mount_hive'']"

definition RegistryOpcodeToString :: "u8 \<Rightarrow> string" where
  "RegistryOpcodeToString opcode =
     (let i = unat opcode
      in if 10 \<le> i \<and> i \<le> 33 then registry_opcode_names ! (i - 10) else '''')"


section \<open>Thread module\<close>

record thread_module =
  ContextSwitches :: u64

definition newThreadModule :: thread_module where
  "newThreadModule = \<lparr>ContextSwitches = 0\<rparr>"

definition thread_Reset :: "thread_module \<Rightarrow> thread_module" where
  "thread_Reset tm = tm\<lparr>ContextSwitches := 0\<rparr>"


section \<open>ProcessInfo and ProcessData\<close>

record process_info =
  PID :: u32
  StartKey :: u64
  Name :: string
  ServiceName :: string
  SubProcessTag :: u32
  CreateTime :: go_time
  TerminationTime :: go_time
  LastSeen :: go_time
  ParentPID :: u32
  SessionID :: u32
  UniqueHash :: u64

record process_data =
  Info :: process_info
  Disk :: disk_module
  Memory :: memory_module
  Network :: network_module
  Registry :: registry_module
  ThreadMod :: thread_module

definition zeroProcessInfo :: process_info where
  "zeroProcessInfo = \<lparr>PID = 0, StartKey = 0, Name = '''', ServiceName = '''', SubProcessTag = 0,
     CreateTime = 0, TerminationTime = 0, LastSeen = 0, ParentPID = 0, SessionID = 0, UniqueHash = 0\<rparr>"

definition info_reset :: "process_info \<Rightarrow> process_info" where
  "info_reset pi = pi\<lparr>PID := 0, ParentPID := 0, StartKey := 0, CreateTime := 0,
     TerminationTime := 0, LastSeen := 0, Name := '''', ServiceName := '''', SubProcessTag := 0,
     SessionID := 0, UniqueHash := 0\<rparr>"

definition info_Clone :: "process_info \<Rightarrow> process_info" where
  "info_Clone pi = \<lparr>PID = PID pi, StartKey = StartKey pi, Name = Name pi,
     ServiceName = ServiceName pi, SubProcessTag = SubProcessTag pi, CreateTime = CreateTime pi,
     TerminationTime = TerminationTime pi, LastSeen = LastSeen pi, ParentPID = ParentPID pi,
     SessionID = SessionID pi, UniqueHash = UniqueHash pi\<rparr>"

text \<open>The pool's \<open>New\<close> function.\<close>

definition newProcessData :: process_data where
  "newProcessData = \<lparr>Info = zeroProcessInfo, Disk = newDiskModule, Memory = newMemoryModule,
     Network = newNetworkModule, Registry = newRegistryModule, ThreadMod = newThreadModule\<rparr>"

definition pd_Reset :: "process_data \<Rightarrow> process_data" where
  "pd_Reset pd = pd\<lparr>Disk := disk_Reset (Disk pd), Memory := memory_Reset (Memory pd),
     Network := network_Reset (Network pd), Registry := registry_Reset (Registry pd),
     ThreadMod := thread_Reset (ThreadMod pd), Info := info_reset (Info pd)\<rparr>"



section \<open>Recording methods\<close>

definition RecordDiskIO :: "u32 \<Rightarrow> u32 \<Rightarrow> bool \<Rightarrow> process_data \<Rightarrow> process_data option" where
  "RecordDiskIO diskNumber transferSize isWrite pd =
     (case getOrCreateDiskMetrics (Disk pd) diskNumber of
        (metrics, dm) \<Rightarrow>
          let operation = (if isWrite then DiskOpWrite else DiskOpRead);
              metrics1 = (if isWrite
                then metrics\<lparr>BytesWritten := BytesWritten metrics + ucast transferSize\<rparr>
                else metrics\<lparr>BytesRead := BytesRead metrics + ucast transferSize\<rparr>)
          in case arr_add (IOCount metrics1) operation 1 of
               None \<Rightarrow> None
             | Some counts \<Rightarrow>
                 Some (pd\<lparr>Disk := dm\<lparr>Disks :=
                   cm_store diskNumber (metrics1\<lparr>IOCount := counts\<rparr>) (Disks dm)\<rparr>\<rparr>))"

definition RecordHardPageFault :: "process_data \<Rightarrow> process_data" where
  "RecordHardPageFault pd =
     pd\<lparr>Memory := (Memory pd)\<lparr>HardPageFaults := HardPageFaults (Memory pd) + 1\<rparr>\<rparr>"

definition RecordHardPageFaults :: "u64 \<Rightarrow> process_data \<Rightarrow> process_data" where
  "RecordHardPageFaults count pd =
     pd\<lparr>Memory := (Memory pd)\<lparr>HardPageFaults := HardPageFaults (Memory pd) + count\<rparr>\<rparr>"

definition RecordDataSent :: "nat \<Rightarrow> u32 \<Rightarrow> process_data \<Rightarrow> process_data option" where
  "RecordDataSent protocol bytes pd =
     map_option (\<lambda>xs. pd\<lparr>Network := (Network pd)\<lparr>BytesSent := xs\<rparr>\<rparr>)
       (arr_add (BytesSent (Network pd)) protocol (ucast bytes))"

definition RecordDataReceived :: "nat \<Rightarrow> u32 \<Rightarrow> process_data \<Rightarrow> process_data option" where
  "RecordDataReceived protocol bytes pd =
     map_option (\<lambda>xs. pd\<lparr>Network := (Network pd)\<lparr>BytesReceived := xs\<rparr>\<rparr>)
       (arr_add (BytesReceived (Network pd)) protocol (ucast bytes))"

definition RecordConnectionAttempted :: "nat \<Rightarrow> process_data \<Rightarrow> process_data option" where
  "RecordConnectionAttempted protocol pd =
     map_option (\<lambda>xs. pd\<lparr>Network := (Network pd)\<lparr>ConnectionsAttempted := xs\<rparr>\<rparr>)
       (arr_add (ConnectionsAttempted (Network pd)) protocol 1)"

definition RecordConnectionAccepted :: "nat \<Rightarrow> process_data \<Rightarrow> process_data option" where
  "RecordConnectionAccepted protocol pd =
     map_option (\<lambda>xs. pd\<lparr>Network := (Network pd)\<lparr>ConnectionsAccepted := xs\<rparr>\<rparr>)
       (arr_add (ConnectionsAccepted (Network pd)) protocol 1)"

definition RecordRetransmission :: "process_data \<Rightarrow> process_data" where
  "RecordRetransmission pd =
     pd\<lparr>Network := (Network pd)\<lparr>RetransmissionsTotal := RetransmissionsTotal (Network pd) + 1\<rparr>\<rparr>"

definition RecordConnectionFailed :: "u32 \<Rightarrow> process_data \<Rightarrow> process_data" where
  "RecordConnectionFailed failureKey pd =
     (case getOrCreateFailureCounter (Network pd) failureKey of
        (counter, nm) \<Rightarrow>
          pd\<lparr>Network := nm\<lparr>ConnectionsFailed :=
            cm_store failureKey (counter + 1) (ConnectionsFailed nm)\<rparr>\<rparr>)"

definition registry_index :: "u8 \<Rightarrow> nat \<Rightarrow> nat" where
  "registry_index opcode result = unat opcode * ResultMax + result"

definition RecordRegistryOperation :: "u8 \<Rightarrow> u32 \<Rightarrow> process_data \<Rightarrow> process_data option" where
  "RecordRegistryOperation opcode status pd =
     (let result = (if status \<noteq> 0 then ResultFailure else ResultSuccess);
          index = registry_index opcode result
      in map_option (\<lambda>xs. pd\<lparr>Registry := (Registry pd)\<lparr>Operations := xs\<rparr>\<rparr>)
           (arr_add (Operations (Registry pd)) index 1))"

definition RecordContextSwitch :: "process_data \<Rightarrow> process_data" where
  "RecordContextSwitch pd =
     pd\<lparr>ThreadMod := (ThreadMod pd)\<lparr>ContextSwitches := ContextSwitches (ThreadMod pd) + 1\<rparr>\<rparr>"


section \<open>Well-formed records\<close>

definition wf_disk_module :: "disk_module \<Rightarrow> bool" where
  "wf_disk_module dm \<longleftrightarrow> cm_invar (Disks dm) \<and>
     (\<forall>d m. cm_load d (Disks dm) = Some m \<longrightarrow> length (IOCount m) = DiskOpCount)"

text \<open>A failure key holds a known protocol and address family, and only operations that have a
  name are counted: otherwise two counters could be published under the same labels.\<close>

definition plain_failure_key :: "u32 \<Rightarrow> bool" where
  "plain_failure_key k \<longleftrightarrow> unat (drop_bit 24 k) < protocolMax \<and> unat (drop_bit 16 k AND 0xFF) < 2"

definition wf_network_module :: "network_module \<Rightarrow> bool" where
  "wf_network_module nm \<longleftrightarrow>
     length (BytesSent nm) = protocolMax \<and> length (BytesReceived nm) = protocolMax \<and>
     length (ConnectionsAttempted nm) = protocolMax \<and>
     length (ConnectionsAccepted nm) = protocolMax \<and> cm_invar (ConnectionsFailed nm) \<and>
     (\<forall>k c. cm_load k (ConnectionsFailed nm) = Some c \<longrightarrow> plain_failure_key k)"

definition named_slot :: "nat \<Rightarrow> bool" where
  "named_slot i \<longleftrightarrow> RegistryOpcodeToString (of_nat (i div ResultMax)) \<noteq> ''''"

definition named_slots :: "u64 list \<Rightarrow> bool" where
  "named_slots xs \<longleftrightarrow> (\<forall>i < length xs. xs ! i \<noteq> 0 \<longrightarrow> named_slot i)"

definition wf_process_data :: "process_data \<Rightarrow> bool" where
  "wf_process_data pd \<longleftrightarrow> wf_disk_module (Disk pd) \<and> wf_network_module (Network pd) \<and>
     length (Operations (Registry pd)) = MaxRegistryArray \<and> named_slots (Operations (Registry pd))"

lemmas module_consts = DiskOpRead_def DiskOpWrite_def DiskOpFlush_def DiskOpCount_def
  ProtocolTCP_def ProtocolUDP_def protocolMax_def ResultSuccess_def ResultFailure_def
  ResultMax_def MaxRegistryOpcodes_def MaxRegistryArray_def

lemma wf_newProcessData [simp]: "wf_process_data newProcessData"
  by (simp add: wf_process_data_def newProcessData_def wf_disk_module_def newDiskModule_def
      wf_network_module_def newNetworkModule_def newRegistryModule_def named_slots_def)

lemma wf_Info [simp]: "wf_process_data (pd\<lparr>Info := i\<rparr>) = wf_process_data pd"
  by (simp add: wf_process_data_def)

lemma getOrCreateDiskMetrics_eq:
  "getOrCreateDiskMetrics dm d =
   (case cm_load d (Disks dm) of
      Some m \<Rightarrow> (m, dm)
    | None \<Rightarrow> (newDiskMetrics, dm\<lparr>Disks := cm_store d newDiskMetrics (Disks dm)\<rparr>))"
  by (simp add: getOrCreateDiskMetrics_def split: option.split)

lemma getOrCreateFailureCounter_eq:
  "getOrCreateFailureCounter nm k =
   (case cm_load k (ConnectionsFailed nm) of
      Some c \<Rightarrow> (c, nm)
    | None \<Rightarrow> (0, nm\<lparr>ConnectionsFailed := cm_store k 0 (ConnectionsFailed nm)\<rparr>))"
  by (simp add: getOrCreateFailureCounter_def split: option.split)

lemma registry_index_bound: "r < ResultMax \<Longrightarrow> registry_index opcode r < MaxRegistryArray"
  using unsigned_less [of opcode, where 'a = nat] by (simp add: registry_index_def module_consts)

lemma registry_index_div: "r < ResultMax \<Longrightarrow> registry_index opcode r div ResultMax = unat opcode"
  and registry_index_mod: "r < ResultMax \<Longrightarrow> registry_index opcode r mod ResultMax = r"
  by (simp_all add: registry_index_def module_consts)

lemma named_slot_index [simp]:
  "r < ResultMax \<Longrightarrow> named_slot (registry_index opcode r) \<longleftrightarrow> RegistryOpcodeToString opcode \<noteq> ''''"
  by (simp add: named_slot_def registry_index_div)

lemma named_slots_replicate [simp]: "named_slots (replicate n 0)"
  by (simp add: named_slots_def)

lemma named_slots_update: "named_slots xs \<Longrightarrow> named_slot i \<Longrightarrow> named_slots (xs[i := n])"
  unfolding named_slots_def by (metis length_list_update nth_list_update_neq)

text \<open>The counters of one disk, zero for a disk without an entry.\<close>

definition disk_of :: "process_data \<Rightarrow> u32 \<Rightarrow> disk_metrics" where
  "disk_of pd d = (case cm_load d (Disks (Disk pd)) of Some m \<Rightarrow> m | None \<Rightarrow> newDiskMetrics)"

definition failed_of :: "process_data \<Rightarrow> u32 \<Rightarrow> u64" where
  "failed_of pd k = (case cm_load k (ConnectionsFailed (Network pd)) of Some c \<Rightarrow> c | None \<Rightarrow> 0)"

lemma disk_of_length: "wf_process_data pd \<Longrightarrow> length (IOCount (disk_of pd d)) = DiskOpCount"
  by (auto simp: disk_of_def wf_process_data_def wf_disk_module_def newDiskMetrics_def split: option.split)

lemma RecordDiskIO_Some:
  assumes "wf_process_data pd"
  shows "\<exists>pd'. RecordDiskIO d n w pd = Some pd' \<and> wf_process_data pd' \<and> Info pd' = Info pd \<and>
    (\<forall>e. disk_of pd' e =
      (if e = d then
         let m = disk_of pd d; i = (if w then DiskOpWrite else DiskOpRead)
         in \<lparr>IOCount = (IOCount m)[i := IOCount m ! i + 1],
             BytesRead = BytesRead m + (if w then 0 else ucast n),
             BytesWritten = BytesWritten m + (if w then ucast n else 0)\<rparr>
       else disk_of pd e))"
proof -
  have len: "length (IOCount m) = 3" if "cm_load d (Disks (Disk pd)) = Some m" for m
    using assms that by (simp add: wf_process_data_def wf_disk_module_def module_consts)
  show ?thesis
    using assms len
    by (cases "cm_load d (Disks (Disk pd))"; cases w)
      (auto simp: RecordDiskIO_def getOrCreateDiskMetrics_eq Let_def arr_add_def disk_of_def
        newDiskMetrics_def module_consts wf_process_data_def wf_disk_module_def dest: len)
qed

lemma RecordRegistryOperation_Some:
  assumes "wf_process_data pd" and "RegistryOpcodeToString opcode \<noteq> ''''"
  shows "\<exists>pd'. RecordRegistryOperation opcode status pd = Some pd' \<and> wf_process_data pd' \<and>
    Info pd' = Info pd \<and>
    (\<forall>i < MaxRegistryArray. Operations (Registry pd') ! i = Operations (Registry pd) ! i +
      (if i = registry_index opcode (if status \<noteq> 0 then ResultFailure else ResultSuccess) then 1 else 0))"
proof -
  define r where "r = (if status \<noteq> 0 then ResultFailure else ResultSuccess)"
  have r: "r < ResultMax" by (simp add: r_def module_consts)
  have "registry_index opcode r < length (Operations (Registry pd))"
    using assms registry_index_bound [OF r, of opcode] by (simp add: wf_process_data_def)
  moreover have "named_slot (registry_index opcode r)" using assms(2) r by simp
  ultimately show ?thesis
    using assms(1) unfolding r_def
    by (auto simp: RecordRegistryOperation_def Let_def arr_add_def wf_process_data_def
        nth_list_update named_slots_update)
qed

lemma RecordData_Some:
  assumes "wf_process_data pd" and "p < protocolMax"
  shows "\<exists>pd'. RecordDataSent p n pd = Some pd' \<and> wf_process_data pd' \<and> Info pd' = Info pd"
    and "\<exists>pd'. RecordDataReceived p n pd = Some pd' \<and> wf_process_data pd' \<and> Info pd' = Info pd"
    and "\<exists>pd'. RecordConnectionAttempted p pd = Some pd' \<and> wf_process_data pd' \<and> Info pd' = Info pd"
    and "\<exists>pd'. RecordConnectionAccepted p pd = Some pd' \<and> wf_process_data pd' \<and> Info pd' = Info pd"
  using assms
  by (auto simp: RecordDataSent_def RecordDataReceived_def RecordConnectionAttempted_def
      RecordConnectionAccepted_def arr_add_def wf_process_data_def wf_network_module_def)

lemma wf_simple_records [simp]:
  "wf_process_data (RecordHardPageFault pd) = wf_process_data pd"
  "wf_process_data (RecordRetransmission pd) = wf_process_data pd"
  "wf_process_data (RecordContextSwitch pd) = wf_process_data pd"
  "Info (RecordHardPageFault pd) = Info pd"
  "Info (RecordRetransmission pd) = Info pd"
  "Info (RecordContextSwitch pd) = Info pd"
  by (simp_all add: wf_process_data_def wf_network_module_def RecordHardPageFault_def
      RecordRetransmission_def RecordContextSwitch_def)

lemma wf_RecordConnectionFailed:
  "wf_process_data pd \<Longrightarrow> plain_failure_key k \<Longrightarrow> wf_process_data (RecordConnectionFailed k pd)"
  by (auto simp: RecordConnectionFailed_def getOrCreateFailureCounter_eq wf_process_data_def
      wf_network_module_def split: option.split)

lemma RecordConnectionFailed_counts:
  "failed_of (RecordConnectionFailed k pd) j = failed_of pd j + (if j = k then 1 else 0)"
  "Info (RecordConnectionFailed k pd) = Info pd"
  by (auto simp: RecordConnectionFailed_def getOrCreateFailureCounter_eq failed_of_def
      split: option.split)

lemma map_zero_replicate: "length xs = n \<Longrightarrow> map (\<lambda>_. 0) xs = replicate n 0"
  by (simp add: map_replicate_const)

lemma wf_Reset_new: "wf_process_data pd \<Longrightarrow> pd_Reset pd = newProcessData"
  by (simp add: wf_process_data_def wf_network_module_def pd_Reset_def newProcessData_def
      disk_Reset_def newDiskModule_def memory_Reset_def newMemoryModule_def network_Reset_def
      newNetworkModule_def registry_Reset_def newRegistryModule_def thread_Reset_def
      newThreadModule_def info_reset_def zeroProcessInfo_def map_zero_replicate)

end
