(* ===== verification/Kernel_State.thy ===== *)
theory Kernel_State
  imports Process_Data
begin

text \<open>
  The state of \<open>KernelStateManager\<close> and of its four managers (the struct declarations of
  \<open>s_state_manager.go\<close>, \<open>s_process_manager.go\<close>, \<open>s_thread_manager.go\<close>,
  \<open>s_image_manager.go\<close>, \<open>s_service_manager.go\<close>, \<open>aggregation.go\<close> and \<open>diagnostics.go\<close>).

  \<open>*ProcessData\<close> values are shared between the maps of the managers and recycled through a
  pool, so they live in an explicit store: \<open>heap\<close> maps references to objects, a pointer is
  a reference or nil (\<^const>\<open>None\<close>), and dereferencing nil is a panic. \<open>next_ref\<close> is the
  first reference never allocated. Images have a store of their own inside the image manager.
\<close>

type_synonym ref = nat
type_synonym ptr = "ref option"


section \<open>Manager records\<close>

record process_manager =
  instanceData :: "(u64, ref) cmap"
  terminatedProcesses :: "(u64, u64) cmap"
  processDataPool :: "ref list"
  pidToCurrentStartKey :: "(u32, u64) cmap"
  pidToCurrentProcessData :: "(u32, ptr) cmap"
  processFilterEnabled :: bool
  processNameFilters :: "string list"
  PM_Enabled :: bool

record thread_termination_record =
  TerminatedAtGeneration :: u64
  TR_StartKey :: u64

record thread_manager =
  tidToCurrentProcessData :: "(u32, ptr) cmap"
  terminatedThreads :: "(u32, thread_termination_record) cmap"

record image_info =
  ImageBase :: u64
  ImageSize :: u64
  ImageName :: string
  RefCount :: "32 word"

record image_manager =
  images :: "(u64, ref) cmap"
  addressCache :: "(u64, ref) cmap"
  terminatedImages :: "(u64, u64) cmap"
  imageInfoPool :: "ref list"
  internedImageNames :: "(string, string) cmap"
  image_heap :: "ref \<Rightarrow> image_info"
  image_next :: ref

record service_manager =
  serviceTags :: "(u32, string) cmap"


section \<open>Aggregated metrics\<close>

record program_aggregation_key =
  Key_Name :: string
  Key_ServiceName :: string
  Key_UniqueHash :: u64
  Key_SessionID :: u32

record final_disk_metrics =
  F_IOCount :: "i64 list"
  F_BytesRead :: i64
  F_BytesWritten :: i64

record registry_operation_key =
  Opcode :: u8
  Result :: nat

record aggregated_network_metrics =
  AN_BytesSent :: "u64 list"
  AN_BytesReceived :: "u64 list"
  AN_ConnectionsAttempted :: "u64 list"
  AN_ConnectionsAccepted :: "u64 list"
  AN_RetransmissionsTotal :: u64
  AN_ConnectionsFailed :: "(u32, u64) cmap"

record aggregated_program_metrics =
  Agg_Disk :: "(u32, final_disk_metrics) cmap option"
  Agg_Memory :: "u64 option"
  Agg_Network :: "aggregated_network_metrics option"
  Agg_Registry :: "(registry_operation_key, u64) cmap option"
  Agg_Threads :: "u64 option"

type_synonym aggregation = "(program_aggregation_key, aggregated_program_metrics) cmap"


section \<open>Diagnostics\<close>

record console_sample =
  Sample_Timestamp :: go_time
  Sample_ThreadsAdded :: u64
  Sample_ProcessesAdded :: u64
  Sample_ServicesEnriched :: u64

record diagnostics =
  threadsAdded :: u64
  processesAdded :: u64
  servicesEnriched :: u64
  newProcesses :: "(u32, string) cmap"
  ConsoleHistory :: "console_sample list"

definition RecordProcessAdded :: "u32 \<Rightarrow> string \<Rightarrow> diagnostics \<Rightarrow> diagnostics" where
  "RecordProcessAdded pid name d =
     d\<lparr>processesAdded := processesAdded d + 1, newProcesses := cm_store pid name (newProcesses d)\<rparr>"

definition RecordThreadAdded :: "diagnostics \<Rightarrow> diagnostics" where
  "RecordThreadAdded d = d\<lparr>threadsAdded := threadsAdded d + 1\<rparr>"

definition RecordServiceEnrichedAPI :: "diagnostics \<Rightarrow> diagnostics" where
  "RecordServiceEnrichedAPI d = d\<lparr>servicesEnriched := servicesEnriched d + 1\<rparr>"

text \<open>One report per interval: the counters are swapped to zero and the list of new
  processes is replaced; the log line is left out.\<close>

definition ReportTrackedProcToConsole :: "go_time \<Rightarrow> diagnostics \<Rightarrow> diagnostics" where
  "ReportTrackedProcToConsole now d =
     d\<lparr>threadsAdded := 0, processesAdded := 0, servicesEnriched := 0,
       ConsoleHistory := ConsoleHistory d @
         [\<lparr>Sample_Timestamp = now, Sample_ThreadsAdded = threadsAdded d,
           Sample_ProcessesAdded = processesAdded d, Sample_ServicesEnriched = servicesEnriched d\<rparr>],
       newProcesses := cm_empty\<rparr>"

text \<open>The pruner keeps the samples of the last hour.\<close>

definition prune_history :: "go_time \<Rightarrow> diagnostics \<Rightarrow> diagnostics" where
  "prune_history now d =
     (let cutoff = now - 3600 * second
      in d\<lparr>ConsoleHistory := filter (\<lambda>s. time_After (Sample_Timestamp s) cutoff) (ConsoleHistory d)\<rparr>)"


section \<open>The state manager\<close>

record ksm =
  heap :: "ref \<Rightarrow> process_data"
  next_ref :: ref
  Processes :: process_manager
  Threads :: thread_manager
  Images :: image_manager
  Services :: service_manager
  aggregatedData :: "aggregation option"
  scrapeCounter :: u64
  lastScrapeTime :: go_time
  scrapeDurations :: "duration list"
  lastScrapeIndex :: nat
  scrapeDurationsFull :: bool
  serviceListOnce :: bool
  Diag :: diagnostics

definition UnknownProcessStartKey :: u64 where "UnknownProcessStartKey = 1"
definition SystemProcessID :: u32 where "SystemProcessID = 4"
definition scrapeDurationSamples :: nat where "scrapeDurationSamples = 4"
definition minTerminationGracePeriod :: duration where
  "minTerminationGracePeriod = 30 * second"

definition deref :: "ksm \<Rightarrow> ptr \<Rightarrow> process_data option" where
  "deref s p = map_option (heap s) p"

definition upd_obj :: "ref \<Rightarrow> (process_data \<Rightarrow> process_data) \<Rightarrow> ksm \<Rightarrow> ksm" where
  "upd_obj r f s = s\<lparr>heap := (heap s)(r := f (heap s r))\<rparr>"

definition upd_info :: "ref \<Rightarrow> (process_info \<Rightarrow> process_info) \<Rightarrow> ksm \<Rightarrow> ksm" where
  "upd_info r f = upd_obj r (\<lambda>pd. pd\<lparr>Info := f (Info pd)\<rparr>)"

lemma deref_simps [simp]: "deref s None = None" "deref s (Some r) = Some (heap s r)"
  by (simp_all add: deref_def)

lemma upd_obj_frame [simp, frame_simps]:
  "next_ref (upd_obj r f s) = next_ref s"
  "Processes (upd_obj r f s) = Processes s"
  "Threads (upd_obj r f s) = Threads s"
  "Images (upd_obj r f s) = Images s"
  "Services (upd_obj r f s) = Services s"
  "aggregatedData (upd_obj r f s) = aggregatedData s"
  "scrapeCounter (upd_obj r f s) = scrapeCounter s"
  "serviceListOnce (upd_obj r f s) = serviceListOnce s"
  "Diag (upd_obj r f s) = Diag s"
  by (simp_all add: upd_obj_def)

lemma heap_upd_obj [simp]: "heap (upd_obj r f s) q = (if q = r then f (heap s r) else heap s q)"
  by (simp add: upd_obj_def)

lemma upd_info_frame [simp, frame_simps]:
  "next_ref (upd_info r f s) = next_ref s"
  "Processes (upd_info r f s) = Processes s"
  "Threads (upd_info r f s) = Threads s"
  "Images (upd_info r f s) = Images s"
  "Services (upd_info r f s) = Services s"
  "aggregatedData (upd_info r f s) = aggregatedData s"
  "scrapeCounter (upd_info r f s) = scrapeCounter s"
  "serviceListOnce (upd_info r f s) = serviceListOnce s"
  "Diag (upd_info r f s) = Diag s"
  by (simp_all add: upd_info_def)

lemma heap_upd_info [simp]:
  "heap (upd_info r f s) q =
   (if q = r then (heap s r)\<lparr>Info := f (Info (heap s r))\<rparr> else heap s q)"
  by (simp add: upd_info_def)

end
