(* ===== verification/Process_Manager.thy ===== *)
theory Process_Manager
  imports Kernel_State
begin

text \<open>
  \<open>s_process_manager.go\<close>: creation, termination and clean-up of \<open>ProcessData\<close> objects.

  \<open>proc_inv\<close> is the invariant of the manager: the instance map is keyed by the objects' own
  start keys, the pid map points to live instances only, marked processes are live, and the
  pool holds no object that any map still reaches. Each operation keeps it.
\<close>


section \<open>The object pool\<close>

text \<open>\<open>sync.Pool.Get\<close> returns any object of the pool, or a new one: the choice is an
  argument, and a choice outside the pool means \<open>New\<close>.\<close>

definition pool_Get :: "nat option \<Rightarrow> ksm \<Rightarrow> ref \<times> ksm" where
  "pool_Get choice s =
     (let pool = processDataPool (Processes s)
      in case choice of
           Some i \<Rightarrow>
             if i < length pool
             then (pool ! i, s\<lparr>Processes := (Processes s)\<lparr>processDataPool := take i pool @ drop (Suc i) pool\<rparr>\<rparr>)
             else (next_ref s, s\<lparr>next_ref := Suc (next_ref s), heap := (heap s)(next_ref s := newProcessData)\<rparr>)
         | None \<Rightarrow>
             (next_ref s, s\<lparr>next_ref := Suc (next_ref s), heap := (heap s)(next_ref s := newProcessData)\<rparr>))"


section \<open>Operations\<close>

text \<open>The manager starts with the singleton "unknown process", object 0.\<close>

definition unknown_process :: "go_time \<Rightarrow> process_data" where
  "unknown_process now =
     (let pd = pd_Reset newProcessData
      in pd\<lparr>Info := (Info pd)\<lparr>StartKey := UnknownProcessStartKey, PID := 2 ^ 32 - 1,
           Name := ''unknown_process'', LastSeen := now + 100 * 365 * 24 * 3600 * second\<rparr>\<rparr>)"

definition newProcessManager :: process_manager where
  "newProcessManager = \<lparr>instanceData = cm_store UnknownProcessStartKey 0 cm_empty,
     terminatedProcesses = cm_empty, processDataPool = [], pidToCurrentStartKey = cm_empty,
     pidToCurrentProcessData = cm_empty, processFilterEnabled = False, processNameFilters = [],
     PM_Enabled = False\<rparr>"

definition EnrichProcessWithImageData :: "u32 \<Rightarrow> u64 \<Rightarrow> string \<Rightarrow> ksm \<Rightarrow> ksm" where
  "EnrichProcessWithImageData pid checksum imageName s =
     (case cm_load pid (pidToCurrentStartKey (Processes s)) of
        None \<Rightarrow> s
      | Some startKey \<Rightarrow>
          (case cm_load startKey (instanceData (Processes s)) of
             None \<Rightarrow> s
           | Some r \<Rightarrow>
               upd_info r (\<lambda>i.
                 let i1 = (if UniqueHash i = 0 then i\<lparr>UniqueHash := checksum\<rparr> else i);
                     isNewNameFullPath = contains_char imageName (CHR 0x5C);
                     isOldNameFullPath = contains_char (Name i1) (CHR 0x5C)
                 in if isNewNameFullPath \<and> \<not> isOldNameFullPath then i1\<lparr>Name := imageName\<rparr> else i1) s))"

definition AddProcess ::
    "nat option \<Rightarrow> u32 \<Rightarrow> u64 \<Rightarrow> string \<Rightarrow> u32 \<Rightarrow> u32 \<Rightarrow> go_time \<Rightarrow> ksm \<Rightarrow> ksm" where
  "AddProcess choice pid startKey eventImageName parentPID sessionID eventTimestamp s =
     (case cm_load startKey (instanceData (Processes s)) of
        Some r \<Rightarrow> upd_info r (\<lambda>i. i\<lparr>LastSeen := eventTimestamp\<rparr>) s
      | None \<Rightarrow>
          (let sessionID' = (if sessionID = 0xFFFFFFFF \<or> pid = 4 then 0 else sessionID)
           in case pool_Get choice s of (r, s1) \<Rightarrow>
             let s2 = upd_obj r pd_Reset s1;
                 s3 = upd_info r (\<lambda>i. i\<lparr>PID := pid, StartKey := startKey, Name := eventImageName,
                        CreateTime := eventTimestamp, LastSeen := eventTimestamp,
                        ParentPID := parentPID, SessionID := sessionID'\<rparr>) s2;
                 pm = Processes s3
             in s3\<lparr>Processes := pm\<lparr>
                  instanceData := cm_store startKey r (instanceData pm),
                  pidToCurrentStartKey := cm_store pid startKey (pidToCurrentStartKey pm),
                  pidToCurrentProcessData := cm_store pid (Some r) (pidToCurrentProcessData pm)\<rparr>,
                  Diag := RecordProcessAdded pid eventImageName (Diag s3)\<rparr>))"

definition MarkProcessForDeletion :: "u32 \<Rightarrow> u64 \<Rightarrow> go_time \<Rightarrow> ksm \<Rightarrow> ksm" where
  "MarkProcessForDeletion pid startKey terminationTime s =
     (let currentScrape = scrapeCounter s
      in case cm_load startKey (instanceData (Processes s)) of
           None \<Rightarrow> s
         | Some r \<Rightarrow>
             let s1 = upd_info r (\<lambda>i. if time_IsZero (TerminationTime i)
                        then i\<lparr>TerminationTime := terminationTime\<rparr> else i) s
             in s1\<lparr>Processes := (Processes s1)\<lparr>terminatedProcesses :=
                  cm_store startKey currentScrape (terminatedProcesses (Processes s1))\<rparr>\<rparr>)"

text \<open>The loop body of \<open>cleanupProcesses\<close>. The first callback returns \<open>(currentSK, true)\<close> also
  when the key is absent, with the zero value for \<open>currentSK\<close>.\<close>

definition cleanup_process :: "u64 \<Rightarrow> ksm \<Rightarrow> ksm" where
  "cleanup_process startKey s =
     (let pm = Processes s
      in case cm_load_and_delete startKey (instanceData pm) of
           (None, _) \<Rightarrow> s
         | (Some r, inst) \<Rightarrow>
             let pid = PID (Info (heap s r))
             in s\<lparr>Processes := pm\<lparr>
                  instanceData := inst,
                  pidToCurrentStartKey := cm_update pid
                    (\<lambda>cur. case cur of
                       Some currentSK \<Rightarrow> if currentSK = startKey then None else Some currentSK
                     | None \<Rightarrow> Some 0) (pidToCurrentStartKey pm),
                  pidToCurrentProcessData := cm_update pid
                    (\<lambda>cur. case cur of
                       Some (Some q) \<Rightarrow>
                         if StartKey (Info (heap s q)) \<noteq> startKey then Some (Some q) else None
                     | _ \<Rightarrow> None) (pidToCurrentProcessData pm),
                  processDataPool := processDataPool pm @ [r]\<rparr>\<rparr>)"

definition cleanupProcesses :: "u64 list \<Rightarrow> ksm \<Rightarrow> nat \<times> ksm" where
  "cleanupProcesses procsToClean s =
     (if procsToClean = [] then (0, s)
      else (length procsToClean, fold cleanup_process procsToClean s))"

text \<open>\<open>regexp.Compile\<close> is the standard library's: \<open>compiles\<close> says which patterns are valid. A
  filter is kept as its pattern.\<close>

definition PM_ApplyConfig :: "(string \<Rightarrow> bool) \<Rightarrow> bool \<Rightarrow> bool \<Rightarrow> string list \<Rightarrow> ksm \<Rightarrow> ksm" where
  "PM_ApplyConfig compiles requiresProcessManager filterEnabled includeNames s =
     (let pm = (Processes s)\<lparr>PM_Enabled := requiresProcessManager, processFilterEnabled := filterEnabled\<rparr>
      in s\<lparr>Processes := (if \<not> filterEnabled then pm
           else pm\<lparr>processNameFilters := filter compiles includeNames\<rparr>)\<rparr>)"


section \<open>Getters\<close>

definition GetCurrentProcessDataByPID :: "u32 \<Rightarrow> ksm \<Rightarrow> ptr option" where
  "GetCurrentProcessDataByPID pid s = cm_load pid (pidToCurrentProcessData (Processes s))"

definition GetProcessDataBySK :: "u64 \<Rightarrow> ksm \<Rightarrow> ref option" where
  "GetProcessDataBySK startKey s = cm_load startKey (instanceData (Processes s))"

definition GetProcessCurrentStartKey :: "u32 \<Rightarrow> ksm \<Rightarrow> u64 option" where
  "GetProcessCurrentStartKey pid s = cm_load pid (pidToCurrentStartKey (Processes s))"

definition GetProcessCount :: "ksm \<Rightarrow> nat" where
  "GetProcessCount s = cm_count (instanceData (Processes s))"

definition GetTerminatedProcessCount :: "ksm \<Rightarrow> nat" where
  "GetTerminatedProcessCount s = cm_count (terminatedProcesses (Processes s))"

definition GetProcessNameBySK :: "u64 \<Rightarrow> ksm \<Rightarrow> string \<times> bool" where
  "GetProcessNameBySK startKey s =
     (case GetProcessDataBySK startKey s of
        Some r \<Rightarrow> (Name (Info (heap s r)), True)
      | None \<Rightarrow> (''unknown_sk_'' @ FormatUint10 (unat startKey), False))"

definition GetProcessInfoBySK :: "u64 \<Rightarrow> ksm \<Rightarrow> process_info \<times> bool" where
  "GetProcessInfoBySK startKey s =
     (case GetProcessDataBySK startKey s of
        Some r \<Rightarrow> (info_Clone (Info (heap s r)), True)
      | None \<Rightarrow> (zeroProcessInfo, False))"

definition GetKnownProcessNameBySK :: "u64 \<Rightarrow> ksm \<Rightarrow> string \<times> bool" where
  "GetKnownProcessNameBySK startKey s =
     (case GetProcessDataBySK startKey s of
        Some r \<Rightarrow> (Name (Info (heap s r)), True)
      | None \<Rightarrow> ('''', False))"

definition IsTrackedStartKey :: "u64 \<Rightarrow> ksm \<Rightarrow> bool" where
  "IsTrackedStartKey startKey s \<longleftrightarrow> GetProcessDataBySK startKey s \<noteq> None"

definition IsKnownProcessID :: "u32 \<Rightarrow> ksm \<Rightarrow> bool" where
  "IsKnownProcessID pid s =
     (case GetProcessCurrentStartKey pid s of None \<Rightarrow> False | Some sk \<Rightarrow> IsTrackedStartKey sk s)"

definition GetProcessNameByID :: "u32 \<Rightarrow> ksm \<Rightarrow> string \<times> bool" where
  "GetProcessNameByID pid s =
     (case GetProcessCurrentStartKey pid s of
        Some sk \<Rightarrow> GetProcessNameBySK sk s
      | None \<Rightarrow> (''unknown_pid_'' @ FormatUint10 (unat pid), False))"

definition GetKnownProcessNameByID :: "u32 \<Rightarrow> ksm \<Rightarrow> string \<times> bool" where
  "GetKnownProcessNameByID pid s =
     (case GetProcessCurrentStartKey pid s of
        None \<Rightarrow> ('''', False)
      | Some sk \<Rightarrow> GetKnownProcessNameBySK sk s)"

definition RangeProcesses :: "('a \<Rightarrow> ref \<Rightarrow> 'a \<times> bool) \<Rightarrow> ksm \<Rightarrow> 'a \<Rightarrow> 'a" where
  "RangeProcesses f s a = cm_range (\<lambda>a _ r. f a r) (instanceData (Processes s)) a"


section \<open>The invariant\<close>

text \<open>An object is live when the instance map holds it under its own start key.\<close>

definition start_key :: "ksm \<Rightarrow> ref \<Rightarrow> u64" where
  "start_key s r = StartKey (Info (heap s r))"

definition ref_live :: "ksm \<Rightarrow> ref \<Rightarrow> bool" where
  "ref_live s r \<longleftrightarrow> cm_load (start_key s r) (instanceData (Processes s)) = Some r"

definition maps_wf :: "process_manager \<Rightarrow> bool" where
  "maps_wf pm \<longleftrightarrow> cm_invar (instanceData pm) \<and> cm_invar (terminatedProcesses pm)
     \<and> cm_invar (pidToCurrentStartKey pm) \<and> cm_invar (pidToCurrentProcessData pm)"

definition instances_ok :: "ksm \<Rightarrow> bool" where
  "instances_ok s \<longleftrightarrow> (\<forall>sk r. cm_load sk (instanceData (Processes s)) = Some r \<longrightarrow>
     start_key s r = sk \<and> r < next_ref s \<and> r \<notin> set (processDataPool (Processes s)))"

definition pool_ok :: "ksm \<Rightarrow> bool" where
  "pool_ok s \<longleftrightarrow> distinct (processDataPool (Processes s))
     \<and> (\<forall>r \<in> set (processDataPool (Processes s)). r < next_ref s)
     \<and> (\<forall>r. wf_process_data (heap s r))"

definition pids_ok :: "ksm \<Rightarrow> bool" where
  "pids_ok s \<longleftrightarrow> (\<forall>pid p. cm_load pid (pidToCurrentProcessData (Processes s)) = Some p \<longrightarrow>
     (\<exists>r. p = Some r \<and> ref_live s r \<and> PID (Info (heap s r)) = pid
        \<and> cm_load pid (pidToCurrentStartKey (Processes s)) = Some (start_key s r)))"

definition marked_ok :: "ksm \<Rightarrow> bool" where
  "marked_ok s \<longleftrightarrow> (\<forall>sk. cm_load sk (terminatedProcesses (Processes s)) \<noteq> None \<longrightarrow>
     cm_load sk (instanceData (Processes s)) \<noteq> None)"

definition proc_inv_core :: "ksm \<Rightarrow> bool" where
  "proc_inv_core s \<longleftrightarrow> maps_wf (Processes s) \<and> instances_ok s \<and> pool_ok s \<and> pids_ok s"

definition proc_inv :: "ksm \<Rightarrow> bool" where
  "proc_inv s \<longleftrightarrow> proc_inv_core s \<and> marked_ok s"

lemmas proc_parts = proc_inv_def proc_inv_core_def maps_wf_def instances_ok_def pool_ok_def pids_ok_def
  marked_ok_def

lemma instances_okD:
  "instances_ok s \<Longrightarrow> cm_load sk (instanceData (Processes s)) = Some r \<Longrightarrow>
   start_key s r = sk \<and> r < next_ref s \<and> r \<notin> set (processDataPool (Processes s)) \<and> ref_live s r"
  by (auto simp: instances_ok_def ref_live_def)

lemma pids_okD:
  "pids_ok s \<Longrightarrow> cm_load pid (pidToCurrentProcessData (Processes s)) = Some p \<Longrightarrow>
   \<exists>r. p = Some r \<and> ref_live s r \<and> PID (Info (heap s r)) = pid
     \<and> cm_load pid (pidToCurrentStartKey (Processes s)) = Some (start_key s r)"
  by (auto simp: pids_ok_def)

text \<open>An update of an object that keeps its identity (start key and pid) keeps the invariant.\<close>

definition keeps_identity :: "(process_data \<Rightarrow> process_data) \<Rightarrow> bool" where
  "keeps_identity f \<longleftrightarrow> (\<forall>pd. StartKey (Info (f pd)) = StartKey (Info pd) \<and> PID (Info (f pd)) = PID (Info pd)
     \<and> (wf_process_data pd \<longrightarrow> wf_process_data (f pd)))"

lemma keeps_identity_Info [intro]:
  "(\<And>i. StartKey (f i) = StartKey i) \<Longrightarrow> (\<And>i. PID (f i) = PID i) \<Longrightarrow>
   keeps_identity (\<lambda>pd. pd\<lparr>Info := f (Info pd)\<rparr>)"
  by (simp add: keeps_identity_def)

lemma upd_obj_identity:
  assumes "keeps_identity f"
  shows "start_key (upd_obj r f s) q = start_key s q"
    and "PID (Info (heap (upd_obj r f s) q)) = PID (Info (heap s q))"
    and "ref_live (upd_obj r f s) q = ref_live s q"
  using assms by (auto simp: start_key_def ref_live_def keeps_identity_def)

lemma upd_obj_proc_inv [inv_intros]:
  assumes "keeps_identity f"
  shows "proc_inv_core s \<Longrightarrow> proc_inv_core (upd_obj r f s)"
    and "proc_inv s \<Longrightarrow> proc_inv (upd_obj r f s)"
  using assms
  by (simp_all add: proc_parts upd_obj_identity [OF assms] del: heap_upd_obj)
    (auto simp: keeps_identity_def)

lemma upd_info_identity:
  assumes "\<And>i. StartKey (f i) = StartKey i" and "\<And>i. PID (f i) = PID i"
  shows "start_key (upd_info r f s) q = start_key s q"
    and "PID (Info (heap (upd_info r f s) q)) = PID (Info (heap s q))"
    and "ref_live (upd_info r f s) q = ref_live s q"
    and "proc_inv s \<Longrightarrow> proc_inv (upd_info r f s)"
  unfolding upd_info_def using assms
  by (simp_all add: upd_obj_identity upd_obj_proc_inv keeps_identity_Info)


section \<open>Operations keep the invariant\<close>

lemma set_take_drop: "i < length xs \<Longrightarrow> distinct xs \<Longrightarrow>
   distinct (take i xs @ drop (Suc i) xs) \<and> set (take i xs @ drop (Suc i) xs) = set xs - {xs ! i}"
proof -
  assume i: "i < length xs" and d: "distinct xs"
  have "xs = take i xs @ xs ! i # drop (Suc i) xs"
    using i by (simp add: id_take_nth_drop)
  then have "distinct (take i xs @ xs ! i # drop (Suc i) xs)"
    and "set xs = set (take i xs @ xs ! i # drop (Suc i) xs)"
    using d by simp_all
  then show ?thesis by auto
qed

definition pm_fixed :: "ksm \<Rightarrow> ksm \<Rightarrow> bool" where
  "pm_fixed s t \<longleftrightarrow> (\<exists>pool. Processes t = (Processes s)\<lparr>processDataPool := pool\<rparr>)
     \<and> Threads t = Threads s \<and> Images t = Images s \<and> Services t = Services s
     \<and> scrapeCounter t = scrapeCounter s \<and> Diag t = Diag s \<and> aggregatedData t = aggregatedData s"

lemma pool_Get_spec:
  assumes "pool_ok s" and "pool_Get choice s = (r, t)"
  shows "pm_fixed s t" and "pool_ok t" and "r \<notin> set (processDataPool (Processes t))"
    and "set (processDataPool (Processes t)) \<subseteq> set (processDataPool (Processes s))"
    and "r \<in> set (processDataPool (Processes s)) \<or> r = next_ref s"
    and "next_ref s \<le> next_ref t \<and> r < next_ref t"
    and "q \<noteq> r \<Longrightarrow> heap t q = heap s q"
proof -
  show "pm_fixed s t"
    using assms(2)
    by (auto simp: pool_Get_def Let_def pm_fixed_def split: option.splits if_splits)
      (metis process_manager.surjective process_manager.update_convs(3))+
  show "pool_ok t" and "r \<notin> set (processDataPool (Processes t))"
    and "set (processDataPool (Processes t)) \<subseteq> set (processDataPool (Processes s))"
    and "r \<in> set (processDataPool (Processes s)) \<or> r = next_ref s"
    and "next_ref s \<le> next_ref t \<and> r < next_ref t"
    and "q \<noteq> r \<Longrightarrow> heap t q = heap s q"
    using assms set_take_drop [of _ "processDataPool (Processes s)"]
    by (auto simp: pool_Get_def Let_def pool_ok_def less_Suc_eq split: option.splits if_splits
        simp del: set_append)
qed

lemma pm_fixedD:
  assumes "pm_fixed s t"
  shows "instanceData (Processes t) = instanceData (Processes s)"
    "terminatedProcesses (Processes t) = terminatedProcesses (Processes s)"
    "pidToCurrentStartKey (Processes t) = pidToCurrentStartKey (Processes s)"
    "pidToCurrentProcessData (Processes t) = pidToCurrentProcessData (Processes s)"
    "Threads t = Threads s" "Images t = Images s" "Services t = Services s"
    "scrapeCounter t = scrapeCounter s"
  using assms by (auto simp: pm_fixed_def)

text \<open>The object a new process starts with.\<close>

definition fresh_process :: "u32 \<Rightarrow> u64 \<Rightarrow> string \<Rightarrow> u32 \<Rightarrow> u32 \<Rightarrow> go_time \<Rightarrow> process_data" where
  "fresh_process pid sk name parent session now =
     newProcessData\<lparr>Info := (Info newProcessData)\<lparr>PID := pid, StartKey := sk, Name := name,
        CreateTime := now, LastSeen := now, ParentPID := parent,
        SessionID := (if session = 0xFFFFFFFF \<or> pid = 4 then 0 else session)\<rparr>\<rparr>"

lemma fresh_process_simps [simp]:
  "PID (Info (fresh_process pid sk name parent session now)) = pid"
  "StartKey (Info (fresh_process pid sk name parent session now)) = sk"
  "wf_process_data (fresh_process pid sk name parent session now)"
  by (simp_all add: fresh_process_def)

lemma AddProcess_known:
  "cm_load sk (instanceData (Processes s)) = Some r \<Longrightarrow>
   AddProcess choice pid sk name parent session now s = upd_info r (\<lambda>i. i\<lparr>LastSeen := now\<rparr>) s"
  by (simp add: AddProcess_def)

text \<open>What the creation path does: \<open>r\<close> is an object no map reaches.\<close>

definition creates :: "ref \<Rightarrow> u32 \<Rightarrow> u64 \<Rightarrow> process_data \<Rightarrow> ksm \<Rightarrow> ksm \<Rightarrow> bool" where
  "creates r pid sk pd s t \<longleftrightarrow>
     instanceData (Processes t) = cm_store sk r (instanceData (Processes s))
   \<and> pidToCurrentStartKey (Processes t) = cm_store pid sk (pidToCurrentStartKey (Processes s))
   \<and> pidToCurrentProcessData (Processes t) = cm_store pid (Some r) (pidToCurrentProcessData (Processes s))
   \<and> terminatedProcesses (Processes t) = terminatedProcesses (Processes s)
   \<and> (\<forall>q. heap t q = (if q = r then pd else heap s q))
   \<and> pool_ok t \<and> r \<notin> set (processDataPool (Processes t))
   \<and> set (processDataPool (Processes t)) \<subseteq> set (processDataPool (Processes s))
   \<and> (r \<in> set (processDataPool (Processes s)) \<or> r = next_ref s)
   \<and> next_ref s \<le> next_ref t \<and> r < next_ref t
   \<and> Threads t = Threads s \<and> Images t = Images s"

lemma createsD:
  assumes "creates r pid sk pd s t"
  shows "instanceData (Processes t) = cm_store sk r (instanceData (Processes s))"
    and "pidToCurrentStartKey (Processes t) = cm_store pid sk (pidToCurrentStartKey (Processes s))"
    and "pidToCurrentProcessData (Processes t) = cm_store pid (Some r) (pidToCurrentProcessData (Processes s))"
    and "terminatedProcesses (Processes t) = terminatedProcesses (Processes s)"
    and "heap t q = (if q = r then pd else heap s q)"
    and "pool_ok t" and "r \<notin> set (processDataPool (Processes t))"
    and "set (processDataPool (Processes t)) \<subseteq> set (processDataPool (Processes s))"
    and "r \<in> set (processDataPool (Processes s)) \<or> r = next_ref s"
    and "next_ref s \<le> next_ref t \<and> r < next_ref t"
    and "Threads t = Threads s" and "Images t = Images s"
  using assms by (simp_all add: creates_def)

lemma AddProcess_new:
  assumes "pool_ok s" and "cm_load sk (instanceData (Processes s)) = None"
  shows "\<exists>r. creates r pid sk (fresh_process pid sk name parent session now) s
           (AddProcess choice pid sk name parent session now s)"
proof -
  obtain r s1 where g: "pool_Get choice s = (r, s1)" by (cases "pool_Get choice s")
  note G = pool_Get_spec [OF assms(1) g]
  let ?t = "AddProcess choice pid sk name parent session now s"
  have wf: "pd_Reset (heap s1 r) = newProcessData"
    using G(2) by (intro wf_Reset_new) (simp add: pool_ok_def)
  have t: "?t = (let s3 = upd_info r (\<lambda>i. i\<lparr>PID := pid, StartKey := sk, Name := name,
                        CreateTime := now, LastSeen := now, ParentPID := parent,
                        SessionID := (if session = 0xFFFFFFFF \<or> pid = 4 then 0 else session)\<rparr>)
                      (upd_obj r pd_Reset s1); pm = Processes s1
      in s3\<lparr>Processes := pm\<lparr>instanceData := cm_store sk r (instanceData pm),
                  pidToCurrentStartKey := cm_store pid sk (pidToCurrentStartKey pm),
                  pidToCurrentProcessData := cm_store pid (Some r) (pidToCurrentProcessData pm)\<rparr>,
                  Diag := RecordProcessAdded pid name (Diag s3)\<rparr>)"
    using assms(2) g by (simp add: AddProcess_def Let_def)
  have h: "heap ?t q = (if q = r then fresh_process pid sk name parent session now else heap s q)" for q
    using G(7) [of q] by (simp add: t Let_def wf fresh_process_def)
  have "pool_ok ?t"
    using G(2) h assms(1) by (simp add: pool_ok_def) (simp add: t Let_def)
  then have "creates r pid sk (fresh_process pid sk name parent session now) s ?t"
    unfolding creates_def using G(3-6) h by (simp add: t Let_def pm_fixedD [OF G(1)])
  then show ?thesis by blast
qed

lemma AddProcess_inv [inv_intros]:
  assumes "proc_inv s"
  shows "proc_inv (AddProcess choice pid sk name parent session now s)"
proof (cases "cm_load sk (instanceData (Processes s))")
  case (Some r)
  then show ?thesis using assms by (simp add: AddProcess_known upd_info_identity(4))
next
  case None
  let ?t = "AddProcess choice pid sk name parent session now s"
  have ok: "pool_ok s" "instances_ok s" "pids_ok s" "maps_wf (Processes s)" "marked_ok s"
    using assms by (simp_all add: proc_inv_def proc_inv_core_def)
  obtain r where "creates r pid sk (fresh_process pid sk name parent session now) s ?t"
    using AddProcess_new [OF ok(1) None] by blast
  note R = createsD [OF this]
  have fresh: "cm_load k (instanceData (Processes s)) \<noteq> Some r" for k
    using instances_okD [OF ok(2), of k r] R(9) by auto
  have "instances_ok ?t"
    unfolding instances_ok_def start_key_def R(1) R(5)
    using instances_okD [OF ok(2)] R(7,8,10) fresh
    by (auto simp: start_key_def dest!: less_le_trans [of _ "next_ref s" "next_ref ?t"])
  moreover have "pids_ok ?t"
    unfolding pids_ok_def ref_live_def start_key_def R(1-3) R(5)
    using ok(3) fresh None by (fastforce simp: pids_ok_def ref_live_def start_key_def)
  moreover have "marked_ok ?t" "maps_wf (Processes ?t)"
    using ok(4,5) by (simp_all add: marked_ok_def maps_wf_def R(1-4))
  ultimately show ?thesis using R(6) by (simp add: proc_inv_def proc_inv_core_def)
qed

lemma AddProcess_live:
  assumes "proc_inv s" and "ref_live s q"
  shows "ref_live (AddProcess choice pid sk name parent session now s) q"
    and "start_key (AddProcess choice pid sk name parent session now s) q = start_key s q"
proof -
  let ?t = "AddProcess choice pid sk name parent session now s"
  have "ref_live ?t q \<and> start_key ?t q = start_key s q"
  proof (cases "cm_load sk (instanceData (Processes s))")
    case (Some r)
    then show ?thesis using assms(2) by (simp add: AddProcess_known upd_info_identity)
  next
    case None
    have ok: "pool_ok s" "instances_ok s"
      using assms by (simp_all add: proc_inv_def proc_inv_core_def)
    obtain r where "creates r pid sk (fresh_process pid sk name parent session now) s ?t"
      using AddProcess_new [OF ok(1) None] by blast
    note R = createsD [OF this]
    have "q \<noteq> r" "start_key s q \<noteq> sk"
      using assms(2) instances_okD [OF ok(2), of "start_key s q" q] R(9) None by (auto simp: ref_live_def)
    then show ?thesis using assms(2) by (simp add: ref_live_def start_key_def R(1) R(5))
  qed
  then show "ref_live ?t q" and "start_key ?t q = start_key s q" by simp_all
qed

lemma MarkProcessForDeletion_inv [inv_intros]:
  "proc_inv s \<Longrightarrow> proc_inv (MarkProcessForDeletion pid sk time s)"
proof (cases "cm_load sk (instanceData (Processes s))")
  case (Some r)
  assume "proc_inv s"
  then have "proc_inv (upd_info r (\<lambda>i. if time_IsZero (TerminationTime i)
                        then i\<lparr>TerminationTime := time\<rparr> else i) s)" (is "proc_inv ?s1")
    by (rule upd_info_identity(4) [rotated 2]) auto
  then show ?thesis using Some
    by (auto simp: MarkProcessForDeletion_def Let_def proc_parts ref_live_def start_key_def)
qed (simp add: MarkProcessForDeletion_def)

lemma MarkProcessForDeletion_frame [simp]:
  "instanceData (Processes (MarkProcessForDeletion pid sk time s)) = instanceData (Processes s)"
  "Threads (MarkProcessForDeletion pid sk time s) = Threads s"
  "Images (MarkProcessForDeletion pid sk time s) = Images s"
  "start_key (MarkProcessForDeletion pid sk time s) q = start_key s q"
  "ref_live (MarkProcessForDeletion pid sk time s) q = ref_live s q"
  by (auto simp: MarkProcessForDeletion_def Let_def start_key_def ref_live_def split: option.splits)

lemma EnrichProcessWithImageData_inv [inv_intros]:
  "proc_inv s \<Longrightarrow> proc_inv (EnrichProcessWithImageData pid checksum name s)"
  by (auto simp: EnrichProcessWithImageData_def Let_def split: option.split intro!: upd_info_identity(4))

lemma EnrichProcessWithImageData_frame [simp]:
  "instanceData (Processes (EnrichProcessWithImageData pid checksum name s)) = instanceData (Processes s)"
  "Threads (EnrichProcessWithImageData pid checksum name s) = Threads s"
  "Images (EnrichProcessWithImageData pid checksum name s) = Images s"
  "start_key (EnrichProcessWithImageData pid checksum name s) q = start_key s q"
  "ref_live (EnrichProcessWithImageData pid checksum name s) q = ref_live s q"
  by (auto simp: EnrichProcessWithImageData_def Let_def start_key_def ref_live_def split: option.splits)

text \<open>Clean-up of one start key.\<close>

lemma cm_load_and_delete_eq:
  "cm_load_and_delete k m = (cm_load k m, cm_delete k m)"
proof (cases "cm_load k m")
  case None
  then have "cm_delete k m = m" by (simp add: cm_load_def cm_delete_def map_of_eq_None_iff)
  then show ?thesis using None by (simp add: cm_load_and_delete_def)
qed (simp add: cm_load_and_delete_def)

lemma cleanup_process_frame [simp]:
  "terminatedProcesses (Processes (cleanup_process sk s)) = terminatedProcesses (Processes s)"
  "heap (cleanup_process sk s) = heap s" "next_ref (cleanup_process sk s) = next_ref s"
  "Threads (cleanup_process sk s) = Threads s" "Images (cleanup_process sk s) = Images s"
  "start_key (cleanup_process sk s) q = start_key s q"
  by (simp_all add: cleanup_process_def Let_def cm_load_and_delete_eq start_key_def split: option.split)

lemma cleanup_process_load [simp]:
  "cm_load k (instanceData (Processes (cleanup_process sk s))) =
   (if k = sk then None else cm_load k (instanceData (Processes s)))"
  by (simp add: cleanup_process_def Let_def cm_load_and_delete_eq split: option.split)

lemma cleanup_process_live: "ref_live (cleanup_process sk s) q \<longleftrightarrow> ref_live s q \<and> start_key s q \<noteq> sk"
  by (auto simp: ref_live_def)

lemma cleanup_process_core [inv_intros]:
  assumes "proc_inv_core s"
  shows "proc_inv_core (cleanup_process sk s)"
proof (cases "cm_load sk (instanceData (Processes s))")
  case None
  then show ?thesis using assms by (simp add: cleanup_process_def cm_load_and_delete_eq)
next
  case (Some r)
  let ?t = "cleanup_process sk s" and ?pid = "PID (Info (heap s r))"
  have ok: "pool_ok s" "instances_ok s" "pids_ok s" "maps_wf (Processes s)"
    using assms by (simp_all add: proc_inv_core_def)
  note r = instances_okD [OF ok(2) Some]
  have pool: "processDataPool (Processes ?t) = processDataPool (Processes s) @ [r]"
    using Some by (simp add: cleanup_process_def cm_load_and_delete_eq Let_def)
  have sks: "cm_load pid (pidToCurrentStartKey (Processes ?t)) = Some k" 
    if "cm_load pid (pidToCurrentStartKey (Processes s)) = Some k" "k \<noteq> sk" for pid k
    using Some that by (auto simp: cleanup_process_def cm_load_and_delete_eq Let_def)
  have pds: "cm_load pid (pidToCurrentProcessData (Processes s)) = Some p \<and>
      (\<forall>q. pid = ?pid \<longrightarrow> p = Some q \<longrightarrow> start_key s q \<noteq> sk) \<and> (pid = ?pid \<longrightarrow> p \<noteq> None)"
    if "cm_load pid (pidToCurrentProcessData (Processes ?t)) = Some p" for pid p
    using Some that
    by (auto simp: cleanup_process_def cm_load_and_delete_eq Let_def start_key_def
        split: if_splits option.splits)
  have "instances_ok ?t"
    using ok(2) r instances_okD [OF ok(2)] by (auto simp: instances_ok_def pool)
  moreover have "pool_ok ?t"
    using ok(1) r by (simp add: pool_ok_def pool)
  moreover have "maps_wf (Processes ?t)"
    using ok(4) Some by (simp add: maps_wf_def cleanup_process_def cm_load_and_delete_eq Let_def)
  moreover have "pids_ok ?t"
    unfolding pids_ok_def
  proof (intro allI impI)
    fix pid p assume "cm_load pid (pidToCurrentProcessData (Processes ?t)) = Some p"
    note p = pds [OF this]
    then obtain q where q: "p = Some q" "ref_live s q" "PID (Info (heap s q)) = pid"
      "cm_load pid (pidToCurrentStartKey (Processes s)) = Some (start_key s q)"
      using pids_okD [OF ok(3)] by blast
    have "start_key s q \<noteq> sk"
    proof
      assume e: "start_key s q = sk"
      then have "q = r" using q(2) Some by (simp add: ref_live_def)
      then show False using p q e by auto
    qed
    then show "\<exists>r. p = Some r \<and> ref_live ?t r \<and> PID (Info (heap ?t r)) = pid
       \<and> cm_load pid (pidToCurrentStartKey (Processes ?t)) = Some (start_key ?t r)"
      using q sks by (simp add: cleanup_process_live)
  qed
  ultimately show ?thesis by (simp add: proc_inv_core_def)
qed

lemma cleanup_process_inv [inv_intros]:
  "proc_inv s \<Longrightarrow> cm_load sk (terminatedProcesses (Processes s)) = None \<Longrightarrow> proc_inv (cleanup_process sk s)"
  using cleanup_process_core [of s sk] by (auto simp: proc_inv_def marked_ok_def)

text \<open>Clean-up of a set of start keys.\<close>

lemma fold_cleanup_frame [simp]:
  "terminatedProcesses (Processes (fold cleanup_process sks s)) = terminatedProcesses (Processes s)"
  "heap (fold cleanup_process sks s) = heap s" "next_ref (fold cleanup_process sks s) = next_ref s"
  "Threads (fold cleanup_process sks s) = Threads s" "Images (fold cleanup_process sks s) = Images s"
  "start_key (fold cleanup_process sks s) q = start_key s q"
  by (induction sks arbitrary: s) simp_all

lemma fold_cleanup_load:
  "cm_load k (instanceData (Processes (fold cleanup_process sks s))) =
   (if k \<in> set sks then None else cm_load k (instanceData (Processes s)))"
  by (induction sks arbitrary: s) auto

lemma fold_cleanup_live:
  "ref_live (fold cleanup_process sks s) q \<longleftrightarrow> ref_live s q \<and> start_key s q \<notin> set sks"
  by (auto simp: ref_live_def fold_cleanup_load)

lemma fold_cleanup_inv:
  "proc_inv s \<Longrightarrow> (\<And>sk. sk \<in> set sks \<Longrightarrow> cm_load sk (terminatedProcesses (Processes s)) = None) \<Longrightarrow>
   proc_inv (fold cleanup_process sks s)"
  by (induction sks arbitrary: s) (simp_all add: cleanup_process_inv)

lemma cleanupProcesses_eq: "cleanupProcesses sks s = (length sks, fold cleanup_process sks s)"
  by (simp add: cleanupProcesses_def)

end
