(* ===== verification/Service_Manager.thy ===== *)
theory Service_Manager
  imports Process_Manager
begin

text \<open>
  \<open>s_service_manager.go\<close>: the map from SubProcessTags to service names and the one-time
  attribution of a service name to a process. The log lines are left out.
\<close>

definition newServiceManager :: service_manager where
  "newServiceManager = \<lparr>serviceTags = cm_empty\<rparr>"

definition RegisterServiceTag :: "u32 \<Rightarrow> string \<Rightarrow> ksm \<Rightarrow> ksm" where
  "RegisterServiceTag tag name s =
     (if tag > 0 \<and> name \<noteq> ''''
      then s\<lparr>Services := (Services s)\<lparr>serviceTags := cm_store tag name (serviceTags (Services s))\<rparr>\<rparr>
      else s)"

text \<open>On the object's info, with the outcome of the tag lookup as an argument.\<close>

definition apply_service_tag :: "u32 \<Rightarrow> (u32, string) cmap \<Rightarrow> process_info \<Rightarrow> process_info" where
  "apply_service_tag tag tags i =
     (if tag = 0 then i
      else if Name i = ''System'' \<or> Name i = ''MemCompression'' then i
      else if ServiceName i \<noteq> '''' then i
      else
        let i1 = (if SubProcessTag i = 0 then i\<lparr>SubProcessTag := tag\<rparr>
                  else if SubProcessTag i \<noteq> tag then i\<lparr>SubProcessTag := tag\<rparr> else i)
        in case cm_load tag tags of
             None \<Rightarrow> i1
           | Some serviceName \<Rightarrow>
               if ServiceName i1 = '''' then i1\<lparr>ServiceName := serviceName\<rparr> else i1)"

definition resolveAndApplyServiceName :: "ref \<Rightarrow> u32 \<Rightarrow> ksm \<Rightarrow> ksm" where
  "resolveAndApplyServiceName pData subProcessTag s =
     upd_info pData (apply_service_tag subProcessTag (serviceTags (Services s))) s"

definition GetTagForService :: "string \<Rightarrow> ksm \<Rightarrow> u32 \<times> bool" where
  "GetTagForService name s =
     cm_range (\<lambda>found tag serviceName. if serviceName = name then ((tag, True), False) else (found, True))
       (serviceTags (Services s)) (0, False)"

definition GetServiceCount :: "ksm \<Rightarrow> nat" where
  "GetServiceCount s = cm_count (serviceTags (Services s))"

definition RangeServices :: "('a \<Rightarrow> u32 \<Rightarrow> string \<Rightarrow> 'a) \<Rightarrow> ksm \<Rightarrow> 'a \<Rightarrow> 'a" where
  "RangeServices f s a = cm_range (\<lambda>a tag name. (f a tag name, True)) (serviceTags (Services s)) a"

text \<open>Registered tags are positive and their names are not empty.\<close>

definition service_inv :: "ksm \<Rightarrow> bool" where
  "service_inv s \<longleftrightarrow> cm_invar (serviceTags (Services s)) \<and>
     (\<forall>tag name. cm_load tag (serviceTags (Services s)) = Some name \<longrightarrow> tag > 0 \<and> name \<noteq> '''')"

lemma RegisterServiceTag_inv [inv_intros]: "service_inv s \<Longrightarrow> service_inv (RegisterServiceTag tag name s)"
  by (auto simp: service_inv_def RegisterServiceTag_def)

lemma apply_service_tag_identity [simp]:
  "StartKey (apply_service_tag tag tags i) = StartKey i"
  "PID (apply_service_tag tag tags i) = PID i"
  "Name (apply_service_tag tag tags i) = Name i"
  "CreateTime (apply_service_tag tag tags i) = CreateTime i"
  by (simp_all add: apply_service_tag_def Let_def split: option.split)

lemma resolveAndApply_inv [inv_intros]: "proc_inv s \<Longrightarrow> proc_inv (resolveAndApplyServiceName r tag s)"
  by (simp add: resolveAndApplyServiceName_def upd_info_identity(4))

lemma resolveAndApply_frame [simp]:
  "Processes (resolveAndApplyServiceName r tag s) = Processes s"
  "Threads (resolveAndApplyServiceName r tag s) = Threads s"
  "Images (resolveAndApplyServiceName r tag s) = Images s"
  "Services (resolveAndApplyServiceName r tag s) = Services s"
  "start_key (resolveAndApplyServiceName r tag s) q = start_key s q"
  "ref_live (resolveAndApplyServiceName r tag s) q = ref_live s q"
  by (simp_all add: resolveAndApplyServiceName_def upd_info_identity(1,3))

text \<open>The name is set at most once, and a tag that repeats changes nothing more.\<close>

lemma apply_service_tag_sticky:
  "ServiceName i \<noteq> '''' \<Longrightarrow> apply_service_tag tag tags i = i"
  by (simp add: apply_service_tag_def)

lemma apply_service_tag_idem:
  "apply_service_tag tag tags (apply_service_tag tag tags i) = apply_service_tag tag tags i"
  by (auto simp: apply_service_tag_def Let_def split: option.split)

lemma find_loop:
  "range_loop (\<lambda>found tag n. if n = name then ((tag, True), False) else (found, True)) xs d =
   (case find (\<lambda>(tag, n). n = name) xs of Some (tag, _) \<Rightarrow> (tag, True) | None \<Rightarrow> d)"
  by (induction xs) (auto split: option.split)

lemma GetTagForService_sound:
  assumes "cm_invar (serviceTags (Services s))" and "GetTagForService name s = (tag, True)"
  shows "cm_load tag (serviceTags (Services s)) = Some name"
  using assms
  by (auto simp: GetTagForService_def cm_range_def cm_entries_def find_loop find_Some_iff
      simp flip: cm_entries_load split: option.splits dest: nth_mem)

lemma GetTagForService_complete:
  assumes "cm_load tag (serviceTags (Services s)) = Some name"
  shows "snd (GetTagForService name s)"
  using cm_load_Some_entry [OF assms]
  by (auto simp: GetTagForService_def cm_range_def cm_entries_def find_loop find_None_iff split: option.split)


section \<open>Properties\<close>

text \<open>C34. A registered service reaches its process: after a tag is registered under a name, the next
  thread with that tag names its process (unless the process already has a name or is one
  of the two kernel pseudo-processes), a repeated thread changes nothing, and the reverse
  lookup finds a tag that is registered under the name.\<close>

theorem registered_service_applies:
  assumes "service_inv s" and "tag \<noteq> 0" and "name \<noteq> ''''"
    and "ServiceName (Info (heap s r)) = ''''" and "Name (Info (heap s r)) \<notin> {''System'', ''MemCompression''}"
  shows "ServiceName (Info (heap (resolveAndApplyServiceName r tag (RegisterServiceTag tag name s)) r)) = name
    \<and> heap (resolveAndApplyServiceName r tag (resolveAndApplyServiceName r tag (RegisterServiceTag tag name s)))
        = heap (resolveAndApplyServiceName r tag (RegisterServiceTag tag name s))
    \<and> (\<exists>tag'. GetTagForService name (RegisterServiceTag tag name s) = (tag', True)
          \<and> cm_load tag' (serviceTags (Services (RegisterServiceTag tag name s))) = Some name)"
proof -
  let ?t = "RegisterServiceTag tag name s"
  have t: "cm_load tag (serviceTags (Services ?t)) = Some name" "heap ?t = heap s"
    using assms(2,3) by (simp_all add: RegisterServiceTag_def word_gt_0)
  have "ServiceName (Info (heap (resolveAndApplyServiceName r tag ?t) r)) = name"
    using assms t by (simp add: resolveAndApplyServiceName_def apply_service_tag_def Let_def)
  moreover have "heap (resolveAndApplyServiceName r tag (resolveAndApplyServiceName r tag ?t))
      = heap (resolveAndApplyServiceName r tag ?t)"
    by (rule ext) (simp add: resolveAndApplyServiceName_def apply_service_tag_idem upd_info_def upd_obj_def)
  moreover obtain tag' where "GetTagForService name ?t = (tag', True)"
    using GetTagForService_complete [OF t(1)] by (cases "GetTagForService name ?t") simp
  moreover have "cm_invar (serviceTags (Services ?t))"
    using RegisterServiceTag_inv [OF assms(1)] by (simp add: service_inv_def)
  ultimately show ?thesis using GetTagForService_sound by blast
qed

end
