(* ===== verification/Thread_Manager.thy ===== *)
theory Thread_Manager
  imports Service_Manager
begin

text \<open>
  \<open>s_thread_manager.go\<close>: the map from thread ids to process objects. A nil pointer that is
  dereferenced is a panic, so the operations that read through the map return an option.

  \<open>thread_inv\<close> says that every thread points to a live process object; it is what makes the
  operations safe, and it is what the order "threads first, then processes" of the clean-up
  keeps. Without the invariant a mark that races with a clean-up stores a nil pointer.
\<close>

section \<open>Operations\<close>

definition newThreadManager :: thread_manager where
  "newThreadManager = \<lparr>tidToCurrentProcessData = cm_empty, terminatedThreads = cm_empty\<rparr>"

definition store_thread :: "u32 \<Rightarrow> ptr \<Rightarrow> ksm \<Rightarrow> ksm" where
  "store_thread tid p s = s\<lparr>Threads := (Threads s)\<lparr>tidToCurrentProcessData :=
     cm_store tid p (tidToCurrentProcessData (Threads s))\<rparr>\<rparr>"

text \<open>The fallback: the thread is attributed to the "unknown process", if that is there.\<close>

definition attribute_unknown :: "u32 \<Rightarrow> ksm \<Rightarrow> ksm" where
  "attribute_unknown tid s =
     (case GetProcessDataBySK UnknownProcessStartKey s of
        Some unknown \<Rightarrow> store_thread tid (Some unknown) s
      | None \<Rightarrow> s)"

definition AddThread :: "u32 \<Rightarrow> u32 \<Rightarrow> go_time \<Rightarrow> u32 \<Rightarrow> ksm \<Rightarrow> ksm option" where
  "AddThread tid pid eventTimestamp subProcessTag s =
     (case GetCurrentProcessDataByPID pid s of
        Some None \<Rightarrow> None
      | Some (Some r) \<Rightarrow>
          let createTime = CreateTime (Info (heap s r))
          in if time_After eventTimestamp (createTime - millisecond)
             then let s1 = store_thread tid (Some r) s;
                      s2 = s1\<lparr>Diag := RecordThreadAdded (Diag s1)\<rparr>
                  in Some (resolveAndApplyServiceName r subProcessTag s2)
             else Some (attribute_unknown tid s)
      | None \<Rightarrow> Some (attribute_unknown tid s))"

text \<open>\<open>MarkThreadForDeletion\<close> loads the pointer, then stores the record: the two steps are
  separate operations on two maps, so they are separate here too.\<close>

definition mark_load :: "u32 \<Rightarrow> ksm \<Rightarrow> ptr option" where
  "mark_load tid s = cm_load tid (tidToCurrentProcessData (Threads s))"

definition mark_store :: "u32 \<Rightarrow> u64 \<Rightarrow> u64 \<Rightarrow> ksm \<Rightarrow> ksm" where
  "mark_store tid gen startKey s = s\<lparr>Threads := (Threads s)\<lparr>terminatedThreads :=
     cm_store tid \<lparr>TerminatedAtGeneration = gen, TR_StartKey = startKey\<rparr> (terminatedThreads (Threads s))\<rparr>\<rparr>"

definition MarkThreadForDeletion :: "u32 \<Rightarrow> ksm \<Rightarrow> ksm option" where
  "MarkThreadForDeletion tid s =
     (case mark_load tid s of
        Some None \<Rightarrow> None
      | Some (Some r) \<Rightarrow> Some (mark_store tid (scrapeCounter s) (StartKey (Info (heap s r))) s)
      | None \<Rightarrow> Some s)"

definition GetCurrentProcessDataByThread :: "u32 \<Rightarrow> ksm \<Rightarrow> ptr option" where
  "GetCurrentProcessDataByThread tid s = cm_load tid (tidToCurrentProcessData (Threads s))"

text \<open>The loop body of \<open>cleanupTerminated\<close>: the callback dereferences the pointer when the key
  exists, and keeps the zero value, a nil pointer, when it does not.\<close>

definition cleanup_thread :: "u32 \<Rightarrow> u64 \<Rightarrow> ksm \<Rightarrow> ksm option" where
  "cleanup_thread tid startKeyToClean s =
     (case cm_load tid (tidToCurrentProcessData (Threads s)) of
        Some None \<Rightarrow> None
      | _ \<Rightarrow> Some (s\<lparr>Threads := (Threads s)\<lparr>tidToCurrentProcessData :=
          cm_update tid
            (\<lambda>cur. case cur of
               Some (Some r) \<Rightarrow>
                 if StartKey (Info (heap s r)) = startKeyToClean then None else Some (Some r)
             | _ \<Rightarrow> Some None)
            (tidToCurrentProcessData (Threads s))\<rparr>\<rparr>))"

fun cleanup_thread_list :: "(u32 \<times> u64) list \<Rightarrow> ksm \<Rightarrow> ksm option" where
  "cleanup_thread_list [] s = Some s"
| "cleanup_thread_list ((tid, sk) # ts) s =
     (case cleanup_thread tid sk s of None \<Rightarrow> None | Some s' \<Rightarrow> cleanup_thread_list ts s')"

definition TM_cleanupTerminated :: "u64 \<Rightarrow> ksm \<Rightarrow> (nat \<times> ksm) option" where
  "TM_cleanupTerminated cleanupThreshold s =
     (case cm_sweep (\<lambda>record. TerminatedAtGeneration record < cleanupThreshold) (terminatedThreads (Threads s)) of
        (hit, rest) \<Rightarrow>
          let threadsToClean = map (\<lambda>(tid, record). (tid, TR_StartKey record)) hit;
              s1 = s\<lparr>Threads := (Threads s)\<lparr>terminatedThreads := rest\<rparr>\<rparr>
          in map_option (\<lambda>s'. (length threadsToClean, s')) (cleanup_thread_list threadsToClean s1))"

text \<open>\<open>tids_of_dead\<close> is the range that collects the threads: it dereferences every pointer.\<close>

fun tids_of_dead :: "u64 list \<Rightarrow> ksm \<Rightarrow> (u32 \<times> ptr) list \<Rightarrow> u32 list option" where
  "tids_of_dead procs s [] = Some []"
| "tids_of_dead procs s ((tid, None) # xs) = None"
| "tids_of_dead procs s ((tid, Some r) # xs) =
     map_option (\<lambda>tids. if StartKey (Info (heap s r)) \<in> set procs then tid # tids else tids)
       (tids_of_dead procs s xs)"

definition delete_thread :: "u32 \<Rightarrow> thread_manager \<Rightarrow> thread_manager" where
  "delete_thread tid tm = tm\<lparr>tidToCurrentProcessData := cm_delete tid (tidToCurrentProcessData tm),
     terminatedThreads := cm_delete tid (terminatedThreads tm)\<rparr>"

definition cleanupThreadsForTerminatedProcesses :: "u64 list \<Rightarrow> ksm \<Rightarrow> ksm option" where
  "cleanupThreadsForTerminatedProcesses procsToClean s =
     map_option (\<lambda>tids. s\<lparr>Threads := fold delete_thread tids (Threads s)\<rparr>)
       (tids_of_dead procsToClean s (cm_entries (tidToCurrentProcessData (Threads s))))"

definition GetThreadCount :: "ksm \<Rightarrow> nat" where
  "GetThreadCount s = cm_count (tidToCurrentProcessData (Threads s))"

definition TM_GetTerminatedCount :: "ksm \<Rightarrow> nat" where
  "TM_GetTerminatedCount s = cm_count (terminatedThreads (Threads s))"

text \<open>\<open>RangeThreads\<close> hands each thread with its start key to the callback.\<close>

fun RangeThreads_loop :: "('a \<Rightarrow> u32 \<Rightarrow> u64 \<Rightarrow> 'a) \<Rightarrow> ksm \<Rightarrow> (u32 \<times> ptr) list \<Rightarrow> 'a \<Rightarrow> 'a option" where
  "RangeThreads_loop f s [] a = Some a"
| "RangeThreads_loop f s ((tid, None) # xs) a = None"
| "RangeThreads_loop f s ((tid, Some r) # xs) a =
     RangeThreads_loop f s xs (f a tid (StartKey (Info (heap s r))))"

definition RangeThreads :: "('a \<Rightarrow> u32 \<Rightarrow> u64 \<Rightarrow> 'a) \<Rightarrow> ksm \<Rightarrow> 'a \<Rightarrow> 'a option" where
  "RangeThreads f s a = RangeThreads_loop f s (cm_entries (tidToCurrentProcessData (Threads s))) a"


section \<open>The invariant\<close>

definition thread_inv :: "ksm \<Rightarrow> bool" where
  "thread_inv s \<longleftrightarrow> cm_invar (tidToCurrentProcessData (Threads s)) \<and> cm_invar (terminatedThreads (Threads s))
     \<and> (\<forall>tid p. cm_load tid (tidToCurrentProcessData (Threads s)) = Some p \<longrightarrow> (\<exists>r. p = Some r \<and> ref_live s r))
     \<and> (\<forall>tid. cm_load tid (terminatedThreads (Threads s)) \<noteq> None \<longrightarrow>
          cm_load tid (tidToCurrentProcessData (Threads s)) \<noteq> None)"

lemma thread_invD:
  assumes "thread_inv s"
  shows "cm_invar (tidToCurrentProcessData (Threads s))" and "cm_invar (terminatedThreads (Threads s))"
    and "cm_load tid (tidToCurrentProcessData (Threads s)) = Some p \<Longrightarrow> \<exists>r. p = Some r \<and> ref_live s r"
    and "cm_load tid (terminatedThreads (Threads s)) = Some rec \<Longrightarrow>
      cm_load tid (tidToCurrentProcessData (Threads s)) \<noteq> None"
  using assms by (auto simp: thread_inv_def)

text \<open>Operations on processes that keep live objects live keep the thread invariant.\<close>

lemma thread_inv_live:
  "thread_inv s \<Longrightarrow> Threads t = Threads s \<Longrightarrow> (\<And>r. ref_live s r \<Longrightarrow> ref_live t r) \<Longrightarrow> thread_inv t"
  unfolding thread_inv_def by metis

lemma proc_inv_instance:
  "proc_inv s \<Longrightarrow> cm_load sk (instanceData (Processes s)) = Some r \<Longrightarrow> ref_live s r \<and> start_key s r = sk"
  using instances_okD by (auto simp: proc_inv_def proc_inv_core_def)

lemma proc_inv_pid:
  "proc_inv s \<Longrightarrow> cm_load pid (pidToCurrentProcessData (Processes s)) = Some p \<Longrightarrow>
   \<exists>r. p = Some r \<and> ref_live s r \<and> PID (Info (heap s r)) = pid"
  using pids_okD [of s pid p] by (auto simp: proc_inv_def proc_inv_core_def)

lemma proc_inv_cong:
  "Processes t = Processes s \<Longrightarrow> heap t = heap s \<Longrightarrow> next_ref t = next_ref s \<Longrightarrow> proc_inv t = proc_inv s"
  by (simp add: proc_parts ref_live_def start_key_def)

lemma ref_live_cong: "Processes t = Processes s \<Longrightarrow> heap t = heap s \<Longrightarrow> ref_live t r = ref_live s r"
  by (simp add: ref_live_def start_key_def)

lemma start_key_cong: "heap t = heap s \<Longrightarrow> start_key t r = start_key s r"
  by (simp add: start_key_def)

lemma store_thread_frame [simp]:
  "Processes (store_thread tid p s) = Processes s" "heap (store_thread tid p s) = heap s"
  "next_ref (store_thread tid p s) = next_ref s" "Images (store_thread tid p s) = Images s"
  "Services (store_thread tid p s) = Services s"
  "ref_live (store_thread tid p s) r = ref_live s r" "proc_inv (store_thread tid p s) = proc_inv s"
  by (simp_all add: store_thread_def ref_live_def start_key_def proc_parts)

lemma thread_inv_store [inv_intros]:
  "thread_inv s \<Longrightarrow> ref_live s r \<Longrightarrow> thread_inv (store_thread tid (Some r) s)"
  by (auto simp: thread_inv_def) (auto simp: store_thread_def split: if_splits)

lemma Diag_frame [simp]:
  "proc_inv (s\<lparr>Diag := d\<rparr>) = proc_inv s" "thread_inv (s\<lparr>Diag := d\<rparr>) = thread_inv s"
  by (simp_all add: thread_inv_def ref_live_def start_key_def proc_parts)

lemma attribute_unknown_inv [inv_intros]:
  assumes "proc_inv s" and "thread_inv s"
  shows "proc_inv (attribute_unknown tid s)" and "thread_inv (attribute_unknown tid s)"
  using assms proc_inv_instance [OF assms(1), of UnknownProcessStartKey]
  by (auto simp: attribute_unknown_def GetProcessDataBySK_def split: option.split intro!: thread_inv_store)

lemma attribute_unknown_Images [simp]: "Images (attribute_unknown tid s) = Images s"
  by (simp add: attribute_unknown_def split: option.split)

lemma AddThread_inv:
  assumes "proc_inv s" and "thread_inv s"
  shows "\<exists>t. AddThread tid pid time tag s = Some t \<and> proc_inv t \<and> thread_inv t \<and> Images t = Images s"
proof (cases "cm_load pid (pidToCurrentProcessData (Processes s))")
  case None
  then show ?thesis using assms attribute_unknown_inv [OF assms, of tid]
    by (simp add: AddThread_def GetCurrentProcessDataByPID_def)
next
  case (Some p)
  then obtain r where r: "p = Some r" "ref_live s r"
    using proc_inv_pid [OF assms(1)] by blast
  have "thread_inv (resolveAndApplyServiceName r tag ((store_thread tid (Some r) s)\<lparr>Diag := d\<rparr>))" for d
    by (rule thread_inv_live [of "(store_thread tid (Some r) s)\<lparr>Diag := d\<rparr>"])
      (use r assms in \<open>simp_all add: thread_inv_store\<close>)
  then show ?thesis using Some r assms attribute_unknown_inv [OF assms, of tid]
    by (simp add: AddThread_def GetCurrentProcessDataByPID_def Let_def resolveAndApply_inv)
qed

lemma MarkThreadForDeletion_inv:
  assumes "proc_inv s" and "thread_inv s"
  shows "\<exists>t. MarkThreadForDeletion tid s = Some t \<and> proc_inv t \<and> thread_inv t \<and> Images t = Images s"
proof (cases "cm_load tid (tidToCurrentProcessData (Threads s))")
  case None
  then show ?thesis using assms by (simp add: MarkThreadForDeletion_def mark_load_def)
next
  case (Some p)
  then obtain r where r: "p = Some r" "ref_live s r" using thread_invD(3) [OF assms(2)] by blast
  have "proc_inv (mark_store tid gen sk s)" for gen sk
    using assms(1) proc_inv_cong [of "mark_store tid gen sk s" s] by (simp add: mark_store_def)
  moreover have "thread_inv (mark_store tid gen sk s)" for gen sk
    using assms(2) Some by (auto simp: thread_inv_def mark_store_def ref_live_def start_key_def)
  ultimately show ?thesis using Some r
    by (simp add: MarkThreadForDeletion_def mark_load_def) (simp add: mark_store_def)
qed


section \<open>Clean-up\<close>

text \<open>Only the thread maps differ.\<close>

definition only_threads :: "ksm \<Rightarrow> ksm \<Rightarrow> bool" where
  "only_threads s t \<longleftrightarrow> t = s\<lparr>Threads := Threads t\<rparr>"

lemma only_threads_refl [simp]: "only_threads s s"
  by (simp add: only_threads_def)

lemma only_threads_upd [simp]: "only_threads s (s\<lparr>Threads := tm\<rparr>)"
  by (simp add: only_threads_def)

lemma only_threads_trans: "only_threads s t \<Longrightarrow> only_threads t u \<Longrightarrow> only_threads s u"
  unfolding only_threads_def by (metis ksm.update_convs(4) ksm.surjective)

lemma only_threadsD:
  assumes "only_threads s t"
  shows "Processes t = Processes s" and "heap t = heap s" and "next_ref t = next_ref s"
    and "Images t = Images s" and "Services t = Services s" and "ref_live t r = ref_live s r"
    and "start_key t r = start_key s r" and "proc_inv t = proc_inv s" and "scrapeCounter t = scrapeCounter s"
proof -
  obtain tm where t: "t = s\<lparr>Threads := tm\<rparr>" using assms by (auto simp: only_threads_def)
  show "Processes t = Processes s" and "heap t = heap s" and "next_ref t = next_ref s"
    and "Images t = Images s" and "Services t = Services s" and "ref_live t r = ref_live s r"
    and "start_key t r = start_key s r" and "proc_inv t = proc_inv s" and "scrapeCounter t = scrapeCounter s"
    by (simp_all add: t ref_live_def start_key_def proc_parts)
qed

abbreviation thread_ptr :: "ksm \<Rightarrow> u32 \<Rightarrow> ptr option" where
  "thread_ptr s tid \<equiv> cm_load tid (tidToCurrentProcessData (Threads s))"

lemma cleanup_thread_spec:
  assumes "thread_inv s" and "thread_ptr s tid \<noteq> None"
    and "cm_load tid (terminatedThreads (Threads s)) = None"
  shows "\<exists>t. cleanup_thread tid sk s = Some t \<and> thread_inv t \<and> only_threads s t
    \<and> terminatedThreads (Threads t) = terminatedThreads (Threads s)
    \<and> (\<forall>j. thread_ptr t j = (if j = tid \<and> (\<exists>r. thread_ptr s tid = Some (Some r) \<and> start_key s r = sk)
                        then None else thread_ptr s j))"
proof -
  obtain r where r: "thread_ptr s tid = Some (Some r)" "ref_live s r"
    using assms thread_invD(3) by blast
  let ?m = "cm_update tid (\<lambda>cur. case cur of Some (Some r) \<Rightarrow>
              if StartKey (Info (heap s r)) = sk then None else Some (Some r) | _ \<Rightarrow> Some None)
            (tidToCurrentProcessData (Threads s))"
  let ?t = "s\<lparr>Threads := (Threads s)\<lparr>tidToCurrentProcessData := ?m\<rparr>\<rparr>"
  have t: "cleanup_thread tid sk s = Some ?t"
    using r by (simp add: cleanup_thread_def)
  have ptr: "thread_ptr ?t j = (if j = tid \<and> (\<exists>r. thread_ptr s tid = Some (Some r) \<and> start_key s r = sk)
                        then None else thread_ptr s j)" for j
    using r by (simp add: start_key_def)
  have "thread_inv ?t"
    using assms(1,3) r unfolding thread_inv_def
    by (auto simp: ref_live_def start_key_def split: if_splits)
  then show ?thesis using t ptr by (intro exI [of _ ?t]) simp
qed

lemma cleanup_thread_list_spec:
  assumes "thread_inv s" and "distinct (map fst ts)"
    and "\<And>tid sk. (tid, sk) \<in> set ts \<Longrightarrow>
      thread_ptr s tid \<noteq> None \<and> cm_load tid (terminatedThreads (Threads s)) = None"
  shows "\<exists>t. cleanup_thread_list ts s = Some t \<and> thread_inv t \<and> only_threads s t
    \<and> (\<forall>j. thread_ptr t j = (if (\<exists>r sk. (j, sk) \<in> set ts \<and> thread_ptr s j = Some (Some r) \<and> start_key s r = sk)
                        then None else thread_ptr s j))"
  using assms
proof (induction ts arbitrary: s)
  case Nil
  then show ?case by simp
next
  case (Cons x ts)
  obtain tid sk where x: "x = (tid, sk)" by force
  have h: "thread_ptr s tid \<noteq> None" "cm_load tid (terminatedThreads (Threads s)) = None"
    using Cons.prems(3) [of tid sk] x by auto
  obtain u where u: "cleanup_thread tid sk s = Some u" "thread_inv u" "only_threads s u"
    "terminatedThreads (Threads u) = terminatedThreads (Threads s)"
    "\<forall>j. thread_ptr u j = (if j = tid \<and> (\<exists>r. thread_ptr s tid = Some (Some r) \<and> start_key s r = sk)
                        then None else thread_ptr s j)"
    using cleanup_thread_spec [OF Cons.prems(1) h, of sk] by blast
  have tid: "tid \<notin> fst ` set ts" and dist: "distinct (map fst ts)" using Cons.prems(2) x by simp_all
  have pre: "thread_ptr u j \<noteq> None \<and> cm_load j (terminatedThreads (Threads u)) = None"
    if "(j, k) \<in> set ts" for j k
    using Cons.prems(3) [of j k] that tid by (auto simp: u image_iff)
  obtain t where t: "cleanup_thread_list ts u = Some t" "thread_inv t" "only_threads u t"
    "\<forall>j. thread_ptr t j = (if (\<exists>r sk. (j, sk) \<in> set ts \<and> thread_ptr u j = Some (Some r) \<and> start_key u r = sk)
                        then None else thread_ptr u j)"
    using Cons.IH [OF u(2) dist] pre by blast
  have "thread_ptr t j = (if (\<exists>r k. (j, k) \<in> set (x # ts) \<and> thread_ptr s j = Some (Some r) \<and> start_key s r = k)
                        then None else thread_ptr s j)" for j
    using tid by (force simp: t(4) u(5) x only_threadsD(7) [OF u(3)] image_iff)
  then show ?case using u(1) t x only_threads_trans [OF u(3) t(3)] by simp
qed

lemma TM_cleanupTerminated_spec:
  assumes "thread_inv s"
  shows "\<exists>n t. TM_cleanupTerminated threshold s = Some (n, t) \<and> thread_inv t \<and> only_threads s t
    \<and> (\<forall>tid. thread_ptr t tid =
        (if (\<exists>rec r. cm_load tid (terminatedThreads (Threads s)) = Some rec \<and> TerminatedAtGeneration rec < threshold
              \<and> thread_ptr s tid = Some (Some r) \<and> start_key s r = TR_StartKey rec)
         then None else thread_ptr s tid))"
proof -
  let ?P = "\<lambda>rec. TerminatedAtGeneration rec < threshold"
  let ?m = "terminatedThreads (Threads s)"
  obtain hit rest where hr: "cm_sweep ?P ?m = (hit, rest)" by force
  let ?ts = "map (\<lambda>(tid, rec). (tid, TR_StartKey rec)) hit"
  let ?s1 = "s\<lparr>Threads := (Threads s)\<lparr>terminatedThreads := rest\<rparr>\<rparr>"
  have m: "cm_invar ?m" using thread_invD(2) [OF assms] .
  have hit: "(tid, rec) \<in> set hit \<longleftrightarrow> cm_load tid ?m = Some rec \<and> ?P rec" for tid rec
    using cm_sweep_hits(1) [OF m, of tid rec ?P] hr by simp
  have rest: "cm_load tid rest = (case cm_load tid ?m of Some v \<Rightarrow> if ?P v then None else Some v | None \<Rightarrow> None)" for tid
    using cm_load_sweep [OF m, of tid ?P] hr by simp
  have wf: "cm_invar rest" "distinct (map fst ?ts)"
    using cm_sweep_hits(2,3) [OF m, of ?P] hr by (simp_all add: comp_def case_prod_unfold)
  have inv1: "thread_inv ?s1"
    using assms wf(1) unfolding thread_inv_def
    by (auto simp: ref_live_def start_key_def rest split: option.splits if_splits)
  have "thread_ptr ?s1 tid \<noteq> None \<and> cm_load tid (terminatedThreads (Threads ?s1)) = None"
    if "(tid, sk) \<in> set ?ts" for tid sk
    using that hit thread_invD(4) [OF assms] by (auto simp: rest)
  then obtain t where t: "cleanup_thread_list ?ts ?s1 = Some t" "thread_inv t" "only_threads ?s1 t"
    "\<forall>j. thread_ptr t j = (if (\<exists>r sk. (j, sk) \<in> set ?ts \<and> thread_ptr ?s1 j = Some (Some r) \<and> start_key ?s1 r = sk)
                        then None else thread_ptr ?s1 j)"
    using cleanup_thread_list_spec [OF inv1 wf(2)] by blast
  have ts: "(j, sk) \<in> set ?ts \<longleftrightarrow> (\<exists>rec. cm_load j ?m = Some rec \<and> ?P rec \<and> TR_StartKey rec = sk)" for j sk
    using hit by (force simp: image_iff)
  have eq: "(\<exists>r sk. (j, sk) \<in> set ?ts \<and> thread_ptr ?s1 j = Some (Some r) \<and> start_key ?s1 r = sk) \<longleftrightarrow>
    (\<exists>rec r. cm_load j ?m = Some rec \<and> ?P rec \<and> thread_ptr s j = Some (Some r) \<and> start_key s r = TR_StartKey rec)" for j
    unfolding ts by (simp add: start_key_def) metis
  have p: "thread_ptr ?s1 j = thread_ptr s j" for j by simp
  have "\<forall>j. thread_ptr t j = (if (\<exists>rec r. cm_load j ?m = Some rec \<and> ?P rec
      \<and> thread_ptr s j = Some (Some r) \<and> start_key s r = TR_StartKey rec) then None else thread_ptr s j)"
    using t(4) unfolding p eq [unfolded p] .
  moreover have "only_threads s t" using only_threads_trans [OF only_threads_upd t(3)] .
  moreover have "TM_cleanupTerminated threshold s = Some (length ?ts, t)"
    using t(1) hr by (simp add: TM_cleanupTerminated_def Let_def)
  ultimately show ?thesis using t(2) by blast
qed

lemma tids_of_dead_spec:
  assumes "None \<notin> snd ` set xs"
  shows "\<exists>tids. tids_of_dead procs s xs = Some tids \<and>
    (\<forall>tid. tid \<in> set tids \<longleftrightarrow> (\<exists>r. (tid, Some r) \<in> set xs \<and> start_key s r \<in> set procs))"
  using assms
proof (induction xs)
  case Nil
  then show ?case by simp
next
  case (Cons x xs)
  obtain tid r where x: "x = (tid, Some r)" using Cons.prems by (cases x) force
  then show ?case using Cons by (fastforce simp: start_key_def)
qed

lemma fold_delete_thread:
  "cm_load j (tidToCurrentProcessData (fold delete_thread tids tm)) =
     (if j \<in> set tids then None else cm_load j (tidToCurrentProcessData tm))"
  "cm_load j (terminatedThreads (fold delete_thread tids tm)) =
     (if j \<in> set tids then None else cm_load j (terminatedThreads tm))"
  "cm_invar (tidToCurrentProcessData tm) \<Longrightarrow> cm_invar (tidToCurrentProcessData (fold delete_thread tids tm))"
  "cm_invar (terminatedThreads tm) \<Longrightarrow> cm_invar (terminatedThreads (fold delete_thread tids tm))"
  by (induction tids arbitrary: tm) (auto simp: delete_thread_def)

lemma cleanupThreadsForTerminatedProcesses_spec:
  assumes "thread_inv s"
  shows "\<exists>t. cleanupThreadsForTerminatedProcesses procs s = Some t \<and> thread_inv t \<and> only_threads s t
    \<and> (\<forall>tid. thread_ptr t tid =
        (if (\<exists>r. thread_ptr s tid = Some (Some r) \<and> start_key s r \<in> set procs) then None else thread_ptr s tid))"
proof -
  let ?m = "tidToCurrentProcessData (Threads s)"
  note e = cm_entries_load [OF thread_invD(1) [OF assms]]
  have nn: "None \<notin> snd ` set (cm_entries ?m)"
    by (auto simp: cm_entries_def e dest: thread_invD(3) [OF assms])
  obtain tids where tids: "tids_of_dead procs s (cm_entries ?m) = Some tids"
    "\<forall>tid. tid \<in> set tids \<longleftrightarrow> (\<exists>r. thread_ptr s tid = Some (Some r) \<and> start_key s r \<in> set procs)"
    using tids_of_dead_spec [OF nn, of procs s] by (auto simp: cm_entries_def e)
  let ?t = "s\<lparr>Threads := fold delete_thread tids (Threads s)\<rparr>"
  have "cleanupThreadsForTerminatedProcesses procs s = Some ?t"
    using tids(1) by (simp add: cleanupThreadsForTerminatedProcesses_def)
  moreover have "thread_inv ?t"
    using assms unfolding thread_inv_def
    by (auto simp: fold_delete_thread ref_live_def start_key_def split: if_splits)
  moreover have "only_threads s ?t" by simp
  ultimately show ?thesis
    by (intro exI [of _ ?t]) (simp add: fold_delete_thread(1) tids(2))
qed

text \<open>Afterwards no thread points to an object of the set: the objects may be recycled.\<close>

lemma cleanupThreads_unlinks:
  assumes "thread_inv s" and "cleanupThreadsForTerminatedProcesses procs s = Some t"
    and "thread_ptr t tid = Some (Some r)"
  shows "start_key t r \<notin> set procs"
proof -
  obtain t' where t': "cleanupThreadsForTerminatedProcesses procs s = Some t'" "only_threads s t'"
    "\<forall>tid. thread_ptr t' tid = (if (\<exists>r. thread_ptr s tid = Some (Some r) \<and> start_key s r \<in> set procs)
       then None else thread_ptr s tid)"
    using cleanupThreadsForTerminatedProcesses_spec [OF assms(1)] by blast
  then show ?thesis using assms(2,3) only_threadsD(7) [OF t'(2), of r] by (auto split: if_splits)
qed

lemma RangeThreads_loop_Some:
  "None \<notin> snd ` set xs \<Longrightarrow> \<exists>b. RangeThreads_loop f s xs a = Some b"
proof (induction xs arbitrary: a)
  case (Cons x xs)
  obtain tid r where "x = (tid, Some r)" using Cons.prems by (cases x) force
  then show ?case using Cons by simp
qed simp

lemma RangeThreads_Some: "thread_inv s \<Longrightarrow> \<exists>b. RangeThreads f s a = Some b"
  unfolding RangeThreads_def cm_entries_def
  by (rule RangeThreads_loop_Some) (auto dest: thread_invD(3) simp: cm_entries_load [OF thread_invD(1)])

end
