(* ===== verification/Image_Manager.thy ===== *)
theory Image_Manager
  imports Thread_Manager
begin

text \<open>
  \<open>s_image_manager.go\<close>: loaded images with their reference counts, the cache from addresses
  to images, the marks of unloaded images and their clean-up.

  \<open>ImageInfo\<close> objects are shared between the image map and the cache and recycled through a
  pool, so they live in the store of the image manager. The order in which Go ranges over
  the image map is the order of the entries.
\<close>

section \<open>Operations\<close>

definition zeroImageInfo :: image_info where
  "zeroImageInfo = \<lparr>ImageBase = 0, ImageSize = 0, ImageName = '''', RefCount = 0\<rparr>"

definition newImageManager :: image_manager where
  "newImageManager = \<lparr>images = cm_empty, addressCache = cm_empty, terminatedImages = cm_empty,
     imageInfoPool = [], internedImageNames = cm_empty, image_heap = (\<lambda>_. zeroImageInfo), image_next = 0\<rparr>"

definition internImageName :: "string \<Rightarrow> image_manager \<Rightarrow> string \<times> image_manager" where
  "internImageName name im =
     (case cm_load name (internedImageNames im) of
        Some interned \<Rightarrow> (interned, im)
      | None \<Rightarrow> (name, im\<lparr>internedImageNames := cm_store name name (internedImageNames im)\<rparr>))"

definition image_pool_Get :: "nat option \<Rightarrow> image_manager \<Rightarrow> ref \<times> image_manager" where
  "image_pool_Get choice im =
     (let pool = imageInfoPool im;
          new = (image_next im, im\<lparr>image_next := Suc (image_next im),
                   image_heap := (image_heap im)(image_next im := zeroImageInfo)\<rparr>)
      in case choice of
           Some i \<Rightarrow> if i < length pool
                     then (pool ! i, im\<lparr>imageInfoPool := take i pool @ drop (Suc i) pool\<rparr>)
                     else new
         | None \<Rightarrow> new)"

definition upd_image :: "ref \<Rightarrow> (image_info \<Rightarrow> image_info) \<Rightarrow> image_manager \<Rightarrow> image_manager" where
  "upd_image r f im = im\<lparr>image_heap := (image_heap im)(r := f (image_heap im r))\<rparr>"

definition store_image :: "nat option \<Rightarrow> u64 \<Rightarrow> u64 \<Rightarrow> string \<Rightarrow> image_manager \<Rightarrow> image_manager" where
  "store_image choice imageBase imageSize fileName im =
     (if imageBase \<noteq> 0 \<and> imageSize \<noteq> 0
      then case cm_load imageBase (images im) of
             Some info \<Rightarrow> upd_image info (\<lambda>i. i\<lparr>RefCount := RefCount i + 1\<rparr>) im
           | None \<Rightarrow>
               (case internImageName (filepath_Base fileName) im of (imageName, im1) \<Rightarrow>
                  case image_pool_Get choice im1 of (info, im2) \<Rightarrow>
                    let im3 = upd_image info (\<lambda>i. i\<lparr>ImageBase := imageBase, ImageSize := imageSize,
                                ImageName := imageName, RefCount := 1\<rparr>) im2
                    in im3\<lparr>images := cm_store imageBase info (images im3)\<rparr>)
      else im)"

definition AddImage :: "nat option \<Rightarrow> u32 \<Rightarrow> u64 \<Rightarrow> u64 \<Rightarrow> string \<Rightarrow> u32 \<Rightarrow> u32 \<Rightarrow> ksm \<Rightarrow> ksm" where
  "AddImage choice pid imageBase imageSize fileName peTimestamp peChecksum s =
     (let s1 = s\<lparr>Images := store_image choice imageBase imageSize fileName (Images s)\<rparr>
      in if PM_Enabled (Processes s1) \<and> HasSuffix (ToLower fileName) ''.exe''
         then EnrichProcessWithImageData pid (ucast peChecksum) fileName s1
         else s1)"

definition unload_image :: "u64 \<Rightarrow> u64 \<Rightarrow> image_manager \<Rightarrow> image_manager" where
  "unload_image imageBase currentScrape im =
     (case cm_load imageBase (images im) of
        None \<Rightarrow> im
      | Some info \<Rightarrow>
          let im1 = upd_image info (\<lambda>i. i\<lparr>RefCount := RefCount i - 1\<rparr>) im
          in if sint (RefCount (image_heap im1 info)) \<le> 0
             then im1\<lparr>terminatedImages := cm_store imageBase currentScrape (terminatedImages im1)\<rparr>
             else im1)"

definition UnloadImage :: "u64 \<Rightarrow> ksm \<Rightarrow> ksm" where
  "UnloadImage imageBase s = s\<lparr>Images := unload_image imageBase (scrapeCounter s) (Images s)\<rparr>"

definition RemoveImage :: "u64 \<Rightarrow> image_manager \<Rightarrow> image_manager" where
  "RemoveImage imageBase im =
     (case cm_load imageBase (images im) of
        None \<Rightarrow> im\<lparr>terminatedImages := cm_delete imageBase (terminatedImages im)\<rparr>
      | Some info \<Rightarrow>
          im\<lparr>images := cm_delete imageBase (images im),
             addressCache := snd (cm_sweep (\<lambda>cachedInfo. cachedInfo = info) (addressCache im)),
             imageInfoPool := imageInfoPool im @ [info],
             terminatedImages := cm_delete imageBase (terminatedImages im)\<rparr>)"

definition covers :: "image_info \<Rightarrow> u64 \<Rightarrow> bool" where
  "covers img address \<longleftrightarrow> address \<ge> ImageBase img \<and> address < ImageBase img + ImageSize img"

text \<open>The first look into the cache is under the read lock; it is repeated under the write lock.\<close>

definition GetImageForAddress :: "u64 \<Rightarrow> image_manager \<Rightarrow> ref option \<times> image_manager" where
  "GetImageForAddress address im =
     (case cm_load address (addressCache im) of
        Some info \<Rightarrow> (Some info, im)
      | None \<Rightarrow>
          (case cm_load address (addressCache im) of
             Some info \<Rightarrow> (Some info, im)
           | None \<Rightarrow>
               (case find (\<lambda>(_, r). covers (image_heap im r) address) (cm_entries (images im)) of
                  Some (_, r) \<Rightarrow> (Some r, im\<lparr>addressCache := cm_store address r (addressCache im)\<rparr>)
                | None \<Rightarrow> (None, im))))"

definition IM_cleanupTerminated :: "u64 \<Rightarrow> image_manager \<Rightarrow> nat \<times> image_manager" where
  "IM_cleanupTerminated currentGeneration im =
     (let imagesToClean = cm_range (\<lambda>l imageBase terminatedAtGeneration.
            (if terminatedAtGeneration < currentGeneration then l @ [imageBase] else l, True))
            (terminatedImages im) []
      in (length imagesToClean, fold RemoveImage imagesToClean im))"

definition GetCleanedImages :: "image_manager \<Rightarrow> string list" where
  "GetCleanedImages im =
     cm_range (\<lambda>cleanedNames imageBase _.
        (case cm_load imageBase (images im) of
           Some info \<Rightarrow> cleanedNames @ [ImageName (image_heap im info)]
         | None \<Rightarrow> cleanedNames, True)) (terminatedImages im) []"

definition GetImageCount :: "image_manager \<Rightarrow> nat" where
  "GetImageCount im = length (images im)"

definition IM_GetTerminatedCount :: "image_manager \<Rightarrow> nat" where
  "IM_GetTerminatedCount im = cm_count (terminatedImages im)"

definition RangeImages :: "('a \<Rightarrow> image_info \<Rightarrow> 'a) \<Rightarrow> image_manager \<Rightarrow> 'a \<Rightarrow> 'a" where
  "RangeImages f im a = fold (\<lambda>(_, r) a. f a (image_heap im r)) (cm_entries (images im)) a"


section \<open>The invariant\<close>

definition image_inv :: "image_manager \<Rightarrow> bool" where
  "image_inv im \<longleftrightarrow> cm_invar (images im) \<and> cm_invar (addressCache im) \<and> cm_invar (terminatedImages im)
     \<and> distinct (imageInfoPool im) \<and> (\<forall>r \<in> set (imageInfoPool im). r < image_next im)
     \<and> (\<forall>b r. cm_load b (images im) = Some r \<longrightarrow> r < image_next im \<and> r \<notin> set (imageInfoPool im)
          \<and> ImageBase (image_heap im r) = b)
     \<and> (\<forall>a r. cm_load a (addressCache im) = Some r \<longrightarrow>
          covers (image_heap im r) a \<and> cm_load (ImageBase (image_heap im r)) (images im) = Some r)
     \<and> (\<forall>b. cm_load b (terminatedImages im) \<noteq> None \<longrightarrow> cm_load b (images im) \<noteq> None)
     \<and> (\<forall>n m. cm_load n (internedImageNames im) = Some m \<longrightarrow> m = n)"

lemma image_invD:
  assumes "image_inv im"
  shows "cm_load b (images im) = Some r \<Longrightarrow> r < image_next im \<and> r \<notin> set (imageInfoPool im)
          \<and> ImageBase (image_heap im r) = b"
    and "cm_load a (addressCache im) = Some r \<Longrightarrow>
          covers (image_heap im r) a \<and> cm_load (ImageBase (image_heap im r)) (images im) = Some r"
    and "cm_load b (terminatedImages im) = Some g \<Longrightarrow> cm_load b (images im) \<noteq> None"
    and "cm_load n (internedImageNames im) = Some m \<Longrightarrow> m = n"
    and "cm_invar (images im)" and "cm_invar (addressCache im)" and "cm_invar (terminatedImages im)"
  using assms by (auto simp: image_inv_def)

lemma image_inv_new [simp]: "image_inv newImageManager"
  by (simp add: image_inv_def newImageManager_def)

text \<open>A change of an object that keeps its base and size keeps the invariant.\<close>

lemma image_inv_upd [inv_intros]:
  assumes "image_inv im"
    and "\<And>i. ImageBase (f i) = ImageBase i" and "\<And>i. ImageSize (f i) = ImageSize i"
  shows "image_inv (upd_image r f im)"
  using assms by (auto simp: image_inv_def upd_image_def covers_def)

lemma internImageName_spec:
  assumes "image_inv im" and "internImageName name im = (n, im')"
  shows "n = name" and "image_inv im'" and "images im' = images im" and "image_heap im' = image_heap im"
    and "image_next im' = image_next im" and "imageInfoPool im' = imageInfoPool im"
    and "addressCache im' = addressCache im" and "terminatedImages im' = terminatedImages im"
  using assms by (auto simp: internImageName_def image_inv_def split: option.splits if_splits)

lemma image_pool_Get_spec:
  assumes "image_inv im" and "image_pool_Get choice im = (r, im')"
  shows "image_inv im'" and "r \<notin> set (imageInfoPool im')" and "r < image_next im'"
    and "\<And>b. cm_load b (images im') \<noteq> Some r" and "images im' = images im"
    and "addressCache im' = addressCache im" and "terminatedImages im' = terminatedImages im"
    and "\<And>q. q \<noteq> r \<Longrightarrow> image_heap im' q = image_heap im q"
proof -
  have p: "i < length (imageInfoPool im) \<Longrightarrow>
      distinct (take i (imageInfoPool im) @ drop (Suc i) (imageInfoPool im)) \<and>
      set (take i (imageInfoPool im) @ drop (Suc i) (imageInfoPool im)) =
        set (imageInfoPool im) - {imageInfoPool im ! i}" for i
    using assms(1) by (intro set_take_drop) (auto simp: image_inv_def)
  show eqs: "images im' = images im" "addressCache im' = addressCache im"
      "terminatedImages im' = terminatedImages im"
    using assms(2) by (auto simp: image_pool_Get_def Let_def split: option.splits if_splits)
  have new: "r = image_next im \<or> r \<in> set (imageInfoPool im)"
    using assms(2) by (auto simp: image_pool_Get_def Let_def split: option.splits if_splits)
  show fresh: "cm_load b (images im') \<noteq> Some r" for b
    using new image_invD(1) [OF assms(1), of b r] eqs by auto
  show "\<And>q. q \<noteq> r \<Longrightarrow> image_heap im' q = image_heap im q"
    using assms(2) by (auto simp: image_pool_Get_def Let_def split: option.splits if_splits)
  show "r \<notin> set (imageInfoPool im')" "r < image_next im'"
    using assms(1) assms(2) p
    by (auto simp: image_pool_Get_def Let_def image_inv_def split: option.splits if_splits
        simp del: set_append)
  have cache: "q \<noteq> r" if "cm_load a (addressCache im) = Some q" for a q
    using that new image_invD(1,2) [OF assms(1)] by blast
  have imgs: "q \<noteq> r" if "cm_load b (images im) = Some q" for b q
    using that fresh [of b] eqs by auto
  consider i where "i < length (imageInfoPool im)" "r = imageInfoPool im ! i"
      "im' = im\<lparr>imageInfoPool := take i (imageInfoPool im) @ drop (Suc i) (imageInfoPool im)\<rparr>"
    | "r = image_next im" "im' = im\<lparr>image_next := Suc (image_next im),
                   image_heap := (image_heap im)(image_next im := zeroImageInfo)\<rparr>"
    using assms(2) by (auto simp: image_pool_Get_def Let_def split: option.splits if_splits)
  then show "image_inv im'"
  proof cases
    case 1
    then show ?thesis using assms(1) p [OF 1(1)] by (auto simp: image_inv_def simp del: set_append)
  next
    case 2
    then show ?thesis using assms(1) cache imgs unfolding image_inv_def
      by (simp add: less_Suc_eq)
  qed
qed

lemma store_image_inv [inv_intros]:
  assumes "image_inv im"
  shows "image_inv (store_image choice b sz name im)"
proof (cases "b \<noteq> 0 \<and> sz \<noteq> 0 \<and> cm_load b (images im) = None")
  case False
  then show ?thesis using assms
    by (auto simp: store_image_def intro!: image_inv_upd split: option.split)
next
  case True
  obtain n im1 where i1: "internImageName (filepath_Base name) im = (n, im1)" by force
  note I = internImageName_spec [OF assms i1]
  obtain r im2 where i2: "image_pool_Get choice im1 = (r, im2)" by force
  note P = image_pool_Get_spec [OF I(2) i2]
  let ?f = "\<lambda>i. i\<lparr>ImageBase := b, ImageSize := sz, ImageName := n, RefCount := 1\<rparr>"
  let ?t = "(upd_image r ?f im2)\<lparr>images := cm_store b r (images im2)\<rparr>"
  have t: "store_image choice b sz name im = ?t"
    using True i1 i2 by (simp add: store_image_def Let_def upd_image_def)
  have b: "cm_load b (images im2) = None" using True P(5) I(3) by simp
  have cache: "q \<noteq> r \<and> ImageBase (image_heap im2 q) \<noteq> b" if "cm_load a (addressCache im2) = Some q" for a q
    using image_invD(2) [OF P(1) that] P(4) b by auto
  have "image_inv ?t"
    using P(1-4) cache b unfolding image_inv_def upd_image_def
    by (auto split: if_splits)
  then show ?thesis by (simp add: t)
qed

lemma unload_image_inv [inv_intros]:
  assumes "image_inv im"
  shows "image_inv (unload_image b gen im)"
proof (cases "cm_load b (images im)")
  case (Some r)
  let ?im1 = "upd_image r (\<lambda>i. i\<lparr>RefCount := RefCount i - 1\<rparr>) im"
  have "image_inv ?im1" by (rule image_inv_upd [OF assms]) simp_all
  moreover have "cm_load b (images ?im1) = Some r" using Some by (simp add: upd_image_def)
  ultimately show ?thesis using Some
    by (auto simp: unload_image_def Let_def image_inv_def split: if_splits)
qed (use assms in \<open>simp add: unload_image_def\<close>)

lemma RemoveImage_inv [inv_intros]:
  assumes "image_inv im"
  shows "image_inv (RemoveImage b im)"
proof (cases "cm_load b (images im)")
  case None
  then show ?thesis using assms by (auto simp: RemoveImage_def image_inv_def)
next
  case (Some r)
  note r = image_invD(1) [OF assms Some]
  have cache: "cm_load a (snd (cm_sweep (\<lambda>c. c = r) (addressCache im))) = Some q \<longleftrightarrow>
      cm_load a (addressCache im) = Some q \<and> q \<noteq> r" for a q
    using cm_load_sweep [OF image_invD(6) [OF assms], of a "\<lambda>c. c = r"] by (auto split: option.splits)
  have other: "ImageBase (image_heap im q) \<noteq> b" if "cm_load a (addressCache im) = Some q" "q \<noteq> r" for a q
    using image_invD(2) [OF assms that(1)] that(2) Some by auto
  have bases: "q \<noteq> r" if "cm_load c (images im) = Some q" "c \<noteq> b" for c q
    using that image_invD(1) [OF assms that(1)] r by auto
  show ?thesis
    using assms r cache other bases cm_sweep_hits(3) [OF image_invD(6) [OF assms]]
    unfolding image_inv_def by (simp add: RemoveImage_def Some) blast
qed

lemma GetImageForAddress_inv [inv_intros]:
  assumes "image_inv im"
  shows "image_inv (snd (GetImageForAddress a im))"
proof -
  have "covers (image_heap im r) a \<and> cm_load (ImageBase (image_heap im r)) (images im) = Some r"
    if "find (\<lambda>(_, r). covers (image_heap im r) a) (cm_entries (images im)) = Some (b, r)" for b r
  proof -
    from that have "(b, r) \<in> set (images im)" "covers (image_heap im r) a"
      by (auto simp: find_Some_iff cm_entries_def in_set_conv_nth)
    then show ?thesis
      using image_invD(1) [OF assms, of b r] cm_entries_load [OF image_invD(5) [OF assms]] by auto
  qed
  then show ?thesis using assms
    by (auto simp: GetImageForAddress_def image_inv_def split: option.split if_splits)
qed

lemma terminated_bases:
  "cm_range (\<lambda>l b g. (if g < gen then l @ [b] else l, True)) m l0 = l0 @ map fst (filter (\<lambda>(b, g). g < gen) m)"
  by (induction m arbitrary: l0) (auto simp: cm_range_def cm_entries_def)

lemma IM_cleanupTerminated_inv [inv_intros]:
  "image_inv im \<Longrightarrow> image_inv (snd (IM_cleanupTerminated gen im))"
  unfolding IM_cleanupTerminated_def Let_def snd_conv by (rule fold_invariant) (auto intro: RemoveImage_inv)


section \<open>Address lookup\<close>

text \<open>The specification: the loaded image that covers the address, searched without a cache.\<close>

definition linear_search :: "u64 \<Rightarrow> image_manager \<Rightarrow> ref option" where
  "linear_search a im = map_option snd (find (\<lambda>(_, r). covers (image_heap im r) a) (cm_entries (images im)))"

definition images_disjoint :: "image_manager \<Rightarrow> bool" where
  "images_disjoint im \<longleftrightarrow> (\<forall>b c r q a. cm_load b (images im) = Some r \<longrightarrow> cm_load c (images im) = Some q \<longrightarrow>
     covers (image_heap im r) a \<longrightarrow> covers (image_heap im q) a \<longrightarrow> r = q)"

lemma linear_search_Some:
  "linear_search a im = Some r \<Longrightarrow> cm_invar (images im) \<Longrightarrow>
   (\<exists>b. cm_load b (images im) = Some r) \<and> covers (image_heap im r) a"
  by (auto simp: linear_search_def find_Some_iff cm_entries_def simp flip: cm_entries_load
      dest!: nth_mem)

lemma linear_search_None:
  "linear_search a im = None \<Longrightarrow> cm_load b (images im) = Some r \<Longrightarrow> \<not> covers (image_heap im r) a"
  by (auto simp: linear_search_def find_None_iff cm_entries_def dest: cm_load_Some_entry)

lemma GetImageForAddress_eq:
  "GetImageForAddress a im =
     (case cm_load a (addressCache im) of
        Some r \<Rightarrow> (Some r, im)
      | None \<Rightarrow> (case linear_search a im of
                   Some r \<Rightarrow> (Some r, im\<lparr>addressCache := cm_store a r (addressCache im)\<rparr>)
                 | None \<Rightarrow> (None, im)))"
  by (auto simp: GetImageForAddress_def linear_search_def split: option.split)

lemma GetImageForAddress_frame [simp]:
  "images (snd (GetImageForAddress a im)) = images im"
  "image_heap (snd (GetImageForAddress a im)) = image_heap im"
  "imageInfoPool (snd (GetImageForAddress a im)) = imageInfoPool im"
  "terminatedImages (snd (GetImageForAddress a im)) = terminatedImages im"
  by (auto simp: GetImageForAddress_eq split: option.split)

text \<open>What the lookup returns is loaded and covers the address.\<close>

lemma GetImageForAddress_covers:
  assumes "image_inv im" and "fst (GetImageForAddress a im) = Some r"
  shows "\<exists>b. cm_load b (images im) = Some r" and "covers (image_heap im r) a"
  using assms image_invD(2) [OF assms(1), of a r] linear_search_Some [of a im r] image_invD(5) [OF assms(1)]
  by (auto simp: GetImageForAddress_eq split: option.splits)

lemma GetImageForAddress_found:
  assumes "image_inv im" and "cm_load b (images im) = Some r" and "covers (image_heap im r) a"
  shows "fst (GetImageForAddress a im) \<noteq> None"
  using assms linear_search_None [of a im b r]
  by (auto simp: GetImageForAddress_eq split: option.split)

text \<open>With disjoint images the cached lookup is the linear search.\<close>

lemma GetImageForAddress_linear:
  assumes "image_inv im" and "images_disjoint im"
  shows "fst (GetImageForAddress a im) = linear_search a im"
proof (cases "cm_load a (addressCache im)")
  case (Some r)
  note r = image_invD(2) [OF assms(1) Some]
  obtain q where q: "linear_search a im = Some q"
    using r linear_search_None [of a im "ImageBase (image_heap im r)" r] by blast
  then have "q = r"
    using r linear_search_Some [OF q image_invD(5) [OF assms(1)]] assms(2)
    unfolding images_disjoint_def by blast
  then show ?thesis using Some q by (simp add: GetImageForAddress_eq)
qed (simp add: GetImageForAddress_eq split: option.split)

text \<open>A second lookup of the same address is answered from the cache with the same image.\<close>

lemma GetImageForAddress_repeat:
  "fst (GetImageForAddress a (snd (GetImageForAddress a im))) = fst (GetImageForAddress a im)"
  by (auto simp: GetImageForAddress_eq linear_search_def split: option.split)

text \<open>After a removal the image is gone from the map, from the cache and from every lookup.\<close>

lemma RemoveImage_gone:
  assumes "image_inv im" and "cm_load b (images im) = Some r"
  shows "fst (GetImageForAddress a (RemoveImage b im)) \<noteq> Some r"
proof
  assume g: "fst (GetImageForAddress a (RemoveImage b im)) = Some r"
  obtain c where "cm_load c (images (RemoveImage b im)) = Some r"
    using GetImageForAddress_covers(1) [OF RemoveImage_inv [OF assms(1)] g] by blast
  then show False
    using assms(2) image_invD(1) [OF assms(1), of b r] image_invD(1) [OF assms(1), of c r]
    by (auto simp: RemoveImage_def split: if_splits)
qed

text \<open>Clean-up removes exactly the images that were marked before the generation.\<close>

lemma RemoveImage_load:
  "cm_load c (images (RemoveImage b im)) = (if c = b then None else cm_load c (images im))"
  "cm_load c (terminatedImages (RemoveImage b im)) = (if c = b then None else cm_load c (terminatedImages im))"
  by (auto simp: RemoveImage_def split: option.split)

lemma fold_RemoveImage_load:
  "cm_load c (images (fold RemoveImage bs im)) = (if c \<in> set bs then None else cm_load c (images im))"
  "cm_load c (terminatedImages (fold RemoveImage bs im)) =
     (if c \<in> set bs then None else cm_load c (terminatedImages im))"
  by (induction bs arbitrary: im) (auto simp: RemoveImage_load)

lemma IM_cleanupTerminated_load:
  assumes "image_inv im"
  shows "cm_load c (images (snd (IM_cleanupTerminated gen im))) =
    (case cm_load c (terminatedImages im) of
       Some g \<Rightarrow> if g < gen then None else cm_load c (images im)
     | None \<Rightarrow> cm_load c (images im))"
  using cm_entries_load [OF image_invD(7) [OF assms]]
  by (auto simp: IM_cleanupTerminated_def terminated_bases fold_RemoveImage_load image_iff split: option.split)


section \<open>Properties\<close>



text \<open>C21. After an image is removed no lookup returns it any more, whatever the cache held, and the
  clean-up of terminated images removes exactly those marked in an earlier generation.\<close>

theorem removed_image_unreachable:
  assumes "image_inv im" and "cm_load b (images im) = Some r"
  shows "fst (GetImageForAddress a (RemoveImage b im)) \<noteq> Some r
    \<and> cm_load c (images (snd (IM_cleanupTerminated gen im))) =
        (case cm_load c (terminatedImages im) of
           Some g \<Rightarrow> if g < gen then None else cm_load c (images im)
         | None \<Rightarrow> cm_load c (images im))"
  using RemoveImage_gone [OF assms] IM_cleanupTerminated_load [OF assms(1)] by blast

theorem removed_image_unreachable_witness:
  "fst (GetImageForAddress 4100 (RemoveImage 4096
     (snd (GetImageForAddress 4100 (store_image None 4096 256 ''a.dll'' newImageManager))))) \<noteq> Some 0"
proof -
  let ?im = "store_image None 4096 256 ''a.dll'' newImageManager"
  have inv: "image_inv (snd (GetImageForAddress 4100 ?im))"
    by (intro GetImageForAddress_inv store_image_inv) simp
  have i: "cm_load 4096 (images (snd (GetImageForAddress 4100 ?im))) = Some 0"
    by (simp add: store_image_def newImageManager_def image_pool_Get_def internImageName_def cm_load_or_store_def upd_image_def)
  from removed_image_unreachable [OF inv i] show ?thesis by blast
qed

end
