(* ===== verification/State_Manager.thy ===== *)
theory State_Manager
  imports Image_Manager
begin

text \<open>
  \<open>s_state_manager.go\<close>: the orchestrator. It owns the scrape generation, the adaptive grace
  period and the coordinated clean-up, and it is the state machine whose steps are the
  operations that the event handlers, the scrape handler and the watchdog call.

  The wall clock is an argument of the operations that read it. \<open>time.Duration\<close> sums wrap at
  64 bits. \<open>Seconds()\<close> and \<open>math.Ceil\<close> are computed exactly, without the rounding of
  \<open>float64\<close>.
\<close>

section \<open>The adaptive grace period\<close>

definition wrap64 :: "int \<Rightarrow> int" where
  "wrap64 x = sint (word_of_int x :: 64 word)"

definition ceil_div :: "int \<Rightarrow> int \<Rightarrow> int" where
  "ceil_div a b = (a + b - 1) div b"

definition average_duration :: "duration list \<Rightarrow> nat \<Rightarrow> duration" where
  "average_duration durations sampleCount =
     (if sampleCount > 0
      then trunc_div (fold (\<lambda>d total. wrap64 (total + d)) (take sampleCount durations) 0) (int sampleCount)
      else 0)"

definition grace_generations :: "duration \<Rightarrow> u64" where
  "grace_generations avgScrapeDuration =
     (if avgScrapeDuration > 0
      then let g = (word_of_int (ceil_div minTerminationGracePeriod avgScrapeDuration) :: u64)
           in if g < 1 then 1 else g
      else 1)"

definition calculateAdaptiveCleanupThreshold :: "go_time \<Rightarrow> u64 \<Rightarrow> ksm \<Rightarrow> (u64 \<times> ksm) option" where
  "calculateAdaptiveCleanupThreshold now currentScrape s =
     (let dur = time_Sub now (lastScrapeTime s)
      in if lastScrapeIndex s < length (scrapeDurations s)
         then
           let durations = (scrapeDurations s)[lastScrapeIndex s := dur];
               idx = Suc (lastScrapeIndex s);
               wrapped = (idx \<ge> scrapeDurationSamples);
               s1 = s\<lparr>lastScrapeTime := now, scrapeDurations := durations,
                      lastScrapeIndex := (if wrapped then 0 else idx),
                      scrapeDurationsFull := (scrapeDurationsFull s \<or> wrapped)\<rparr>;
               sampleCount = (if \<not> scrapeDurationsFull s1 then lastScrapeIndex s1 else scrapeDurationSamples);
               grace = grace_generations (average_duration durations sampleCount)
           in Some (if dur > minTerminationGracePeriod * 2 then currentScrape
                    else if currentScrape > grace then currentScrape - grace
                    else 0, s1)
         else None)"


section \<open>The coordinated clean-up\<close>

definition PostScrapeCleanup :: "go_time \<Rightarrow> ksm \<Rightarrow> ksm option" where
  "PostScrapeCleanup now s0 =
     (let s = s0\<lparr>scrapeCounter := scrapeCounter s0 + 1\<rparr>
      in case calculateAdaptiveCleanupThreshold now (scrapeCounter s) s of
           None \<Rightarrow> None
         | Some (cleanupThreshold, s1) \<Rightarrow>
             let s2 = s1\<lparr>Diag := ReportTrackedProcToConsole now (Diag s1)\<rparr>
             in case cm_sweep (\<lambda>terminatedAtGeneration. terminatedAtGeneration < cleanupThreshold)
                       (terminatedProcesses (Processes s2)) of
                  (hit, rest) \<Rightarrow>
                    let procsToClean = map fst hit;
                        s3 = s2\<lparr>Processes := (Processes s2)\<lparr>terminatedProcesses := rest\<rparr>\<rparr>;
                        cleaned =
                          (if procsToClean \<noteq> []
                           then map_option (\<lambda>t. snd (cleanupProcesses procsToClean t))
                                  (cleanupThreadsForTerminatedProcesses procsToClean s3)
                           else Some s3)
                    in case cleaned of
                         None \<Rightarrow> None
                       | Some s4 \<Rightarrow>
                           (case TM_cleanupTerminated cleanupThreshold s4 of
                              None \<Rightarrow> None
                            | Some (_, s5) \<Rightarrow>
                                Some (s5\<lparr>Images := snd (IM_cleanupTerminated cleanupThreshold (Images s5))\<rparr>)))"

text \<open>One tick of the watchdog.\<close>

definition watchdog_tick :: "go_time \<Rightarrow> ksm \<Rightarrow> ksm option" where
  "watchdog_tick now s =
     (if time_Sub now (lastScrapeTime s) > 3 * 3600 * second then PostScrapeCleanup now s else Some s)"


section \<open>Other operations of the facade\<close>

definition RecordHardPageFaultForThread :: "u32 \<Rightarrow> u32 \<Rightarrow> ksm \<Rightarrow> ksm option" where
  "RecordHardPageFaultForThread tid pid s =
     (case GetCurrentProcessDataByThread tid s of
        Some None \<Rightarrow> None
      | Some (Some r) \<Rightarrow> Some (upd_obj r RecordHardPageFault s)
      | None \<Rightarrow>
          (case GetProcessDataBySK UnknownProcessStartKey s of
             Some r \<Rightarrow> Some (upd_obj r RecordHardPageFault s)
           | None \<Rightarrow> Some s))"

text \<open>The service snapshot is the result of \<open>windowsapi.GetRunningServicesSnapshot\<close>.\<close>

fun apply_services_loop :: "(u32 \<times> string) list \<Rightarrow> ksm \<Rightarrow> ksm option" where
  "apply_services_loop [] s = Some s"
| "apply_services_loop ((pid, serviceName) # xs) s =
     (case GetTagForService serviceName s of
        (tag, True) \<Rightarrow>
          (case GetCurrentProcessDataByPID pid s of
             Some (Some r) \<Rightarrow> apply_services_loop xs (resolveAndApplyServiceName r tag s)
           | Some None \<Rightarrow> (if tag = 0 then apply_services_loop xs s else None)
           | None \<Rightarrow> apply_services_loop xs s)
      | (_, False) \<Rightarrow> apply_services_loop xs s)"

definition ApplyServices :: "(u32 \<times> string) list option \<Rightarrow> ksm \<Rightarrow> ksm option" where
  "ApplyServices serviceMap s =
     (case serviceMap of None \<Rightarrow> Some s | Some xs \<Rightarrow> apply_services_loop xs s)"

definition EnableProcessManager :: "bool \<Rightarrow> ksm \<Rightarrow> ksm" where
  "EnableProcessManager enable s = s\<lparr>Processes := (Processes s)\<lparr>PM_Enabled := enable\<rparr>\<rparr>"

definition GetTerminatedCounts :: "ksm \<Rightarrow> nat \<times> nat \<times> nat" where
  "GetTerminatedCounts s =
     (GetTerminatedProcessCount s, TM_GetTerminatedCount s, IM_GetTerminatedCount (Images s))"

text \<open>\<open>GetGlobalStateManager\<close>: the state after initialisation at time \<open>now\<close>. Object 0 is the
  "unknown process".\<close>

definition zeroDiagnostics :: diagnostics where
  "zeroDiagnostics = \<lparr>threadsAdded = 0, processesAdded = 0, servicesEnriched = 0,
     newProcesses = cm_empty, ConsoleHistory = []\<rparr>"

definition GetGlobalStateManager :: "go_time \<Rightarrow> ksm" where
  "GetGlobalStateManager now = \<lparr>heap = (\<lambda>_. newProcessData)(0 := unknown_process now), next_ref = 1,
     Processes = newProcessManager, Threads = newThreadManager, Images = newImageManager,
     Services = newServiceManager, aggregatedData = None, scrapeCounter = 0, lastScrapeTime = now,
     scrapeDurations = replicate scrapeDurationSamples 0, lastScrapeIndex = 0,
     scrapeDurationsFull = False, serviceListOnce = False, Diag = zeroDiagnostics\<rparr>"


section \<open>The invariant of the state manager\<close>

definition clock_inv :: "ksm \<Rightarrow> bool" where
  "clock_inv s \<longleftrightarrow> length (scrapeDurations s) = scrapeDurationSamples \<and> lastScrapeIndex s < scrapeDurationSamples"

definition ksm_inv :: "ksm \<Rightarrow> bool" where
  "ksm_inv s \<longleftrightarrow> proc_inv s \<and> thread_inv s \<and> image_inv (Images s) \<and> service_inv s \<and> clock_inv s"

lemma ksm_inv_init [simp]: "ksm_inv (GetGlobalStateManager now)"
  by (auto simp: ksm_inv_def proc_parts thread_inv_def service_inv_def clock_inv_def ref_live_def
      start_key_def GetGlobalStateManager_def newProcessManager_def newThreadManager_def
      newServiceManager_def unknown_process_def wf_Reset_new scrapeDurationSamples_def Let_def)

lemma ksm_invD:
  assumes "ksm_inv s"
  shows "proc_inv s" and "thread_inv s" and "image_inv (Images s)" and "service_inv s" and "clock_inv s"
  using assms by (simp_all add: ksm_inv_def)

text \<open>\<open>same_rest\<close>: the parts an operation on processes or threads leaves alone.\<close>

lemma service_inv_cong: "Services t = Services s \<Longrightarrow> service_inv s \<Longrightarrow> service_inv t"
  by (simp add: service_inv_def)

lemma clock_inv_cong:
  "scrapeDurations t = scrapeDurations s \<Longrightarrow> lastScrapeIndex t = lastScrapeIndex s \<Longrightarrow>
   clock_inv s \<Longrightarrow> clock_inv t"
  by (simp add: clock_inv_def)

definition clock_same :: "ksm \<Rightarrow> ksm \<Rightarrow> bool" where
  "clock_same s t \<longleftrightarrow> scrapeDurations t = scrapeDurations s \<and> lastScrapeIndex t = lastScrapeIndex s
     \<and> Services t = Services s"

lemma clock_same_inv:
  "clock_same s t \<Longrightarrow> service_inv s \<Longrightarrow> service_inv t" "clock_same s t \<Longrightarrow> clock_inv s \<Longrightarrow> clock_inv t"
  by (auto simp: clock_same_def service_inv_def clock_inv_def)

lemma clock_same_upd [simp]: "clock_same s (upd_obj r f s)" "clock_same s (upd_info r g s)"
  by (simp_all add: clock_same_def upd_info_def upd_obj_def)

lemma only_threads_clock: "only_threads s t \<Longrightarrow> clock_same s t"
proof -
  assume "only_threads s t"
  then obtain tm where "t = s\<lparr>Threads := tm\<rparr>" by (auto simp: only_threads_def)
  then show ?thesis by (simp add: clock_same_def)
qed

lemma clock_same_pool_Get: "pool_Get choice s = (r, t) \<Longrightarrow> clock_same s t"
  by (auto simp: clock_same_def pool_Get_def Let_def split: option.splits if_splits)

lemma clock_same_AddProcess: "clock_same s (AddProcess choice pid sk name parent session now s)"
proof (cases "cm_load sk (instanceData (Processes s))")
  case None
  obtain r s1 where "pool_Get choice s = (r, s1)" by force
  with clock_same_pool_Get [OF this] None show ?thesis
    by (simp add: AddProcess_def Let_def) (simp add: clock_same_def upd_info_def upd_obj_def)
qed (simp add: AddProcess_known)

lemma clock_same_Mark: "clock_same s (MarkProcessForDeletion pid sk time s)"
  by (simp add: MarkProcessForDeletion_def Let_def clock_same_def upd_info_def upd_obj_def split: option.split)

lemma clock_same_Enrich: "clock_same s (EnrichProcessWithImageData pid c name s)"
  by (simp add: EnrichProcessWithImageData_def split: option.split) (simp add: clock_same_def)

lemma clock_same_resolve: "clock_same s (resolveAndApplyServiceName r tag s)"
  by (simp add: resolveAndApplyServiceName_def)

lemma clock_same_unknown: "clock_same s (attribute_unknown tid s)"
  by (simp add: attribute_unknown_def store_thread_def clock_same_def split: option.split)

lemma clock_same_AddThread: "AddThread tid pid time tag s = Some t \<Longrightarrow> clock_same s t"
  using clock_same_unknown [of s tid]
  by (auto simp: AddThread_def Let_def split: option.splits if_splits)
    (simp add: clock_same_def resolveAndApplyServiceName_def upd_info_def upd_obj_def store_thread_def)

lemma clock_same_MarkThread: "MarkThreadForDeletion tid s = Some t \<Longrightarrow> clock_same s t"
  by (auto simp: MarkThreadForDeletion_def mark_store_def clock_same_def split: option.splits)

lemma AddProcess_inv_all [inv_intros]:
  assumes "ksm_inv s"
  shows "ksm_inv (AddProcess choice pid sk name parent session now s)"
proof -
  let ?t = "AddProcess choice pid sk name parent session now s"
  note I = ksm_invD [OF assms]
  have "Threads ?t = Threads s \<and> Images ?t = Images s"
  proof (cases "cm_load sk (instanceData (Processes s))")
    case None
    have "pool_ok s" using I(1) by (simp add: proc_inv_def proc_inv_core_def)
    then show ?thesis using AddProcess_new [OF _ None] createsD(11,12) by blast
  qed (simp add: AddProcess_known)
  then show ?thesis
    using I AddProcess_inv [OF I(1)] AddProcess_live(1) [OF I(1)]
      clock_same_inv [OF clock_same_AddProcess] thread_inv_live [OF I(2), of ?t]
    by (simp add: ksm_inv_def)
qed

lemma MarkProcess_inv_all [inv_intros]: "ksm_inv s \<Longrightarrow> ksm_inv (MarkProcessForDeletion pid sk time s)"
  using thread_inv_live [of s "MarkProcessForDeletion pid sk time s"] clock_same_inv [OF clock_same_Mark]
  by (simp add: ksm_inv_def MarkProcessForDeletion_inv)

lemma Enrich_inv_all [inv_intros]: "ksm_inv s \<Longrightarrow> ksm_inv (EnrichProcessWithImageData pid c name s)"
  using thread_inv_live [of s "EnrichProcessWithImageData pid c name s"] clock_same_inv [OF clock_same_Enrich]
  by (simp add: ksm_inv_def EnrichProcessWithImageData_inv)

lemma resolve_inv_all [inv_intros]: "ksm_inv s \<Longrightarrow> ksm_inv (resolveAndApplyServiceName r tag s)"
  using thread_inv_live [of s "resolveAndApplyServiceName r tag s"] clock_same_inv [OF clock_same_resolve]
  by (simp add: ksm_inv_def resolveAndApply_inv)

lemma AddThread_inv_all:
  assumes "ksm_inv s"
  shows "\<exists>t. AddThread tid pid time tag s = Some t \<and> ksm_inv t"
  using AddThread_inv [OF ksm_invD(1,2) [OF assms]] assms clock_same_inv [OF clock_same_AddThread]
  unfolding ksm_inv_def by metis

lemma MarkThread_inv_all:
  assumes "ksm_inv s"
  shows "\<exists>t. MarkThreadForDeletion tid s = Some t \<and> ksm_inv t"
  using MarkThreadForDeletion_inv [OF ksm_invD(1,2) [OF assms]] assms clock_same_inv [OF clock_same_MarkThread]
  unfolding ksm_inv_def by metis

lemma ksm_inv_Images:
  "ksm_inv s \<Longrightarrow> image_inv im \<Longrightarrow> ksm_inv (s\<lparr>Images := im\<rparr>)"
  by (simp add: ksm_inv_def proc_parts thread_inv_def ref_live_def start_key_def service_inv_def clock_inv_def)

lemma AddImage_inv_all [inv_intros]: "ksm_inv s \<Longrightarrow> ksm_inv (AddImage choice pid b sz name ts c s)"
  by (simp add: AddImage_def Let_def ksm_inv_Images store_image_inv ksm_invD(3) Enrich_inv_all)

lemma UnloadImage_inv_all [inv_intros]: "ksm_inv s \<Longrightarrow> ksm_inv (UnloadImage b s)"
  by (simp add: UnloadImage_def ksm_inv_Images unload_image_inv ksm_invD(3))

lemma RegisterServiceTag_inv_all [inv_intros]: "ksm_inv s \<Longrightarrow> ksm_inv (RegisterServiceTag tag name s)"
  using RegisterServiceTag_inv [of s tag name]
  by (simp add: ksm_inv_def)
    (simp add: RegisterServiceTag_def proc_parts thread_inv_def ref_live_def start_key_def clock_inv_def)

lemma upd_obj_inv_all [inv_intros]:
  assumes "keeps_identity f" and "ksm_inv s"
  shows "ksm_inv (upd_obj r f s)"
  using assms thread_inv_live [of s "upd_obj r f s"] clock_same_inv [OF clock_same_upd(1)]
  by (simp add: ksm_inv_def upd_obj_proc_inv(2) upd_obj_identity(3))

lemma keeps_identity_HardPageFault [simp]: "keeps_identity RecordHardPageFault"
  by (simp add: keeps_identity_def RecordHardPageFault_def wf_process_data_def)

lemma RecordHardPageFaultForThread_inv_all:
  assumes "ksm_inv s"
  shows "\<exists>t. RecordHardPageFaultForThread tid pid s = Some t \<and> ksm_inv t"
  using assms thread_invD(3) [OF ksm_invD(2) [OF assms], of tid]
  by (auto simp: RecordHardPageFaultForThread_def GetCurrentProcessDataByThread_def upd_obj_inv_all
      split: option.split)

lemma apply_services_loop_inv_all: "ksm_inv s \<Longrightarrow> \<exists>t. apply_services_loop xs s = Some t \<and> ksm_inv t"
proof (induction xs arbitrary: s)
  case (Cons x xs)
  obtain pid name where x: "x = (pid, name)" by force
  note pids = proc_inv_pid [OF ksm_invD(1) [OF Cons.prems], of pid]
  obtain tag b where g: "GetTagForService name s = (tag, b)" by force
  show ?case
  proof (cases "b \<and> GetCurrentProcessDataByPID pid s \<noteq> None")
    case True
    then obtain r where r: "GetCurrentProcessDataByPID pid s = Some (Some r)"
      using pids by (auto simp: GetCurrentProcessDataByPID_def)
    have "ksm_inv (resolveAndApplyServiceName r tag s)" using Cons.prems by (rule resolve_inv_all)
    then show ?thesis using Cons.IH g r True x by simp
  next
    case False
    then show ?thesis using Cons g x by (cases b) auto
  qed
qed simp

text \<open>Advancing the clock.\<close>

lemma calculate_spec:
  assumes "clock_inv s"
  shows "\<exists>th t. calculateAdaptiveCleanupThreshold now c s = Some (th, t) \<and> clock_inv t
    \<and> Processes t = Processes s \<and> heap t = heap s \<and> next_ref t = next_ref s \<and> Threads t = Threads s
    \<and> Images t = Images s \<and> Services t = Services s \<and> scrapeCounter t = scrapeCounter s"
  using assms by (auto simp: calculateAdaptiveCleanupThreshold_def Let_def clock_inv_def scrapeDurationSamples_def)

lemma ksm_inv_transfer:
  "ksm_inv s \<Longrightarrow> clock_inv t \<Longrightarrow> Processes t = Processes s \<Longrightarrow> heap t = heap s \<Longrightarrow> next_ref t = next_ref s \<Longrightarrow>
   Threads t = Threads s \<Longrightarrow> Images t = Images s \<Longrightarrow> Services t = Services s \<Longrightarrow> ksm_inv t"
  by (simp add: ksm_inv_def proc_parts thread_inv_def ref_live_def start_key_def service_inv_def)

text \<open>The process part of the clean-up, given the threshold.\<close>

definition clean_processes :: "u64 \<Rightarrow> ksm \<Rightarrow> ksm option" where
  "clean_processes th s =
     (case cm_sweep (\<lambda>g. g < th) (terminatedProcesses (Processes s)) of
        (hit, rest) \<Rightarrow>
          let procs = map fst hit; s3 = s\<lparr>Processes := (Processes s)\<lparr>terminatedProcesses := rest\<rparr>\<rparr>
          in if procs \<noteq> []
             then map_option (\<lambda>t. snd (cleanupProcesses procs t)) (cleanupThreadsForTerminatedProcesses procs s3)
             else Some s3)"

lemma PostScrapeCleanup_eq:
  "PostScrapeCleanup now s =
     (case calculateAdaptiveCleanupThreshold now (scrapeCounter s + 1) (s\<lparr>scrapeCounter := scrapeCounter s + 1\<rparr>) of
        None \<Rightarrow> None
      | Some (th, s1) \<Rightarrow>
          (case clean_processes th (s1\<lparr>Diag := ReportTrackedProcToConsole now (Diag s1)\<rparr>) of
             None \<Rightarrow> None
           | Some s4 \<Rightarrow>
               (case TM_cleanupTerminated th s4 of
                  None \<Rightarrow> None
                | Some (_, s5) \<Rightarrow> Some (s5\<lparr>Images := snd (IM_cleanupTerminated th (Images s5))\<rparr>))))"
  by (simp add: PostScrapeCleanup_def clean_processes_def Let_def split: option.split prod.split)

definition expired :: "u64 \<Rightarrow> ksm \<Rightarrow> u64 \<Rightarrow> bool" where
  "expired th s sk \<longleftrightarrow> (\<exists>g. cm_load sk (terminatedProcesses (Processes s)) = Some g \<and> g < th)"

lemma clean_processes_spec:
  assumes "ksm_inv s"
  shows "\<exists>t. clean_processes th s = Some t \<and> ksm_inv t \<and> heap t = heap s \<and> Images t = Images s
    \<and> (\<forall>sk. cm_load sk (instanceData (Processes t)) =
          (if expired th s sk then None else cm_load sk (instanceData (Processes s))))
    \<and> (\<forall>tid. thread_ptr t tid = (if (\<exists>r. thread_ptr s tid = Some (Some r) \<and> expired th s (start_key s r))
          then None else thread_ptr s tid))"
proof -
  note I = ksm_invD [OF assms]
  let ?m = "terminatedProcesses (Processes s)"
  have m: "cm_invar ?m" using I(1) by (simp add: proc_parts)
  obtain hit rest where hr: "cm_sweep (\<lambda>g. g < th) ?m = (hit, rest)" by force
  let ?procs = "map fst hit"
  let ?s3 = "s\<lparr>Processes := (Processes s)\<lparr>terminatedProcesses := rest\<rparr>\<rparr>"
  have procs: "sk \<in> set ?procs \<longleftrightarrow> expired th s sk" for sk
    using cm_sweep_hits(1) [OF m, where P = "\<lambda>g. g < th"] hr by (force simp: expired_def)
  have rest: "cm_load sk rest = (if expired th s sk then None else cm_load sk ?m)" for sk
    using cm_load_sweep [OF m, of sk "\<lambda>g. g < th"] hr by (auto simp: expired_def split: option.split)
  have rest_wf: "cm_invar rest" using cm_sweep_hits(3) [OF m, of "\<lambda>g. g < th"] hr by simp
  have inv3: "ksm_inv ?s3"
    using assms rest_wf
    by (simp add: ksm_inv_def proc_parts thread_inv_def ref_live_def start_key_def service_inv_def
        clock_inv_def rest)
  have sk3: "start_key ?s3 = start_key s" by (simp add: start_key_def fun_eq_iff)
  show ?thesis
  proof (cases "?procs = []")
    case True
    have "\<not> expired th s sk" for sk using procs [of sk] True by simp
    moreover have "clean_processes th s = Some ?s3" using True hr by (simp add: clean_processes_def Let_def)
    ultimately show ?thesis using inv3 by simp
  next
    case False
    obtain u where u: "cleanupThreadsForTerminatedProcesses ?procs ?s3 = Some u" "thread_inv u" "only_threads ?s3 u"
      "\<forall>tid. thread_ptr u tid = (if (\<exists>r. thread_ptr ?s3 tid = Some (Some r) \<and> start_key ?s3 r \<in> set ?procs)
         then None else thread_ptr ?s3 tid)"
      using cleanupThreadsForTerminatedProcesses_spec [OF ksm_invD(2) [OF inv3], of ?procs] by blast
    note U = only_threadsD [OF u(3)]
    let ?t = "fold cleanup_process ?procs u"
    have t: "clean_processes th s = Some ?t"
      using False hr u(1) by (simp add: clean_processes_def Let_def cleanupProcesses_eq)
    have "proc_inv u" using U(8) ksm_invD(1) [OF inv3] by simp
    then have "proc_inv ?t"
      by (rule fold_cleanup_inv) (simp only: procs U(1), simp add: rest)
    moreover have "thread_inv ?t"
      using u(2) cleanupThreads_unlinks [OF ksm_invD(2) [OF inv3] u(1)]
      unfolding thread_inv_def by (fastforce simp: fold_cleanup_live)
    moreover have "clock_same u ?t"
      by (rule fold_invariant [where P = "clock_same u"])
        (auto simp: clock_same_def cleanup_process_def Let_def cm_load_and_delete_eq split: option.split)
    moreover have "clock_same ?s3 u" using u(3) by (rule only_threads_clock)
    ultimately have "ksm_inv ?t"
      using clock_same_inv ksm_invD(3-5) [OF inv3] U(4) by (simp add: ksm_inv_def)
    moreover have "thread_ptr ?t tid = (if (\<exists>r. thread_ptr s tid = Some (Some r) \<and> expired th s (start_key s r))
          then None else thread_ptr s tid)" for tid
    proof -
      have "thread_ptr ?s3 tid = thread_ptr s tid" by simp
      with u(4) [unfolded procs sk3] show ?thesis by auto
    qed
    moreover have "cm_load sk (instanceData (Processes ?t)) =
          (if expired th s sk then None else cm_load sk (instanceData (Processes s)))" for sk
      unfolding fold_cleanup_load procs U(1) by simp
    ultimately show ?thesis using t U(2,4)
      by (intro exI [of _ ?t]) simp
  qed
qed

text \<open>The scrape threshold the clean-up computes in a state.\<close>

definition scrape_threshold :: "go_time \<Rightarrow> ksm \<Rightarrow> u64" where
  "scrape_threshold now s =
     (case calculateAdaptiveCleanupThreshold now (scrapeCounter s + 1) (s\<lparr>scrapeCounter := scrapeCounter s + 1\<rparr>) of
        Some (th, _) \<Rightarrow> th | None \<Rightarrow> 0)"

lemma PostScrapeCleanup_spec:
  assumes "ksm_inv s" and "th = scrape_threshold now s"
  shows "\<exists>t. PostScrapeCleanup now s = Some t \<and> ksm_inv t
    \<and> (\<forall>sk. cm_load sk (instanceData (Processes t)) =
          (if expired th s sk then None else cm_load sk (instanceData (Processes s))))
    \<and> (\<forall>tid p. thread_ptr t tid = Some p \<longrightarrow> thread_ptr s tid = Some p
          \<and> (\<forall>r. p = Some r \<longrightarrow> \<not> expired th s (start_key s r)))
    \<and> heap t = heap s"
proof -
  let ?s0 = "s\<lparr>scrapeCounter := scrapeCounter s + 1\<rparr>"
  obtain s1 where c: "calculateAdaptiveCleanupThreshold now (scrapeCounter s + 1) ?s0 = Some (th, s1)"
    "clock_inv s1" "Processes s1 = Processes s" "heap s1 = heap s" "next_ref s1 = next_ref s"
    "Threads s1 = Threads s" "Images s1 = Images s" "Services s1 = Services s"
    using calculate_spec [of ?s0 now "scrapeCounter s + 1"] ksm_invD(5) [OF assms(1)] assms(2)
    by (auto simp: scrape_threshold_def clock_inv_def)
  let ?s2 = "s1\<lparr>Diag := ReportTrackedProcToConsole now (Diag s1)\<rparr>"
  have inv2: "ksm_inv ?s2"
    by (rule ksm_inv_transfer [OF assms(1)]) (use c in \<open>simp_all add: clock_inv_def\<close>)
  have e: "expired th ?s2 sk = expired th s sk" "start_key ?s2 r = start_key s r" for sk r
    using c by (simp_all add: expired_def start_key_def)
  obtain s4 where s4: "clean_processes th ?s2 = Some s4" "ksm_inv s4" "heap s4 = heap ?s2"
    "\<forall>sk. cm_load sk (instanceData (Processes s4)) =
          (if expired th ?s2 sk then None else cm_load sk (instanceData (Processes ?s2)))"
    "\<forall>tid. thread_ptr s4 tid = (if (\<exists>r. thread_ptr ?s2 tid = Some (Some r) \<and> expired th ?s2 (start_key ?s2 r))
          then None else thread_ptr ?s2 tid)"
    using clean_processes_spec [OF inv2, of th] by blast
  obtain n s5 where s5: "TM_cleanupTerminated th s4 = Some (n, s5)" "thread_inv s5" "only_threads s4 s5"
    "\<forall>tid. thread_ptr s5 tid = None \<or> thread_ptr s5 tid = thread_ptr s4 tid"
    using TM_cleanupTerminated_spec [OF ksm_invD(2) [OF s4(2)], of th] by (smt (verit))
  have inv5: "ksm_inv s5"
    using s5(2,3) s4(2) only_threadsD [OF s5(3)] clock_same_inv [OF only_threads_clock [OF s5(3)]]
    by (simp add: ksm_inv_def)
  let ?t = "s5\<lparr>Images := snd (IM_cleanupTerminated th (Images s5))\<rparr>"
  have "PostScrapeCleanup now s = Some ?t"
    using c(1) s4(1) s5(1) by (simp add: PostScrapeCleanup_eq)
  moreover have "ksm_inv ?t"
    using inv5 by (intro ksm_inv_Images IM_cleanupTerminated_inv ksm_invD(3))
  moreover have "cm_load sk (instanceData (Processes ?t)) =
      (if expired th s sk then None else cm_load sk (instanceData (Processes s)))" for sk
    using s4(4) c(3) only_threadsD(1) [OF s5(3)] by (simp add: e)
  moreover have "thread_ptr s tid = Some p \<and> (\<forall>r. p = Some r \<longrightarrow> \<not> expired th s (start_key s r))"
    if "thread_ptr ?t tid = Some p" for tid p
  proof -
    have p: "thread_ptr s4 tid = Some p" using that s5(4) [rule_format, of tid] by auto
    have "thread_ptr ?s2 tid = thread_ptr s tid" using c(6) by simp
    with p s4(5) [rule_format, of tid] show ?thesis by (auto simp: e split: if_splits)
  qed
  moreover have "heap ?t = heap s" using s4(3) c(4) only_threadsD(2) [OF s5(3)] by simp
  ultimately show ?thesis by blast
qed


section \<open>Properties\<close>

text \<open>A small concrete state: process 500 with start key 7 and its thread 11.\<close>

definition sample_state :: ksm where
  "sample_state = AddProcess None 500 7 ''app.exe'' 4 1 (2 * second) (GetGlobalStateManager 0)"

lemma sample_state_inv: "ksm_inv sample_state"
  by (simp add: sample_state_def AddProcess_inv_all)

lemmas sample_state_simps = sample_state_def AddProcess_def GetGlobalStateManager_def newProcessManager_def
  pool_Get_def UnknownProcessStartKey_def upd_info_def upd_obj_def

text \<open>C16. A start event for an unknown start key makes a process object that both maps find, with
  every counter at zero and every identity field set, whether the object is new or recycled
  from the pool; no other live process changes.\<close>

theorem AddProcess_fresh:
  assumes "ksm_inv s" and "GetProcessDataBySK sk s = None"
  shows "\<exists>r. GetProcessDataBySK sk (AddProcess choice pid sk name parent session now s) = Some r
    \<and> GetCurrentProcessDataByPID pid (AddProcess choice pid sk name parent session now s) = Some (Some r)
    \<and> heap (AddProcess choice pid sk name parent session now s) r =
        newProcessData\<lparr>Info := \<lparr>PID = pid, StartKey = sk, Name = name, ServiceName = '''', SubProcessTag = 0,
          CreateTime = now, TerminationTime = 0, LastSeen = now, ParentPID = parent,
          SessionID = (if session = 0xFFFFFFFF \<or> pid = 4 then 0 else session), UniqueHash = 0\<rparr>\<rparr>
    \<and> (\<forall>k q. GetProcessDataBySK k s = Some q \<longrightarrow>
          GetProcessDataBySK k (AddProcess choice pid sk name parent session now s) = Some q
          \<and> heap (AddProcess choice pid sk name parent session now s) q = heap s q)"
proof -
  let ?t = "AddProcess choice pid sk name parent session now s"
  have inv: "pool_ok s" "instances_ok s" using ksm_invD(1) [OF assms(1)] by (simp_all add: proc_inv_def proc_inv_core_def)
  have "cm_load sk (instanceData (Processes s)) = None" using assms(2) by (simp add: GetProcessDataBySK_def)
  then obtain r where r: "creates r pid sk (fresh_process pid sk name parent session now) s ?t"
    using AddProcess_new [OF inv(1)] by blast
  note C = createsD [OF r]
  have "q \<noteq> r" if "cm_load k (instanceData (Processes s)) = Some q" for k q
    using instances_okD [OF inv(2) that] C(9) by auto
  then show ?thesis using C(1,3,5) assms(2)
    by (intro exI [of _ r])
      (auto simp: GetProcessDataBySK_def GetCurrentProcessDataByPID_def fresh_process_def newProcessData_def zeroProcessInfo_def)
qed

theorem AddProcess_fresh_witness:
  "\<exists>r. GetProcessDataBySK 9 (AddProcess None 500 9 ''b.exe'' 4 1 (3 * second) sample_state) = Some r
     \<and> GetCurrentProcessDataByPID 500 (AddProcess None 500 9 ''b.exe'' 4 1 (3 * second) sample_state) = Some (Some r)"
proof -
  have "GetProcessDataBySK 9 sample_state = None"
    by (simp add: GetProcessDataBySK_def sample_state_simps)
  from AddProcess_fresh [OF sample_state_inv this, of None 500 "''b.exe''" 4 1 "3 * second"]
  show ?thesis by blast
qed


text \<open>C17. A thread start is attributed in exactly one of two ways: to the process that currently
  has the pid, when the event is later than one millisecond before that process' creation,
  and to the "unknown process" otherwise (when that is tracked). No case panics.\<close>

theorem AddThread_attribution:
  assumes "ksm_inv s" and "cm_load UnknownProcessStartKey (instanceData (Processes s)) = Some u"
  shows "\<exists>t. AddThread tid pid time tag s = Some t \<and> ksm_inv t
    \<and> GetCurrentProcessDataByThread tid t = Some (Some
        (case GetCurrentProcessDataByPID pid s of
           Some (Some r) \<Rightarrow> if time_After time (CreateTime (Info (heap s r)) - millisecond) then r else u
         | _ \<Rightarrow> u))
    \<and> (\<forall>j. j \<noteq> tid \<longrightarrow> GetCurrentProcessDataByThread j t = GetCurrentProcessDataByThread j s)"
proof -
  obtain t where t: "AddThread tid pid time tag s = Some t" "ksm_inv t"
    using AddThread_inv_all [OF assms(1)] by blast
  have p: "GetCurrentProcessDataByPID pid s \<noteq> Some None"
    using proc_inv_pid [OF ksm_invD(1) [OF assms(1)]] by (auto simp: GetCurrentProcessDataByPID_def)
  have u: "thread_ptr (attribute_unknown tid s) j = (if j = tid then Some (Some u) else thread_ptr s j)" for j
    using assms(2) by (simp add: attribute_unknown_def GetProcessDataBySK_def store_thread_def)
  show ?thesis
    using t p unfolding AddThread_def
    by (cases "GetCurrentProcessDataByPID pid s")
      (auto simp: u Let_def GetCurrentProcessDataByThread_def store_thread_def split: option.splits if_splits)
qed

theorem AddThread_attribution_witness:
  "\<exists>t. AddThread 11 500 (3 * second) 0 sample_state = Some t \<and> GetCurrentProcessDataByThread 11 t = Some (Some 1)"
proof -
  have u: "cm_load UnknownProcessStartKey (instanceData (Processes sample_state)) = Some 0"
    by (simp add: sample_state_simps)
  have "GetCurrentProcessDataByPID 500 sample_state = Some (Some 1)"
    "CreateTime (Info (heap sample_state 1)) = 2 * second"
    by (simp_all add: GetCurrentProcessDataByPID_def sample_state_simps)
  moreover have "time_After (3 * second) (2 * second - millisecond)"
    by (simp add: time_After_def second_def millisecond_def)
  ultimately show ?thesis
    using AddThread_attribution [OF sample_state_inv u, of 11 500 "3 * second" 0] by auto
qed

text \<open>C6. A scrape removes exactly the expired processes: the clean-up never panics, keeps the
  invariant of all managers, and a start key is tracked afterwards if and only if it was
  tracked before and was not marked in a generation below the threshold. A thread that is
  still tracked afterwards was tracked before and belongs to no removed process.\<close>

theorem scrape_removes_expired:
  assumes "ksm_inv s"
  shows "\<exists>t. PostScrapeCleanup now s = Some t \<and> ksm_inv t
    \<and> (\<forall>sk. GetProcessDataBySK sk t =
          (case cm_load sk (terminatedProcesses (Processes s)) of
             Some g \<Rightarrow> if g < scrape_threshold now s then None else GetProcessDataBySK sk s
           | None \<Rightarrow> GetProcessDataBySK sk s))
    \<and> (\<forall>tid p. GetCurrentProcessDataByThread tid t = Some p \<longrightarrow> GetCurrentProcessDataByThread tid s = Some p
          \<and> (\<forall>r. p = Some r \<longrightarrow> GetProcessDataBySK (start_key t r) t = Some r))"
proof -
  obtain t where t: "PostScrapeCleanup now s = Some t" "ksm_inv t"
    "\<forall>sk. cm_load sk (instanceData (Processes t)) =
          (if expired (scrape_threshold now s) s sk then None else cm_load sk (instanceData (Processes s)))"
    "\<forall>tid p. thread_ptr t tid = Some p \<longrightarrow> thread_ptr s tid = Some p"
    using PostScrapeCleanup_spec [OF assms refl, of now] by blast
  have "GetProcessDataBySK (start_key t r) t = Some r" if "thread_ptr t tid = Some (Some r)" for tid r
    using thread_invD(3) [OF ksm_invD(2) [OF t(2)] that] by (simp add: ref_live_def GetProcessDataBySK_def)
  moreover have "GetProcessDataBySK sk t = (case cm_load sk (terminatedProcesses (Processes s)) of
             Some g \<Rightarrow> if g < scrape_threshold now s then None else GetProcessDataBySK sk s
           | None \<Rightarrow> GetProcessDataBySK sk s)" for sk
    using t(3) by (simp add: GetProcessDataBySK_def expired_def split: option.split)
  ultimately show ?thesis
    using t(1,2,4) unfolding GetCurrentProcessDataByThread_def by blast
qed

theorem scrape_removes_expired_witness:
  "\<exists>t. PostScrapeCleanup (100 * second) (MarkProcessForDeletion 500 7 (3 * second) sample_state) = Some t
     \<and> GetProcessDataBySK 7 t = None \<and> GetProcessDataBySK UnknownProcessStartKey t = Some 0"
proof -
  let ?s = "MarkProcessForDeletion 500 7 (3 * second) sample_state"
  have inv: "ksm_inv ?s" by (rule MarkProcess_inv_all [OF sample_state_inv])
  have "scrape_threshold (100 * second) ?s = 1"
    by (simp add: scrape_threshold_def calculateAdaptiveCleanupThreshold_def sample_state_simps
        MarkProcessForDeletion_def scrapeDurationSamples_def Let_def time_Sub_def minTerminationGracePeriod_def
        second_def min_duration_def max_duration_def)
  moreover have "cm_load 7 (terminatedProcesses (Processes ?s)) = Some 0"
    "cm_load UnknownProcessStartKey (terminatedProcesses (Processes ?s)) = None"
    "GetProcessDataBySK UnknownProcessStartKey ?s = Some 0"
    by (simp_all add: sample_state_simps MarkProcessForDeletion_def GetProcessDataBySK_def)
  ultimately show ?thesis
    using scrape_removes_expired [OF inv, of "100 * second"] by auto
qed




lemma grace_ge_1: "1 \<le> grace_generations avg"
  by (simp add: grace_generations_def Let_def) (metis linorder_not_less word_less_1)

lemma word_sub_grace:
  fixes g c :: u64
  assumes "g < c" and "1 \<le> g"
  shows "c - g \<le> c - 1"
proof -
  have "1 \<le> c" using assms by simp
  then have "unat (c - g) = unat c - unat g" "unat (c - 1) = unat c - unat (1 :: u64)"
    using assms by (simp_all only: unat_sub less_imp_le)
  moreover have "unat (1 :: u64) \<le> unat g" using assms(2) by (simp add: word_le_nat_alt)
  ultimately show ?thesis by (simp add: word_le_nat_alt)
qed




theorem registered_service_applies_witness:
  "ServiceName (Info (heap (resolveAndApplyServiceName 1 42 (RegisterServiceTag 42 ''Dnscache'' sample_state)) 1)) = ''Dnscache''"
proof -
  have "ServiceName (Info (heap sample_state 1)) = ''''" "Name (Info (heap sample_state 1)) = ''app.exe''"
    by (simp_all add: sample_state_simps wf_Reset_new) (simp add: newProcessData_def zeroProcessInfo_def)
  then show ?thesis
    using registered_service_applies [OF ksm_invD(4) [OF sample_state_inv], of 42 "''Dnscache''" 1] by simp
qed

end
