(* ===== verification/Aggregation.thy ===== *)
theory Aggregation
  imports State_Manager
begin

text \<open>
  \<open>aggregation.go\<close>: once per scrape the counters of all process instances are summed per
  program (name, service, hash, session) into a fresh map that replaces the published one.

  \<open>aggregated_metric\<close> is the contract of one published counter: it starts at zero and the
  contribution of a process adds the process' own counter. Under it the published value of
  a program is the sum over the processes of that program; every counter of the program
  (disk, memory, network, registry, threads) is an interpretation.

  \<open>query\<close> stands for \<open>windowsapi.QueryServiceNameByTag\<close>, the service snapshot for
  \<open>windowsapi.GetRunningServicesSnapshot\<close>; both end in calls of the Windows API.
\<close>

section \<open>Summing one process\<close>

definition newAggregatedProgramMetrics :: aggregated_program_metrics where
  "newAggregatedProgramMetrics = \<lparr>Agg_Disk = None, Agg_Memory = None, Agg_Network = None,
     Agg_Registry = None, Agg_Threads = None\<rparr>"

definition zeroFinalDisk :: final_disk_metrics where
  "zeroFinalDisk = \<lparr>F_IOCount = replicate DiskOpCount 0, F_BytesRead = 0, F_BytesWritten = 0\<rparr>"

definition get_or :: "'v \<Rightarrow> 'k \<Rightarrow> ('k, 'v) cmap \<Rightarrow> 'v" where
  "get_or d k m = (case cm_load k m of Some v \<Rightarrow> v | None \<Rightarrow> d)"

definition add_disk :: "u32 \<Rightarrow> disk_metrics \<Rightarrow> (u32, final_disk_metrics) cmap \<Rightarrow> (u32, final_disk_metrics) cmap" where
  "add_disk diskNum m disks =
     (let f = get_or zeroFinalDisk diskNum disks
      in cm_store diskNum \<lparr>F_IOCount = map2 (+) (F_IOCount f) (IOCount m),
           F_BytesRead = F_BytesRead f + BytesRead m, F_BytesWritten = F_BytesWritten f + BytesWritten m\<rparr> disks)"

definition add_disk_module :: "disk_module \<Rightarrow> aggregated_program_metrics \<Rightarrow> aggregated_program_metrics" where
  "add_disk_module dm a =
     (let disks = (case Agg_Disk a of Some d \<Rightarrow> d | None \<Rightarrow> cm_empty)
      in a\<lparr>Agg_Disk := Some (fold (\<lambda>(d, m). add_disk d m) (cm_entries (Disks dm)) disks)\<rparr>)"

definition add_memory_module :: "memory_module \<Rightarrow> aggregated_program_metrics \<Rightarrow> aggregated_program_metrics" where
  "add_memory_module mm a =
     (let count = HardPageFaults mm
      in if count > 0
         then a\<lparr>Agg_Memory := Some ((case Agg_Memory a of Some n \<Rightarrow> n | None \<Rightarrow> 0) + count)\<rparr>
         else a)"

definition newAggregatedNetwork :: aggregated_network_metrics where
  "newAggregatedNetwork = \<lparr>AN_BytesSent = replicate protocolMax 0, AN_BytesReceived = replicate protocolMax 0,
     AN_ConnectionsAttempted = replicate protocolMax 0, AN_ConnectionsAccepted = replicate protocolMax 0,
     AN_RetransmissionsTotal = 0, AN_ConnectionsFailed = cm_empty\<rparr>"

definition add_failure :: "u32 \<Rightarrow> u64 \<Rightarrow> (u32, u64) cmap \<Rightarrow> (u32, u64) cmap" where
  "add_failure key counter m = cm_store key (get_or 0 key m + counter) m"

definition add_network_module :: "network_module \<Rightarrow> aggregated_program_metrics \<Rightarrow> aggregated_program_metrics" where
  "add_network_module nm a =
     (let n = (case Agg_Network a of Some n \<Rightarrow> n | None \<Rightarrow> newAggregatedNetwork)
      in a\<lparr>Agg_Network := Some
           \<lparr>AN_BytesSent = map2 (+) (AN_BytesSent n) (BytesSent nm),
            AN_BytesReceived = map2 (+) (AN_BytesReceived n) (BytesReceived nm),
            AN_ConnectionsAttempted = map2 (+) (AN_ConnectionsAttempted n) (ConnectionsAttempted nm),
            AN_ConnectionsAccepted = map2 (+) (AN_ConnectionsAccepted n) (ConnectionsAccepted nm),
            AN_RetransmissionsTotal = AN_RetransmissionsTotal n + RetransmissionsTotal nm,
            AN_ConnectionsFailed =
              fold (\<lambda>(k, c). add_failure k c) (cm_entries (ConnectionsFailed nm)) (AN_ConnectionsFailed n)\<rparr>\<rparr>)"

definition registry_key :: "nat \<Rightarrow> registry_operation_key" where
  "registry_key i = \<lparr>Opcode = of_nat (i div ResultMax), Result = i mod ResultMax\<rparr>"

definition add_registry_op :: "nat \<Rightarrow> u64 \<Rightarrow> (registry_operation_key, u64) cmap \<Rightarrow> (registry_operation_key, u64) cmap" where
  "add_registry_op i count m =
     (if count > 0 then cm_store (registry_key i) (get_or 0 (registry_key i) m + count) m else m)"

definition add_registry_module :: "registry_module \<Rightarrow> aggregated_program_metrics \<Rightarrow> aggregated_program_metrics" where
  "add_registry_module rm a =
     (let ops = (case Agg_Registry a of Some m \<Rightarrow> m | None \<Rightarrow> cm_empty)
      in a\<lparr>Agg_Registry := Some (fold (\<lambda>(i, c). add_registry_op i c)
            (zip [0..<length (Operations rm)] (Operations rm)) ops)\<rparr>)"

definition add_thread_module :: "thread_module \<Rightarrow> aggregated_program_metrics \<Rightarrow> aggregated_program_metrics" where
  "add_thread_module tm a =
     (let count = ContextSwitches tm
      in if count > 0
         then a\<lparr>Agg_Threads := Some ((case Agg_Threads a of Some n \<Rightarrow> n | None \<Rightarrow> 0) + count)\<rparr>
         else a)"

definition add_process :: "process_data \<Rightarrow> aggregated_program_metrics \<Rightarrow> aggregated_program_metrics" where
  "add_process pd a =
     add_thread_module (ThreadMod pd) (add_registry_module (Registry pd) (add_network_module (Network pd)
       (add_memory_module (Memory pd) (add_disk_module (Disk pd) a))))"

definition program_key :: "process_info \<Rightarrow> program_aggregation_key" where
  "program_key i = \<lparr>Key_Name = Name i, Key_ServiceName = ServiceName i, Key_UniqueHash = UniqueHash i,
     Key_SessionID = SessionID i\<rparr>"

definition aggregate_one :: "process_data \<Rightarrow> aggregation \<Rightarrow> aggregation" where
  "aggregate_one pd agg =
     (let key = program_key (Info pd)
      in cm_store key (add_process pd (get_or newAggregatedProgramMetrics key agg)) agg)"


section \<open>The scrape\<close>

text \<open>The lazy resolution of a service tag, at most one query per tag in a scrape.\<close>

definition resolve_tag :: "(u32 \<Rightarrow> u32 \<Rightarrow> string option) \<Rightarrow> ref \<Rightarrow> u32 list \<times> ksm \<Rightarrow> u32 list \<times> ksm" where
  "resolve_tag query r st =
     (case st of (attempted, s) \<Rightarrow>
        let i = Info (heap s r); tag = SubProcessTag i
        in if tag > 0 \<and> ServiceName i = '''' \<and> tag \<notin> set attempted
           then (tag # attempted,
             case query (PID i) tag of
               None \<Rightarrow> s
             | Some resolvedName \<Rightarrow>
                 let s1 = s\<lparr>Diag := RecordServiceEnrichedAPI (Diag s)\<rparr>;
                     s2 = RegisterServiceTag tag resolvedName s1
                 in upd_info r (\<lambda>i. if ServiceName i = '''' then i\<lparr>ServiceName := resolvedName\<rparr> else i) s2)
           else (attempted, s))"

definition aggregate_step :: "(u32 \<Rightarrow> u32 \<Rightarrow> string option) \<Rightarrow> ref \<Rightarrow>
    (u32 list \<times> ksm) \<times> aggregation \<Rightarrow> (u32 list \<times> ksm) \<times> aggregation" where
  "aggregate_step query r st =
     (case st of (as, agg) \<Rightarrow>
        let as' = resolve_tag query r as in (as', aggregate_one (heap (snd as') r) agg))"

definition aggregate_all :: "(u32 \<Rightarrow> u32 \<Rightarrow> string option) \<Rightarrow> ksm \<Rightarrow> (u32 list \<times> ksm) \<times> aggregation" where
  "aggregate_all query s =
     RangeProcesses (\<lambda>st r. (aggregate_step query r st, True)) s (([], s), cm_empty)"

definition AggregateMetrics ::
    "(u32 \<times> string) list option \<Rightarrow> (u32 \<Rightarrow> u32 \<Rightarrow> string option) \<Rightarrow> ksm \<Rightarrow> ksm option" where
  "AggregateMetrics snapshot query s =
     (case (if serviceListOnce s then Some s else ApplyServices snapshot (s\<lparr>serviceListOnce := True\<rparr>)) of
        None \<Rightarrow> None
      | Some s1 \<Rightarrow>
          (case aggregate_all query s1 of ((_, s2), newAggregatedData) \<Rightarrow>
             Some (s2\<lparr>aggregatedData := Some newAggregatedData\<rparr>)))"

definition RangeAggregatedMetrics ::
    "('a \<Rightarrow> program_aggregation_key \<Rightarrow> aggregated_program_metrics \<Rightarrow> 'a \<times> bool) \<Rightarrow> ksm \<Rightarrow> 'a \<Rightarrow> 'a" where
  "RangeAggregatedMetrics f s a =
     (case aggregatedData s of None \<Rightarrow> a | Some data \<Rightarrow> cm_range f data a)"


section \<open>What one step does to the state\<close>

lemma resolve_tag_heap:
  "heap (snd (resolve_tag query r (as, s))) q =
     (if q = r then (heap s r)\<lparr>Info := Info (heap (snd (resolve_tag query r (as, s))) r)\<rparr> else heap s q)"
  by (auto simp: resolve_tag_def Let_def RegisterServiceTag_def upd_info_def upd_obj_def split: option.splits)

lemma resolve_tag_frame [simp]:
  "Processes (snd (resolve_tag query r (as, s))) = Processes s"
  "Threads (snd (resolve_tag query r (as, s))) = Threads s"
  "Images (snd (resolve_tag query r (as, s))) = Images s"
  "scrapeCounter (snd (resolve_tag query r (as, s))) = scrapeCounter s"
  by (auto simp: resolve_tag_def Let_def RegisterServiceTag_def split: option.splits)

lemma resolve_tag_inv:
  assumes "ksm_inv s"
  shows "ksm_inv (snd (resolve_tag query r (as, s)))"
proof -
  have "ksm_inv (s\<lparr>Diag := d\<rparr>)" for d
    using assms by (intro ksm_inv_transfer [OF assms]) (auto simp: ksm_inv_def clock_inv_def)
  then have "ksm_inv (upd_info r (\<lambda>i. if ServiceName i = '''' then i\<lparr>ServiceName := n\<rparr> else i)
      (RegisterServiceTag tag n (s\<lparr>Diag := d\<rparr>)))" for n tag d
    unfolding upd_info_def
    by (intro upd_obj_inv_all RegisterServiceTag_inv_all keeps_identity_Info) simp_all
  then show ?thesis using assms
    by (simp add: resolve_tag_def Let_def split: option.split)
qed

text \<open>A resolution only ever fills in an empty service name.\<close>

lemma resolve_tag_Info:
  "Info (heap (snd (resolve_tag query r (as, s))) r) = Info (heap s r) \<or>
   ServiceName (Info (heap s r)) = '''' \<and>
   (\<exists>n. query (PID (Info (heap s r))) (SubProcessTag (Info (heap s r))) = Some n \<and>
        Info (heap (snd (resolve_tag query r (as, s))) r) = (Info (heap s r))\<lparr>ServiceName := n\<rparr>)"
  by (auto simp: resolve_tag_def Let_def RegisterServiceTag_def split: option.splits)


section \<open>Well-formed aggregates\<close>

definition wf_agg :: "aggregated_program_metrics \<Rightarrow> bool" where
  "wf_agg a \<longleftrightarrow>
     (\<forall>disks d f. Agg_Disk a = Some disks \<longrightarrow> cm_load d disks = Some f \<longrightarrow> length (F_IOCount f) = DiskOpCount)
   \<and> (\<forall>n. Agg_Network a = Some n \<longrightarrow> length (AN_BytesSent n) = protocolMax
        \<and> length (AN_BytesReceived n) = protocolMax \<and> length (AN_ConnectionsAttempted n) = protocolMax
        \<and> length (AN_ConnectionsAccepted n) = protocolMax)"

lemma wf_agg_new [simp]: "wf_agg newAggregatedProgramMetrics"
  by (simp add: wf_agg_def newAggregatedProgramMetrics_def)

text \<open>Folding an "add to the entry" step over the entries of a map adds each key's own value.\<close>

lemma fold_entry_other:
  assumes "\<And>j w m. j \<noteq> k \<Longrightarrow> cm_load k (step j w m) = cm_load k m" and "k \<notin> fst ` set xs"
  shows "cm_load k (fold (\<lambda>(j, w). step j w) xs m) = cm_load k m"
  using assms(2)
proof (induction xs arbitrary: m)
  case (Cons x xs)
  then show ?case using assms(1) by (cases x) auto
qed simp

lemma cm_load_Cons: "cm_load k ((j, w) # xs) = (if j = k then Some w else cm_load k xs)"
  by (simp add: cm_load_def)

lemma fold_entry:
  assumes "\<And>j w m. cm_load k (step j w m) = (if j = k then Some (v w (cm_load k m)) else cm_load k m)"
    and "cm_invar xs"
  shows "cm_load k (fold (\<lambda>(j, w). step j w) xs m) =
    (case cm_load k xs of Some w \<Rightarrow> Some (v w (cm_load k m)) | None \<Rightarrow> cm_load k m)"
  using assms(2)
proof (induction xs arbitrary: m)
  case Nil
  then show ?case by (simp add: cm_load_def)
next
  case (Cons x xs)
  obtain j w where x: "x = (j, w)" by force
  have other: "cm_load k (fold (\<lambda>(j, w). step j w) xs m') = cm_load k m'" if "k \<notin> fst ` set xs" for m'
    using assms(1) that by (intro fold_entry_other) auto
  have xs: "cm_invar xs" "j \<notin> fst ` set xs" using Cons.prems x by (simp_all add: cm_invar_def)
  show ?case
  proof (cases "j = k")
    case True
    then show ?thesis using other xs(2) assms(1) x by (simp add: cm_load_Cons)
  next
    case False
    then show ?thesis using Cons.IH [OF xs(1)] assms(1) x by (simp add: cm_load_Cons split: option.split)
  qed
qed

lemma load_add_disk:
  "cm_load d (add_disk j m disks) =
     (if j = d then Some (let f = case cm_load d disks of Some f \<Rightarrow> f | None \<Rightarrow> zeroFinalDisk
        in \<lparr>F_IOCount = map2 (+) (F_IOCount f) (IOCount m),
           F_BytesRead = F_BytesRead f + BytesRead m, F_BytesWritten = F_BytesWritten f + BytesWritten m\<rparr>)
      else cm_load d disks)"
  by (auto simp: add_disk_def Let_def get_or_def)

lemma load_add_failure:
  "cm_load k (add_failure j c m) =
     (if j = k then Some ((case cm_load k m of Some v \<Rightarrow> v | None \<Rightarrow> 0) + c) else cm_load k m)"
  by (auto simp: add_failure_def get_or_def)

text \<open>Readings of an aggregate, zero where there is no entry.\<close>

definition agg_disk_of :: "u32 \<Rightarrow> aggregated_program_metrics \<Rightarrow> final_disk_metrics" where
  "agg_disk_of d a = (case Agg_Disk a of Some disks \<Rightarrow> get_or zeroFinalDisk d disks | None \<Rightarrow> zeroFinalDisk)"

definition agg_network_of :: "aggregated_program_metrics \<Rightarrow> aggregated_network_metrics" where
  "agg_network_of a = (case Agg_Network a of Some n \<Rightarrow> n | None \<Rightarrow> newAggregatedNetwork)"

definition agg_failed_of :: "u32 \<Rightarrow> aggregated_program_metrics \<Rightarrow> u64" where
  "agg_failed_of k a = get_or 0 k (AN_ConnectionsFailed (agg_network_of a))"

definition agg_registry_of :: "registry_operation_key \<Rightarrow> aggregated_program_metrics \<Rightarrow> u64" where
  "agg_registry_of k a = (case Agg_Registry a of Some m \<Rightarrow> get_or 0 k m | None \<Rightarrow> 0)"

lemma add_process_parts [simp]:
  "Agg_Disk (add_process pd a) = Agg_Disk (add_disk_module (Disk pd) a)"
  "Agg_Memory (add_process pd a) = Agg_Memory (add_memory_module (Memory pd) a)"
  "Agg_Network (add_process pd a) = Agg_Network (add_network_module (Network pd) a)"
  "Agg_Registry (add_process pd a) = Agg_Registry (add_registry_module (Registry pd) a)"
  "Agg_Threads (add_process pd a) = Agg_Threads (add_thread_module (ThreadMod pd) a)"
  by (simp_all add: add_process_def add_disk_module_def add_memory_module_def add_network_module_def
      add_registry_module_def add_thread_module_def Let_def)

lemma map2_add_zero: "length xs = n \<Longrightarrow> map2 (+) xs (replicate n (0::'a::monoid_add)) = xs"
  by (rule nth_equalityI) auto

lemma agg_disk_of_add:
  assumes "wf_process_data pd" and "wf_agg a"
  shows "agg_disk_of d (add_process pd a) =
    (let f = agg_disk_of d a; m = disk_of pd d
     in \<lparr>F_IOCount = map2 (+) (F_IOCount f) (IOCount m), F_BytesRead = F_BytesRead f + BytesRead m,
         F_BytesWritten = F_BytesWritten f + BytesWritten m\<rparr>)"
proof -
  let ?D = "case Agg_Disk a of Some d \<Rightarrow> d | None \<Rightarrow> cm_empty"
  have inv: "cm_invar (Disks (Disk pd))" using assms(1) by (simp add: wf_process_data_def wf_disk_module_def)
  have f: "agg_disk_of d a = (case cm_load d ?D of Some f \<Rightarrow> f | None \<Rightarrow> zeroFinalDisk)"
    by (simp add: agg_disk_of_def get_or_def split: option.split)
  have len: "length (F_IOCount (agg_disk_of d a)) = DiskOpCount"
    using assms(2) by (auto simp: agg_disk_of_def get_or_def wf_agg_def zeroFinalDisk_def split: option.split)
  have "cm_load d (fold (\<lambda>(d, m). add_disk d m) (cm_entries (Disks (Disk pd))) ?D) =
    (case cm_load d (Disks (Disk pd)) of
       Some m \<Rightarrow> Some (let f = agg_disk_of d a
         in \<lparr>F_IOCount = map2 (+) (F_IOCount f) (IOCount m), F_BytesRead = F_BytesRead f + BytesRead m,
             F_BytesWritten = F_BytesWritten f + BytesWritten m\<rparr>)
     | None \<Rightarrow> cm_load d ?D)"
    unfolding f cm_entries_def
    by (rule fold_entry [where step = add_disk and v = "\<lambda>m fo. let f = case fo of Some f \<Rightarrow> f | None \<Rightarrow> zeroFinalDisk
        in \<lparr>F_IOCount = map2 (+) (F_IOCount f) (IOCount m),
           F_BytesRead = F_BytesRead f + BytesRead m, F_BytesWritten = F_BytesWritten f + BytesWritten m\<rparr>", OF _ inv])
      (rule load_add_disk)
  then show ?thesis
    by (cases "cm_load d (Disks (Disk pd))")
      (simp_all add: agg_disk_of_def [of d "add_process pd a"] add_disk_module_def Let_def get_or_def
        disk_of_def newDiskMetrics_def map2_add_zero len, simp_all add: f)
qed

lemma agg_network_of_add:
  assumes "wf_process_data pd" and "wf_agg a"
  shows "AN_BytesSent (agg_network_of (add_process pd a)) = map2 (+) (AN_BytesSent (agg_network_of a)) (BytesSent (Network pd))"
    and "AN_BytesReceived (agg_network_of (add_process pd a)) =
      map2 (+) (AN_BytesReceived (agg_network_of a)) (BytesReceived (Network pd))"
    and "AN_ConnectionsAttempted (agg_network_of (add_process pd a)) =
      map2 (+) (AN_ConnectionsAttempted (agg_network_of a)) (ConnectionsAttempted (Network pd))"
    and "AN_ConnectionsAccepted (agg_network_of (add_process pd a)) =
      map2 (+) (AN_ConnectionsAccepted (agg_network_of a)) (ConnectionsAccepted (Network pd))"
    and "AN_RetransmissionsTotal (agg_network_of (add_process pd a)) =
      AN_RetransmissionsTotal (agg_network_of a) + RetransmissionsTotal (Network pd)"
    and "agg_failed_of k (add_process pd a) = agg_failed_of k a + failed_of pd k"
proof -
  have inv: "cm_invar (ConnectionsFailed (Network pd))"
    using assms(1) by (simp add: wf_process_data_def wf_network_module_def)
  let ?F = "AN_ConnectionsFailed (agg_network_of a)"
  have fails: "AN_ConnectionsFailed (agg_network_of (add_process pd a)) =
    fold (\<lambda>(k, c). add_failure k c) (cm_entries (ConnectionsFailed (Network pd))) ?F"
    by (simp add: agg_network_of_def add_network_module_def Let_def)
  have "cm_load k (fold (\<lambda>(k, c). add_failure k c) (cm_entries (ConnectionsFailed (Network pd))) ?F) =
    (case cm_load k (ConnectionsFailed (Network pd)) of
       Some c \<Rightarrow> Some ((case cm_load k ?F of Some v \<Rightarrow> v | None \<Rightarrow> 0) + c) | None \<Rightarrow> cm_load k ?F)"
    unfolding cm_entries_def
    by (rule fold_entry [where step = add_failure and
          v = "\<lambda>c fo. (case fo of Some v \<Rightarrow> v | None \<Rightarrow> 0) + c", OF _ inv]) (rule load_add_failure)
  then show "agg_failed_of k (add_process pd a) = agg_failed_of k a + failed_of pd k"
    unfolding agg_failed_of_def fails by (simp add: get_or_def failed_of_def split: option.split)
qed (simp_all add: agg_network_of_def add_network_module_def Let_def)

text \<open>The index of a counter in the registry array is decoded into its own key: distinct
  indices have distinct keys.\<close>

lemma registry_key_inj:
  "i < MaxRegistryArray \<Longrightarrow> j < MaxRegistryArray \<Longrightarrow> registry_key i = registry_key j \<Longrightarrow> i = j"
proof -
  assume b: "i < MaxRegistryArray" "j < MaxRegistryArray" and e: "registry_key i = registry_key j"
  have "i div 2 < 2 ^ 8" "j div 2 < 2 ^ 8" using b by (simp_all add: module_consts)
  then have "unat (of_nat (i div 2) :: u8) = i div 2" "unat (of_nat (j div 2) :: u8) = j div 2"
    by (simp_all add: unsigned_of_nat take_bit_nat_eq_self)
  moreover have "(of_nat (i div 2) :: u8) = of_nat (j div 2)"
    using e unfolding registry_key_def ResultMax_def by (metis registry_operation_key.ext_inject)
  ultimately have "i div 2 = j div 2" by metis
  moreover have "i mod 2 = j mod 2" using e by (simp add: registry_key_def module_consts)
  ultimately show ?thesis by (metis div_mult_mod_eq)
qed

lemma registry_index_key: "r < ResultMax \<Longrightarrow> registry_key (registry_index opcode r) = \<lparr>Opcode = opcode, Result = r\<rparr>"
  by (simp add: registry_key_def registry_index_div registry_index_mod)

lemma get_or_add_registry_op:
  "get_or 0 k (add_registry_op i c m) = get_or 0 k m + (if registry_key i = k then c else 0)"
  by (auto simp: add_registry_op_def get_or_def split: option.split) (use word_gt_0 in blast)+

lemma fold_registry_ops:
  "get_or 0 k (fold (\<lambda>(i, c). add_registry_op i c) xs m) =
   get_or 0 k m + sum_list (map (\<lambda>(i, c). if registry_key i = k then c else 0) xs)"
  by (rule fold_measure) (auto simp: get_or_add_registry_op)

lemma sum_list_single_zip:
  "i < length cs \<Longrightarrow> (\<And>j. j < length cs \<Longrightarrow> P j \<longleftrightarrow> j = i) \<Longrightarrow>
   sum_list (map (\<lambda>(j, c). if P j then c else (0::'a::comm_monoid_add)) (zip [0..<length cs] cs)) = cs ! i"
proof -
  assume i: "i < length cs" and P: "\<And>j. j < length cs \<Longrightarrow> P j \<longleftrightarrow> j = i"
  have "sum_list (map (\<lambda>(j, c). if P j then c else 0) (zip [0..<length cs] cs)) =
    (\<Sum>j = 0..<length cs. if j = i then cs ! j else 0)"
    unfolding sum_list_sum_nth by (rule sum.cong) (auto simp: P)
  then show ?thesis using i by simp
qed

lemma agg_registry_of_add:
  assumes "wf_process_data pd" and "r < ResultMax"
  shows "agg_registry_of \<lparr>Opcode = opc, Result = r\<rparr> (add_process pd a) =
    agg_registry_of \<lparr>Opcode = opc, Result = r\<rparr> a + Operations (Registry pd) ! registry_index opc r"
proof -
  let ?ops = "Operations (Registry pd)"
  have len: "length ?ops = MaxRegistryArray" using assms(1) by (simp add: wf_process_data_def)
  have "registry_key j = \<lparr>Opcode = opc, Result = r\<rparr> \<longleftrightarrow> j = registry_index opc r" if "j < length ?ops" for j
    using registry_key_inj [of j "registry_index opc r"] that len registry_index_bound [OF assms(2)]
      registry_index_key [OF assms(2)] by auto
  then have "sum_list (map (\<lambda>(i, c). if registry_key i = \<lparr>Opcode = opc, Result = r\<rparr> then c else 0)
      (zip [0..<length ?ops] ?ops)) = ?ops ! registry_index opc r"
    using registry_index_bound [OF assms(2)] len by (intro sum_list_single_zip) auto
  then show ?thesis
    by (simp add: agg_registry_of_def add_registry_module_def Let_def fold_registry_ops)
      (simp add: get_or_def split: option.split)
qed

lemma wf_agg_add: "wf_process_data pd \<Longrightarrow> wf_agg a \<Longrightarrow> wf_agg (add_process pd a)"
proof -
  assume pd: "wf_process_data pd" and a: "wf_agg a"
  have "length (F_IOCount f) = DiskOpCount"
    if "Agg_Disk (add_process pd a) = Some disks" "cm_load d disks = Some f" for disks d f
  proof -
    have "f = agg_disk_of d (add_process pd a)" using that by (simp add: agg_disk_of_def get_or_def)
    moreover have "length (F_IOCount (agg_disk_of d a)) = DiskOpCount"
      using a by (auto simp: agg_disk_of_def get_or_def wf_agg_def zeroFinalDisk_def split: option.split)
    ultimately show ?thesis
      by (simp add: agg_disk_of_add [OF pd a] Let_def disk_of_length [OF pd])
  qed
  moreover have "length (AN_BytesSent (agg_network_of a)) = protocolMax"
    "length (AN_BytesReceived (agg_network_of a)) = protocolMax"
    "length (AN_ConnectionsAttempted (agg_network_of a)) = protocolMax"
    "length (AN_ConnectionsAccepted (agg_network_of a)) = protocolMax"
    using a by (auto simp: wf_agg_def agg_network_of_def newAggregatedNetwork_def split: option.split)
  ultimately show ?thesis
    using pd agg_network_of_add [OF pd a]
    by (auto simp: wf_agg_def wf_process_data_def wf_network_module_def agg_network_of_def)
qed


section \<open>The contract of a published counter\<close>

text \<open>\<open>wf_aggregation\<close>: every published aggregate is well formed.\<close>

definition wf_aggregation :: "aggregation \<Rightarrow> bool" where
  "wf_aggregation agg \<longleftrightarrow> (\<forall>k a. cm_load k agg = Some a \<longrightarrow> wf_agg a)"

definition published :: "program_aggregation_key \<Rightarrow> aggregation \<Rightarrow> aggregated_program_metrics" where
  "published k agg = get_or newAggregatedProgramMetrics k agg"

lemma wf_published: "wf_aggregation agg \<Longrightarrow> wf_agg (published k agg)"
  by (auto simp: wf_aggregation_def published_def get_or_def split: option.split)

lemma published_aggregate_one:
  "published k (aggregate_one pd agg) =
     (if program_key (Info pd) = k then add_process pd (published k agg) else published k agg)"
  by (auto simp: aggregate_one_def published_def get_or_def Let_def)

lemma wf_aggregate_one:
  "wf_process_data pd \<Longrightarrow> wf_aggregation agg \<Longrightarrow> wf_aggregation (aggregate_one pd agg)"
  using wf_agg_add [of pd] wf_published [of agg "program_key (Info pd)"]
  by (auto simp: wf_aggregation_def aggregate_one_def Let_def published_def split: if_splits)

lemma aggregate_step_eq:
  "resolve_tag query r (as, s) = (as1, s1) \<Longrightarrow>
   aggregate_step query r ((as, s), agg) = ((as1, s1), aggregate_one (heap s1 r) agg)"
  by (simp add: aggregate_step_def Let_def)

lemma aggregate_step_heap:
  assumes "fold (aggregate_step query) rs ((as, s), agg) = ((as', s'), agg')"
  shows "q \<notin> set rs \<Longrightarrow> heap s' q = heap s q"
    and "\<exists>i. heap s' q = (heap s q)\<lparr>Info := i\<rparr>"
proof -
  have "(q \<notin> set rs \<longrightarrow> heap s' q = heap s q) \<and> (\<exists>i. heap s' q = (heap s q)\<lparr>Info := i\<rparr>)"
    using assms
  proof (induction rs arbitrary: as s agg)
    case Nil
    then show ?case by (auto intro: exI [of _ "Info (heap s' q)"])
  next
    case (Cons r rs)
    obtain as1 s1 where r: "resolve_tag query r (as, s) = (as1, s1)" by force
    then have "fold (aggregate_step query) rs ((as1, s1), aggregate_one (heap s1 r) agg) = ((as', s'), agg')"
      using Cons.prems by (simp add: aggregate_step_eq)
    note IH = Cons.IH [OF this]
    have "heap s1 q = (if q = r then (heap s r)\<lparr>Info := Info (heap s1 r)\<rparr> else heap s q)"
      using resolve_tag_heap [of query r as s q] r by simp
    then show ?case using IH by (auto split: if_splits)
  qed
  then show "q \<notin> set rs \<Longrightarrow> heap s' q = heap s q" and "\<exists>i. heap s' q = (heap s q)\<lparr>Info := i\<rparr>"
    by blast+
qed

locale aggregated_metric =
  fixes mu :: "aggregated_program_metrics \<Rightarrow> 'a::comm_monoid_add"
    and nu :: "process_data \<Rightarrow> 'a"
  assumes mu_new: "mu newAggregatedProgramMetrics = 0"
    and mu_add: "wf_process_data pd \<Longrightarrow> wf_agg a \<Longrightarrow> mu (add_process pd a) = mu a + nu pd"
    and nu_Info: "nu (pd\<lparr>Info := i\<rparr>) = nu pd"
begin

lemma aggregate_fold:
  assumes "fold (aggregate_step query) rs ((as, s), agg) = ((as', s'), agg')"
    and "distinct rs" and "\<And>r. wf_process_data (heap s r)" and "wf_aggregation agg"
  shows "mu (published k agg') = mu (published k agg) +
    sum_list (map (\<lambda>r. if program_key (Info (heap s' r)) = k then nu (heap s' r) else 0) rs)"
  using assms
proof (induction rs arbitrary: as s agg)
  case Nil
  then show ?case by simp
next
  case (Cons r rs)
  obtain as1 s1 where r: "resolve_tag query r (as, s) = (as1, s1)" by force
  let ?agg1 = "aggregate_one (heap s1 r) agg"
  have f: "fold (aggregate_step query) rs ((as1, s1), ?agg1) = ((as', s'), agg')"
    using Cons.prems(1) r by (simp add: aggregate_step_eq)
  have "heap s1 q = (if q = r then (heap s r)\<lparr>Info := Info (heap s1 r)\<rparr> else heap s q)" for q
    using resolve_tag_heap [of query r as s q] r by simp
  then have wf1: "wf_process_data (heap s1 q)" for q
    using Cons.prems(3) by (metis wf_Info)
  have same: "heap s' r = heap s1 r"
    using aggregate_step_heap(1) [OF f, of r] Cons.prems(2) by simp
  have "mu (published k ?agg1) = mu (published k agg) +
      (if program_key (Info (heap s1 r)) = k then nu (heap s1 r) else 0)"
    using mu_add [OF wf1 wf_published [OF Cons.prems(4)]] by (simp add: published_aggregate_one)
  then show ?case
    using Cons.IH [OF f _ wf1 wf_aggregate_one [OF wf1 Cons.prems(4)]] Cons.prems(2) same
    by (simp add: add.assoc)
qed

lemma mu_published_empty: "mu (published k cm_empty) = 0"
  by (simp add: published_def get_or_def mu_new)

end

lemma agg_disk_new: "agg_disk_of d newAggregatedProgramMetrics = zeroFinalDisk"
  by (simp add: agg_disk_of_def newAggregatedProgramMetrics_def)

lemma disk_of_Info: "disk_of (pd\<lparr>Info := i\<rparr>) d = disk_of pd d"
  by (simp add: disk_of_def)

interpretation disk_read: aggregated_metric "\<lambda>a. F_BytesRead (agg_disk_of d a)" "\<lambda>pd. BytesRead (disk_of pd d)" for d
  by unfold_locales (auto simp: agg_disk_of_add Let_def agg_disk_new zeroFinalDisk_def disk_of_Info)

interpretation disk_written: aggregated_metric "\<lambda>a. F_BytesWritten (agg_disk_of d a)" "\<lambda>pd. BytesWritten (disk_of pd d)" for d
  by unfold_locales (auto simp: agg_disk_of_add Let_def agg_disk_new zeroFinalDisk_def disk_of_Info)

lemma wf_agg_IOCount: "wf_agg a \<Longrightarrow> length (F_IOCount (agg_disk_of d a)) = DiskOpCount"
  by (auto simp: agg_disk_of_def get_or_def wf_agg_def zeroFinalDisk_def split: option.split)

definition op_at :: "nat \<Rightarrow> 'a::zero list \<Rightarrow> 'a" where
  "op_at i xs = (if i < length xs then xs ! i else 0)"

lemma op_at_map2: "length xs = length ys \<Longrightarrow> op_at i (map2 (+) xs ys) = op_at i xs + (op_at i ys :: 'a::monoid_add)"
  by (simp add: op_at_def)

lemma op_at_replicate [simp]: "op_at i (replicate n 0) = 0"
  by (simp add: op_at_def)

interpretation disk_ops: aggregated_metric "\<lambda>a. op_at op (F_IOCount (agg_disk_of d a))"
  "\<lambda>pd. op_at op (IOCount (disk_of pd d))" for d op
proof unfold_locales
  show "op_at op (F_IOCount (agg_disk_of d (add_process pd a))) =
      op_at op (F_IOCount (agg_disk_of d a)) + op_at op (IOCount (disk_of pd d))"
    if "wf_process_data pd" "wf_agg a" for pd a
    using that by (simp add: agg_disk_of_add Let_def op_at_map2 wf_agg_IOCount disk_of_length)
qed (simp_all add: agg_disk_new zeroFinalDisk_def disk_of_Info)

definition opt0 :: "u64 option \<Rightarrow> u64" where
  "opt0 x = (case x of Some n \<Rightarrow> n | None \<Rightarrow> 0)"

interpretation hard_faults: aggregated_metric "\<lambda>a. opt0 (Agg_Memory a)" "\<lambda>pd. HardPageFaults (Memory pd)"
  by unfold_locales (auto simp: newAggregatedProgramMetrics_def add_memory_module_def Let_def opt0_def word_gt_0)

interpretation context_switches: aggregated_metric "\<lambda>a. opt0 (Agg_Threads a)" "\<lambda>pd. ContextSwitches (ThreadMod pd)"
  by unfold_locales (auto simp: newAggregatedProgramMetrics_def add_thread_module_def Let_def opt0_def word_gt_0)

lemma wf_agg_network:
  "wf_agg a \<Longrightarrow> length (AN_BytesSent (agg_network_of a)) = protocolMax
     \<and> length (AN_BytesReceived (agg_network_of a)) = protocolMax
     \<and> length (AN_ConnectionsAttempted (agg_network_of a)) = protocolMax
     \<and> length (AN_ConnectionsAccepted (agg_network_of a)) = protocolMax"
  by (auto simp: wf_agg_def agg_network_of_def newAggregatedNetwork_def split: option.split)

lemma agg_network_new: "agg_network_of newAggregatedProgramMetrics = newAggregatedNetwork"
  by (simp add: agg_network_of_def newAggregatedProgramMetrics_def)

lemmas network_metric = op_at_map2 agg_network_of_add agg_network_new newAggregatedNetwork_def
  wf_process_data_def wf_network_module_def

interpretation bytes_sent: aggregated_metric "\<lambda>a. op_at i (AN_BytesSent (agg_network_of a))"
  "\<lambda>pd. op_at i (BytesSent (Network pd))" for i
  using wf_agg_network by unfold_locales (simp_all add: network_metric)

interpretation bytes_received: aggregated_metric "\<lambda>a. op_at i (AN_BytesReceived (agg_network_of a))"
  "\<lambda>pd. op_at i (BytesReceived (Network pd))" for i
  using wf_agg_network by unfold_locales (simp_all add: network_metric)

interpretation attempted: aggregated_metric "\<lambda>a. op_at i (AN_ConnectionsAttempted (agg_network_of a))"
  "\<lambda>pd. op_at i (ConnectionsAttempted (Network pd))" for i
  using wf_agg_network by unfold_locales (simp_all add: network_metric)

interpretation accepted: aggregated_metric "\<lambda>a. op_at i (AN_ConnectionsAccepted (agg_network_of a))"
  "\<lambda>pd. op_at i (ConnectionsAccepted (Network pd))" for i
  using wf_agg_network by unfold_locales (simp_all add: network_metric)

interpretation retransmissions: aggregated_metric "\<lambda>a. AN_RetransmissionsTotal (agg_network_of a)"
  "\<lambda>pd. RetransmissionsTotal (Network pd)"
  by unfold_locales (simp_all add: network_metric)

interpretation failures: aggregated_metric "agg_failed_of k" "\<lambda>pd. failed_of pd k" for k
  by unfold_locales (simp_all add: agg_network_of_add agg_failed_of_def [of k newAggregatedProgramMetrics]
      agg_network_new newAggregatedNetwork_def get_or_def failed_of_def)

lemma agg_registry_new: "agg_registry_of k newAggregatedProgramMetrics = 0"
  by (simp add: agg_registry_of_def newAggregatedProgramMetrics_def)

interpretation registry_ops: aggregated_metric
  "\<lambda>a. if r < ResultMax then agg_registry_of \<lparr>Opcode = opc, Result = r\<rparr> a else 0"
  "\<lambda>pd. if r < ResultMax then Operations (Registry pd) ! registry_index opc r else 0" for opc r
  by unfold_locales (simp_all add: agg_registry_of_add agg_registry_new)


section \<open>The whole scrape\<close>

definition process_refs :: "ksm \<Rightarrow> ref list" where
  "process_refs s = map snd (cm_entries (instanceData (Processes s)))"

lemma distinct_process_refs: "proc_inv s \<Longrightarrow> distinct (process_refs s)"
proof -
  assume inv: "proc_inv s"
  let ?m = "instanceData (Processes s)"
  have m: "cm_invar ?m" using inv by (simp add: proc_parts)
  have "start_key s r = sk" if "(sk, r) \<in> set ?m" for sk r
    using proc_inv_instance [OF inv] that cm_entries_load [OF m] by blast
  then have "map (start_key s) (process_refs s) = map fst ?m"
    by (auto simp: process_refs_def cm_entries_def)
  then show ?thesis using m distinct_map [of "start_key s" "process_refs s"] by (simp add: cm_invar_def)
qed

lemma aggregate_all_fold:
  "aggregate_all query s = fold (aggregate_step query) (process_refs s) (([], s), cm_empty)"
proof -
  have "range_loop (\<lambda>a _ r. (aggregate_step query r a, True)) xs a =
      fold (aggregate_step query) (map snd xs) a" for xs :: "(u64 \<times> ref) list" and a
  proof (induction xs arbitrary: a)
    case (Cons x xs)
    show ?case using Cons.IH by (cases x) simp
  qed simp
  then show ?thesis by (simp add: aggregate_all_def RangeProcesses_def cm_range_def process_refs_def)
qed

lemma aggregate_fold_inv:
  "fold (aggregate_step query) rs ((as, s), agg) = ((as', s'), agg') \<Longrightarrow> ksm_inv s \<Longrightarrow>
   ksm_inv s' \<and> Processes s' = Processes s \<and> Threads s' = Threads s"
proof (induction rs arbitrary: as s agg)
  case (Cons r rs)
  obtain as1 s1 where r: "resolve_tag query r (as, s) = (as1, s1)" by force
  have "ksm_inv s1" "Processes s1 = Processes s" "Threads s1 = Threads s"
    using resolve_tag_inv [OF Cons.prems(2), of query r as] resolve_tag_frame [of query r as s] r by simp_all
  then show ?case using Cons.IH Cons.prems(1) r by (auto simp: aggregate_step_eq)
qed simp

lemma apply_services_Processes: "apply_services_loop xs s = Some t \<Longrightarrow> Processes t = Processes s"
proof (induction xs s rule: apply_services_loop.induct)
  case (2 pid name xs s)
  then show ?case by (auto split: prod.splits bool.splits option.splits if_splits)
qed simp

lemma ksm_inv_flags [simp]:
  "ksm_inv (s\<lparr>serviceListOnce := b\<rparr>) = ksm_inv s" "ksm_inv (s\<lparr>aggregatedData := d\<rparr>) = ksm_inv s"
  by (simp_all add: ksm_inv_def proc_parts thread_inv_def ref_live_def start_key_def service_inv_def clock_inv_def)

lemma AggregateMetrics_fold:
  assumes "ksm_inv s"
  shows "\<exists>s1 as s2 agg. ksm_inv s1 \<and> Processes s1 = Processes s
    \<and> fold (aggregate_step query) (process_refs s) (([], s1), cm_empty) = ((as, s2), agg)
    \<and> AggregateMetrics snapshot query s = Some (s2\<lparr>aggregatedData := Some agg\<rparr>)"
proof -
  have "\<exists>s1. (if serviceListOnce s then Some s else ApplyServices snapshot (s\<lparr>serviceListOnce := True\<rparr>)) = Some s1
      \<and> ksm_inv s1 \<and> Processes s1 = Processes s"
    using assms apply_services_loop_inv_all [of "s\<lparr>serviceListOnce := True\<rparr>"] apply_services_Processes
    by (fastforce simp: ApplyServices_def split: option.split)
  then obtain s1 where s1: "(if serviceListOnce s then Some s else ApplyServices snapshot (s\<lparr>serviceListOnce := True\<rparr>)) = Some s1"
    "ksm_inv s1" "Processes s1 = Processes s" by blast
  obtain as s2 agg where f: "fold (aggregate_step query) (process_refs s1) (([], s1), cm_empty) = ((as, s2), agg)"
    by (metis prod.exhaust)
  have "AggregateMetrics snapshot query s = Some (s2\<lparr>aggregatedData := Some agg\<rparr>)"
    using s1(1) f unfolding AggregateMetrics_def by (simp add: aggregate_all_fold)
  then show ?thesis using s1 f by (auto simp: process_refs_def)
qed

lemma AggregateMetrics_inv:
  assumes "ksm_inv s"
  shows "\<exists>t. AggregateMetrics snapshot query s = Some t \<and> ksm_inv t \<and> Processes t = Processes s
    \<and> aggregatedData t \<noteq> None"
proof -
  obtain s1 as s2 agg where A: "ksm_inv s1" "Processes s1 = Processes s"
    "fold (aggregate_step query) (process_refs s) (([], s1), cm_empty) = ((as, s2), agg)"
    "AggregateMetrics snapshot query s = Some (s2\<lparr>aggregatedData := Some agg\<rparr>)"
    using AggregateMetrics_fold [OF assms] by blast
  then show ?thesis using aggregate_fold_inv [OF A(3,1)] by simp
qed

context aggregated_metric
begin

lemma conservation:
  assumes "ksm_inv s" and "AggregateMetrics snapshot query s = Some t" and "aggregatedData t = Some agg"
  shows "mu (published k agg) =
    sum_list (map (\<lambda>r. if program_key (Info (heap t r)) = k then nu (heap t r) else 0) (process_refs s))"
proof -
  obtain s1 as s2 agg' where A: "ksm_inv s1" "Processes s1 = Processes s"
    "fold (aggregate_step query) (process_refs s) (([], s1), cm_empty) = ((as, s2), agg')"
    "AggregateMetrics snapshot query s = Some (s2\<lparr>aggregatedData := Some agg'\<rparr>)"
    using AggregateMetrics_fold [OF assms(1)] by blast
  have "wf_process_data (heap s1 r)" for r
    using ksm_invD(1) [OF A(1)] by (simp add: proc_parts)
  then show ?thesis
    using aggregate_fold [OF A(3) distinct_process_refs [OF ksm_invD(1) [OF assms(1)]], of k] A(4) assms(2,3)
    by (auto simp: mu_published_empty wf_aggregation_def cong: if_cong)
qed

end


section \<open>Properties\<close>

text \<open>\<open>program_total\<close>: the sum of a counter over the tracked processes of one program.\<close>

definition program_total :: "(process_data \<Rightarrow> 'a::comm_monoid_add) \<Rightarrow> ref list \<Rightarrow> ksm \<Rightarrow> program_aggregation_key \<Rightarrow> 'a" where
  "program_total nu rs t k =
     sum_list (map (\<lambda>r. if program_key (Info (heap t r)) = k then nu (heap t r) else 0) rs)"

lemma aggregates:
  assumes "ksm_inv s"
  shows "\<exists>t agg. AggregateMetrics snapshot query s = Some t \<and> ksm_inv t \<and> aggregatedData t = Some agg"
  using AggregateMetrics_inv [OF assms, of snapshot query] by auto

text \<open>C10. Disk counters are conserved by a scrape: for every program, disk and operation the
  published bytes read, bytes written and operation count are the sums of the counters of
  the tracked processes of that program, after the services are resolved.\<close>

theorem disk_conserved:
  assumes "ksm_inv s"
  shows "\<exists>t agg. AggregateMetrics snapshot query s = Some t \<and> aggregatedData t = Some agg \<and> (\<forall>k d.
      F_BytesRead (agg_disk_of d (published k agg)) = program_total (\<lambda>pd. BytesRead (disk_of pd d)) (process_refs s) t k
    \<and> F_BytesWritten (agg_disk_of d (published k agg)) = program_total (\<lambda>pd. BytesWritten (disk_of pd d)) (process_refs s) t k
    \<and> (\<forall>op. op_at op (F_IOCount (agg_disk_of d (published k agg))) =
          program_total (\<lambda>pd. op_at op (IOCount (disk_of pd d))) (process_refs s) t k))"
proof -
  obtain t agg where t: "AggregateMetrics snapshot query s = Some t" "aggregatedData t = Some agg"
    using aggregates [OF assms] by blast
  then show ?thesis
    using disk_read.conservation [OF assms t] disk_written.conservation [OF assms t] disk_ops.conservation [OF assms t]
    by (intro exI conjI allI) (simp_all add: program_total_def)
qed

theorem disk_conserved_witness:
  "\<exists>t agg. AggregateMetrics None (\<lambda>_ _. None) sample_state = Some t \<and> aggregatedData t = Some agg
     \<and> (\<forall>k. F_BytesRead (agg_disk_of 0 (published k agg)) =
       program_total (\<lambda>pd. BytesRead (disk_of pd 0)) (process_refs sample_state) t k)"
  using disk_conserved [OF sample_state_inv, of None "\<lambda>_ _. None"] by blast

text \<open>C11. Network counters are conserved by a scrape: bytes and connections per protocol,
  retransmissions, and failed connections per failure key are the sums over the processes
  of the program.\<close>

theorem network_conserved:
  assumes "ksm_inv s"
  shows "\<exists>t agg. AggregateMetrics snapshot query s = Some t \<and> aggregatedData t = Some agg \<and> (\<forall>k i.
      op_at i (AN_BytesSent (agg_network_of (published k agg))) =
        program_total (\<lambda>pd. op_at i (BytesSent (Network pd))) (process_refs s) t k
    \<and> op_at i (AN_BytesReceived (agg_network_of (published k agg))) =
        program_total (\<lambda>pd. op_at i (BytesReceived (Network pd))) (process_refs s) t k
    \<and> op_at i (AN_ConnectionsAttempted (agg_network_of (published k agg))) =
        program_total (\<lambda>pd. op_at i (ConnectionsAttempted (Network pd))) (process_refs s) t k
    \<and> op_at i (AN_ConnectionsAccepted (agg_network_of (published k agg))) =
        program_total (\<lambda>pd. op_at i (ConnectionsAccepted (Network pd))) (process_refs s) t k
    \<and> AN_RetransmissionsTotal (agg_network_of (published k agg)) =
        program_total (\<lambda>pd. RetransmissionsTotal (Network pd)) (process_refs s) t k
    \<and> (\<forall>f. agg_failed_of f (published k agg) = program_total (\<lambda>pd. failed_of pd f) (process_refs s) t k))"
proof -
  obtain t agg where t: "AggregateMetrics snapshot query s = Some t" "aggregatedData t = Some agg"
    using aggregates [OF assms] by blast
  then show ?thesis
    using bytes_sent.conservation [OF assms t] bytes_received.conservation [OF assms t]
      attempted.conservation [OF assms t] accepted.conservation [OF assms t]
      retransmissions.conservation [OF assms t] failures.conservation [OF assms t]
    by (intro exI conjI allI) (simp_all add: program_total_def)
qed

theorem network_conserved_witness:
  "\<exists>t agg. AggregateMetrics None (\<lambda>_ _. None) sample_state = Some t \<and> aggregatedData t = Some agg
     \<and> (\<forall>k. agg_failed_of 5 (published k agg) = program_total (\<lambda>pd. failed_of pd 5) (process_refs sample_state) t k)"
  using network_conserved [OF sample_state_inv, of None "\<lambda>_ _. None"] by blast

text \<open>C12. Registry operations per opcode and result, hard page faults and context switches are
  conserved by a scrape too.\<close>

theorem other_counters_conserved:
  assumes "ksm_inv s"
  shows "\<exists>t agg. AggregateMetrics snapshot query s = Some t \<and> aggregatedData t = Some agg \<and> (\<forall>k.
      opt0 (Agg_Memory (published k agg)) = program_total (\<lambda>pd. HardPageFaults (Memory pd)) (process_refs s) t k
    \<and> opt0 (Agg_Threads (published k agg)) = program_total (\<lambda>pd. ContextSwitches (ThreadMod pd)) (process_refs s) t k
    \<and> (\<forall>opc. agg_registry_of \<lparr>Opcode = opc, Result = ResultSuccess\<rparr> (published k agg) =
          program_total (\<lambda>pd. Operations (Registry pd) ! registry_index opc ResultSuccess) (process_refs s) t k)
    \<and> (\<forall>opc. agg_registry_of \<lparr>Opcode = opc, Result = ResultFailure\<rparr> (published k agg) =
          program_total (\<lambda>pd. Operations (Registry pd) ! registry_index opc ResultFailure) (process_refs s) t k))"
proof -
  obtain t agg where t: "AggregateMetrics snapshot query s = Some t" "aggregatedData t = Some agg"
    using aggregates [OF assms] by blast
  have reg: "agg_registry_of \<lparr>Opcode = opc, Result = r\<rparr> (published k agg) =
      program_total (\<lambda>pd. Operations (Registry pd) ! registry_index opc r) (process_refs s) t k"
    if "r < ResultMax" for opc r k
    using registry_ops.conservation [OF assms t, of r opc] that by (simp add: program_total_def cong: if_cong)
  have "ResultSuccess < ResultMax" "ResultFailure < ResultMax"
    by (simp_all add: ResultMax_def ResultFailure_def ResultSuccess_def)
  then show ?thesis
    using t hard_faults.conservation [OF assms t] context_switches.conservation [OF assms t] reg
    by (intro exI conjI allI) (simp_all add: program_total_def)
qed

theorem other_counters_conserved_witness:
  "\<exists>t agg. AggregateMetrics None (\<lambda>_ _. None) sample_state = Some t \<and> aggregatedData t = Some agg
     \<and> (\<forall>k. opt0 (Agg_Memory (published k agg)) =
       program_total (\<lambda>pd. HardPageFaults (Memory pd)) (process_refs sample_state) t k)"
  using other_counters_conserved [OF sample_state_inv, of None "\<lambda>_ _. None"] by blast

end
