(* ===== verification/Etw.thy ===== *)
theory Etw
  imports Aggregation
begin

text \<open>
  What the handlers use of the ETW consumer library (\<open>github.com/tekert/goetw/etw\<close>), which is
  not part of the repository: an event record is a value of a type the development does not
  look into, and \<open>etw_lib\<close> holds the accessors the handlers call, \<^const>\<open>None\<close> where the
  accessor returns an error. \<open>byte_lib\<close> is one instance, over little-endian payload bytes,
  for concrete inputs.

  Also here: the result type of a handler and the metrics that collectors send to Prometheus.
  \<open>float64\<close> conversions of counters are the identity.
\<close>

section \<open>Event records\<close>

record 'e etw_lib =
  lib_Uint16At :: "'e \<Rightarrow> nat \<Rightarrow> u16 option"
  lib_Uint32At :: "'e \<Rightarrow> nat \<Rightarrow> u32 option"
  lib_Uint64At :: "'e \<Rightarrow> nat \<Rightarrow> u64 option"
  lib_Uint8At :: "'e \<Rightarrow> nat \<Rightarrow> u8 option"
  lib_PropUint :: "'e \<Rightarrow> string \<Rightarrow> u64 option"
  lib_PropString :: "'e \<Rightarrow> string \<Rightarrow> string option"
  lib_PointerSize :: "'e \<Rightarrow> nat"
  lib_ProcessId :: "'e \<Rightarrow> u32"
  lib_ThreadId :: "'e \<Rightarrow> u32"
  lib_Opcode :: "'e \<Rightarrow> u8"
  lib_EventId :: "'e \<Rightarrow> u16"
  lib_ProviderId :: "'e \<Rightarrow> nat"
  lib_Timestamp :: "'e \<Rightarrow> go_time"
  lib_TimestampNanos :: "'e \<Rightarrow> int"
  lib_Processor :: "'e \<Rightarrow> u16"
  lib_WmiTimeAt :: "'e \<Rightarrow> nat \<Rightarrow> go_time option"

datatype handler_error = ParseError | OtherError

type_synonym 's handled = "('s \<times> handler_error option) option"

definition ok :: "'s \<Rightarrow> 's handled" where
  "ok s = Some (s, None)"

definition fail :: "'s \<Rightarrow> 's handled" where
  "fail s = Some (s, Some ParseError)"

text \<open>A concrete record: payload bytes, named properties and the header fields.\<close>

record sample_event =
  se_data :: "u8 list"
  se_uints :: "(string \<times> u64) list"
  se_strings :: "(string \<times> string) list"
  se_ptr :: nat
  se_pid :: u32
  se_tid :: u32
  se_opcode :: u8
  se_id :: u16
  se_provider :: nat
  se_time :: go_time
  se_nanos :: int
  se_cpu :: u16

definition le_read :: "nat \<Rightarrow> sample_event \<Rightarrow> nat \<Rightarrow> nat option" where
  "le_read n e off =
     (if off + n \<le> length (se_data e)
      then Some (foldr (\<lambda>b acc. unat b + 256 * acc) (take n (drop off (se_data e))) 0)
      else None)"

definition byte_lib :: "sample_event etw_lib" where
  "byte_lib = \<lparr>
     lib_Uint16At = (\<lambda>e off. map_option of_nat (le_read 2 e off)),
     lib_Uint32At = (\<lambda>e off. map_option of_nat (le_read 4 e off)),
     lib_Uint64At = (\<lambda>e off. map_option of_nat (le_read 8 e off)),
     lib_Uint8At = (\<lambda>e off. map_option of_nat (le_read 1 e off)),
     lib_PropUint = (\<lambda>e k. map_of (se_uints e) k),
     lib_PropString = (\<lambda>e k. map_of (se_strings e) k),
     lib_PointerSize = se_ptr, lib_ProcessId = se_pid, lib_ThreadId = se_tid,
     lib_Opcode = se_opcode, lib_EventId = se_id, lib_ProviderId = se_provider,
     lib_Timestamp = se_time, lib_TimestampNanos = se_nanos, lib_Processor = se_cpu,
     lib_WmiTimeAt = (\<lambda>e off. map_option int (le_read 8 e off))\<rparr>"


section \<open>Methods on shared process objects\<close>

definition call_on :: "ref \<Rightarrow> (process_data \<Rightarrow> process_data option) \<Rightarrow> ksm \<Rightarrow> ksm option" where
  "call_on r f s = map_option (\<lambda>pd. upd_obj r (\<lambda>_. pd) s) (f (heap s r))"

definition safe_method :: "(process_data \<Rightarrow> process_data option) \<Rightarrow> bool" where
  "safe_method f \<longleftrightarrow> (\<forall>pd. wf_process_data pd \<longrightarrow>
     (\<exists>pd'. f pd = Some pd' \<and> wf_process_data pd' \<and> Info pd' = Info pd))"

lemma safe_methodI:
  "(\<And>pd. wf_process_data pd \<Longrightarrow> \<exists>pd'. f pd = Some pd' \<and> wf_process_data pd' \<and> Info pd' = Info pd) \<Longrightarrow>
   safe_method f"
  by (simp add: safe_method_def)

text \<open>A method that keeps the identity of the object it is called on keeps the state invariant.\<close>

lemma upd_obj_const_inv:
  assumes "ksm_inv s" and "wf_process_data pd" and "Info pd = Info (heap s r)"
  shows "ksm_inv (upd_obj r (\<lambda>_. pd) s)"
proof -
  let ?f = "\<lambda>q. if Info q = Info pd then pd else q"
  have e: "upd_obj r (\<lambda>_. pd) s = upd_obj r ?f s" using assms(3) by (simp add: upd_obj_def)
  have "keeps_identity ?f" using assms(2) by (simp add: keeps_identity_def)
  then show ?thesis unfolding e using assms(1) by (rule upd_obj_inv_all)
qed

lemma call_on_inv:
  assumes "safe_method f" and "ksm_inv s"
  shows "\<exists>pd. f (heap s r) = Some pd \<and> call_on r f s = Some (upd_obj r (\<lambda>_. pd) s)
    \<and> ksm_inv (upd_obj r (\<lambda>_. pd) s)"
proof -
  have "wf_process_data (heap s r)" using ksm_invD(1) [OF assms(2)] by (simp add: proc_parts)
  then obtain pd where pd: "f (heap s r) = Some pd" "wf_process_data pd" "Info pd = Info (heap s r)"
    using assms(1) by (auto simp: safe_method_def)
  then show ?thesis using upd_obj_const_inv [OF assms(2) pd(2,3)] by (simp add: call_on_def)
qed

lemma safe_RecordDiskIO: "safe_method (RecordDiskIO d n w)"
  by (rule safe_methodI) (use RecordDiskIO_Some in blast)

lemma safe_RecordRegistryOperation:
  "RegistryOpcodeToString opcode \<noteq> '''' \<Longrightarrow> safe_method (RecordRegistryOperation opcode status)"
  by (rule safe_methodI) (use RecordRegistryOperation_Some in blast)


section \<open>Metrics\<close>

record prom_desc =
  Desc_Name :: string
  Desc_Labels :: "string list"

datatype metric =
    CounterMetric string nat "string list"
  | GaugeMetric string int "string list"
  | HistogramMetric string nat int "(int \<times> nat) list" "string list"

definition program_labels :: "program_aggregation_key \<Rightarrow> string list" where
  "program_labels key = [Key_Name key, Key_ServiceName key,
     ''0x'' @ FormatUint16 (unat (Key_UniqueHash key)), FormatUint10 (unat (Key_SessionID key))]"

definition program_label_names :: "string list" where
  "program_label_names = [''process_name'', ''service_name'', ''pe_checksum'', ''session_id'']"

text \<open>\<open>NewDesc\<close>, without the help text and constant labels (there are none).\<close>

definition NewDesc :: "string \<Rightarrow> string list \<Rightarrow> prom_desc" where
  "NewDesc name labels = \<lparr>Desc_Name = name, Desc_Labels = labels\<rparr>"

text \<open>The metrics a collector sends per program, in the order of the published map.\<close>

definition program_metrics ::
    "(program_aggregation_key \<Rightarrow> aggregated_program_metrics \<Rightarrow> metric list) \<Rightarrow> ksm \<Rightarrow> metric list" where
  "program_metrics f s = RangeAggregatedMetrics (\<lambda>ms key m. (ms @ f key m, True)) s []"

lemma program_metrics_eq:
  "program_metrics f s =
     (case aggregatedData s of None \<Rightarrow> [] | Some data \<Rightarrow> concat (map (\<lambda>(k, m). f k m) (cm_entries data)))"
proof -
  have "range_loop (\<lambda>ms key m. (ms @ f key m, True)) xs ms = ms @ concat (map (\<lambda>(k, m). f k m) xs)" for xs ms
    by (induction xs arbitrary: ms) auto
  then show ?thesis
    by (simp add: program_metrics_def RangeAggregatedMetrics_def cm_range_def split: option.split)
qed

end
