(* ===== verification/Disk_Collector.thy ===== *)
theory Disk_Collector
  imports Etw
begin

text \<open>
  \<open>kerneldiskio\<close>: the disk collector with its system-wide counters, and the two handlers that
  feed it, from raw MOF records and from manifest events. A handler works on the collector
  (nil when disk metrics are disabled) and the kernel state.
\<close>

section \<open>The collector\<close>

record disk_collector =
  diskIOCount :: "(u32, i64 list) cmap"
  diskBytesRead :: "(u32, i64) cmap"
  diskBytesWritten :: "(u32, i64) cmap"

definition NewDiskIOCustomCollector :: disk_collector where
  "NewDiskIOCustomCollector = \<lparr>diskIOCount = cm_empty, diskBytesRead = cm_empty, diskBytesWritten = cm_empty\<rparr>"

definition createDiskIoCounts :: "u32 \<Rightarrow> disk_collector \<Rightarrow> disk_collector" where
  "createDiskIoCounts diskNumber c = c\<lparr>
     diskIOCount := cm_store diskNumber (replicate DiskOpCount 0) (diskIOCount c),
     diskBytesRead := cm_store diskNumber 0 (diskBytesRead c),
     diskBytesWritten := cm_store diskNumber 0 (diskBytesWritten c)\<rparr>"

definition ensure_disk :: "u32 \<Rightarrow> disk_collector \<Rightarrow> disk_collector" where
  "ensure_disk diskNumber c =
     (if cm_load diskNumber (diskIOCount c) = None then createDiskIoCounts diskNumber c else c)"

text \<open>A missing entry would be a nil pointer.\<close>

definition count_op :: "u32 \<Rightarrow> nat \<Rightarrow> disk_collector \<Rightarrow> disk_collector option" where
  "count_op diskNumber op c =
     (case cm_load diskNumber (diskIOCount c) of
        None \<Rightarrow> None
      | Some arr \<Rightarrow> map_option (\<lambda>arr'. c\<lparr>diskIOCount := cm_store diskNumber arr' (diskIOCount c)\<rparr>)
                     (arr_add arr op 1))"

definition add_bytes :: "u32 \<Rightarrow> u32 \<Rightarrow> bool \<Rightarrow> disk_collector \<Rightarrow> disk_collector option" where
  "add_bytes diskNumber transferSize isWrite c =
     (if isWrite
      then map_option (\<lambda>n. c\<lparr>diskBytesWritten := cm_store diskNumber (n + ucast transferSize) (diskBytesWritten c)\<rparr>)
             (cm_load diskNumber (diskBytesWritten c))
      else map_option (\<lambda>n. c\<lparr>diskBytesRead := cm_store diskNumber (n + ucast transferSize) (diskBytesRead c)\<rparr>)
             (cm_load diskNumber (diskBytesRead c)))"

definition dc_RecordDiskIO :: "u32 \<Rightarrow> ptr \<Rightarrow> u32 \<Rightarrow> bool \<Rightarrow> disk_collector \<times> ksm \<Rightarrow> (disk_collector \<times> ksm) option" where
  "dc_RecordDiskIO diskNumber pData transferSize isWrite st =
     (case st of (c, s) \<Rightarrow>
        let operation = (if isWrite then DiskOpWrite else DiskOpRead)
        in case count_op diskNumber operation (ensure_disk diskNumber c) of
             None \<Rightarrow> None
           | Some c1 \<Rightarrow>
               (case add_bytes diskNumber transferSize isWrite c1 of
                  None \<Rightarrow> None
                | Some c2 \<Rightarrow>
                    (case pData of
                       None \<Rightarrow> Some (c2, s)
                     | Some r \<Rightarrow> map_option (Pair c2)
                                  (call_on r (RecordDiskIO diskNumber transferSize isWrite) s))))"

definition RecordDiskFlush :: "u32 \<Rightarrow> disk_collector \<Rightarrow> disk_collector option" where
  "RecordDiskFlush diskNumber c = count_op diskNumber DiskOpFlush (ensure_disk diskNumber c)"

definition disk_program_metrics :: "program_aggregation_key \<Rightarrow> aggregated_program_metrics \<Rightarrow> metric list" where
  "disk_program_metrics key m =
     (case Agg_Disk m of
        None \<Rightarrow> []
      | Some disks \<Rightarrow> concat (map (\<lambda>(d, f).
          let labels = program_labels key @ [FormatUint10 (unat d)] in
          concat (map (\<lambda>op. if F_IOCount f ! op = 0 then []
             else [CounterMetric ''etw_disk_process_io_operations_total'' (unat (F_IOCount f ! op))
                     (labels @ [DiskOpToString ! op])]) [0..<length (F_IOCount f)])
          @ (if sint (F_BytesRead f) > 0
             then [CounterMetric ''etw_disk_process_read_bytes_total'' (unat (F_BytesRead f)) labels] else [])
          @ (if sint (F_BytesWritten f) > 0
             then [CounterMetric ''etw_disk_process_written_bytes_total'' (unat (F_BytesWritten f)) labels] else []))
          (cm_entries disks)))"

definition disk_Collect :: "disk_collector \<Rightarrow> ksm \<Rightarrow> metric list" where
  "disk_Collect c s =
     concat (map (\<lambda>(d, arr). map (\<lambda>op. CounterMetric ''etw_disk_io_operations_total'' (unat (arr ! op))
                [FormatUint10 (unat d), DiskOpToString ! op]) [0..<length arr]) (cm_entries (diskIOCount c)))
     @ map (\<lambda>(d, n). CounterMetric ''etw_disk_read_bytes_total'' (unat n) [FormatUint10 (unat d)])
         (cm_entries (diskBytesRead c))
     @ map (\<lambda>(d, n). CounterMetric ''etw_disk_written_bytes_total'' (unat n) [FormatUint10 (unat d)])
         (cm_entries (diskBytesWritten c))
     @ program_metrics disk_program_metrics s"

definition disk_Describe :: "prom_desc list" where
  "disk_Describe =
     [NewDesc ''etw_disk_io_operations_total'' [''disk'', ''operation''],
      NewDesc ''etw_disk_read_bytes_total'' [''disk''],
      NewDesc ''etw_disk_written_bytes_total'' [''disk''],
      NewDesc ''etw_disk_process_io_operations_total'' (program_label_names @ [''disk'', ''operation'']),
      NewDesc ''etw_disk_process_read_bytes_total'' (program_label_names @ [''disk'']),
      NewDesc ''etw_disk_process_written_bytes_total'' (program_label_names @ [''disk''])]"


section \<open>The MOF handler\<close>

text \<open>Attribution: the issuing thread, then the process of the header, then the System process.\<close>

definition load_ptr :: "u32 \<Rightarrow> (u32 \<Rightarrow> ptr option) \<Rightarrow> ptr" where
  "load_ptr k f = (case f k of Some p \<Rightarrow> p | None \<Rightarrow> None)"

definition attribute_disk :: "u32 \<Rightarrow> u32 \<Rightarrow> ksm \<Rightarrow> ptr" where
  "attribute_disk issuingTID headerPID s =
     (let p1 = (if issuingTID \<noteq> 0 \<and> issuingTID \<noteq> 0xFFFFFFFF
                then load_ptr issuingTID (\<lambda>t. GetCurrentProcessDataByThread t s) else None);
          p2 = (if p1 = None \<and> headerPID \<noteq> 0 \<and> headerPID \<noteq> 0xFFFFFFFF
                then load_ptr headerPID (\<lambda>p. GetCurrentProcessDataByPID p s) else p1)
      in if p2 = None then load_ptr SystemProcessID (\<lambda>p. GetCurrentProcessDataByPID p s) else p2)"

definition HandleDiskTransferMofRaw ::
    "bool \<Rightarrow> 'e etw_lib \<Rightarrow> 'e \<Rightarrow> disk_collector option \<times> ksm \<Rightarrow> (disk_collector option \<times> ksm) handled" where
  "HandleDiskTransferMofRaw isWrite lib er st =
     (case st of
        (None, s) \<Rightarrow> ok st
      | (Some c, s) \<Rightarrow>
          (case lib_Uint32At lib er 0 of
             None \<Rightarrow> fail st
           | Some diskNumber \<Rightarrow>
               (case lib_Uint32At lib er 8 of
                  None \<Rightarrow> fail st
                | Some transferSize \<Rightarrow>
                    (case lib_Uint32At lib er (if lib_PointerSize lib er \<noteq> 8 then 40 else 48) of
                       None \<Rightarrow> fail st
                     | Some issuingTID \<Rightarrow>
                         (case dc_RecordDiskIO diskNumber (attribute_disk issuingTID (lib_ProcessId lib er) s)
                                 transferSize isWrite (c, s) of
                            None \<Rightarrow> None
                          | Some (c', s') \<Rightarrow> ok (Some c', s'))))))"

definition HandleDiskReadMofRaw ::
    "'e etw_lib \<Rightarrow> 'e \<Rightarrow> disk_collector option \<times> ksm \<Rightarrow> (disk_collector option \<times> ksm) handled" where
  "HandleDiskReadMofRaw = HandleDiskTransferMofRaw False"

definition HandleDiskWriteMofRaw ::
    "'e etw_lib \<Rightarrow> 'e \<Rightarrow> disk_collector option \<times> ksm \<Rightarrow> (disk_collector option \<times> ksm) handled" where
  "HandleDiskWriteMofRaw = HandleDiskTransferMofRaw True"

definition disk_flush :: "u32 option \<Rightarrow> disk_collector option \<times> ksm \<Rightarrow> (disk_collector option \<times> ksm) handled" where
  "disk_flush diskNumber st =
     (case st of
        (None, s) \<Rightarrow> ok st
      | (Some c, s) \<Rightarrow>
          (case diskNumber of
             None \<Rightarrow> fail st
           | Some d \<Rightarrow> (case RecordDiskFlush d c of None \<Rightarrow> None | Some c' \<Rightarrow> ok (Some c', s))))"

definition HandleDiskFlushMofRaw ::
    "'e etw_lib \<Rightarrow> 'e \<Rightarrow> disk_collector option \<times> ksm \<Rightarrow> (disk_collector option \<times> ksm) handled" where
  "HandleDiskFlushMofRaw lib er = disk_flush (lib_Uint32At lib er 0)"


section \<open>The manifest handler\<close>

text \<open>Property values are 64-bit; the code keeps their low 32 bits.\<close>

definition HandleDiskTransfer ::
    "bool \<Rightarrow> 'e etw_lib \<Rightarrow> 'e \<Rightarrow> disk_collector option \<times> ksm \<Rightarrow> (disk_collector option \<times> ksm) handled" where
  "HandleDiskTransfer isWrite lib er st =
     (case st of
        (None, s) \<Rightarrow> ok st
      | (Some c, s) \<Rightarrow>
          (case lib_PropUint lib er ''DiskNumber'' of
             None \<Rightarrow> fail st
           | Some diskNumber \<Rightarrow>
               (case lib_PropUint lib er ''TransferSize'' of
                  None \<Rightarrow> fail st
                | Some transferSize \<Rightarrow>
                    (case dc_RecordDiskIO (ucast diskNumber)
                            (load_ptr (lib_ProcessId lib er) (\<lambda>p. GetCurrentProcessDataByPID p s))
                            (ucast transferSize) isWrite (c, s) of
                       None \<Rightarrow> None
                     | Some (c', s') \<Rightarrow> ok (Some c', s')))))"

definition HandleDiskRead ::
    "'e etw_lib \<Rightarrow> 'e \<Rightarrow> disk_collector option \<times> ksm \<Rightarrow> (disk_collector option \<times> ksm) handled" where
  "HandleDiskRead = HandleDiskTransfer False"

definition HandleDiskWrite ::
    "'e etw_lib \<Rightarrow> 'e \<Rightarrow> disk_collector option \<times> ksm \<Rightarrow> (disk_collector option \<times> ksm) handled" where
  "HandleDiskWrite = HandleDiskTransfer True"

definition HandleDiskFlush ::
    "'e etw_lib \<Rightarrow> 'e \<Rightarrow> disk_collector option \<times> ksm \<Rightarrow> (disk_collector option \<times> ksm) handled" where
  "HandleDiskFlush lib er = disk_flush (map_option ucast (lib_PropUint lib er ''DiskNumber''))"


section \<open>Correctness of the recording\<close>

definition disk_inv :: "disk_collector \<Rightarrow> bool" where
  "disk_inv c \<longleftrightarrow> cm_invar (diskIOCount c) \<and> cm_invar (diskBytesRead c) \<and> cm_invar (diskBytesWritten c)
     \<and> (\<forall>d arr. cm_load d (diskIOCount c) = Some arr \<longrightarrow> length arr = DiskOpCount)
     \<and> (\<forall>d. (cm_load d (diskBytesRead c) = None) = (cm_load d (diskIOCount c) = None))
     \<and> (\<forall>d. (cm_load d (diskBytesWritten c) = None) = (cm_load d (diskIOCount c) = None))"

definition dc_count :: "disk_collector \<Rightarrow> u32 \<Rightarrow> nat \<Rightarrow> i64" where
  "dc_count c d op = (case cm_load d (diskIOCount c) of Some arr \<Rightarrow> op_at op arr | None \<Rightarrow> 0)"

definition dc_read :: "disk_collector \<Rightarrow> u32 \<Rightarrow> i64" where
  "dc_read c d = opt0 (cm_load d (diskBytesRead c))"

definition dc_written :: "disk_collector \<Rightarrow> u32 \<Rightarrow> i64" where
  "dc_written c d = opt0 (cm_load d (diskBytesWritten c))"

lemma disk_inv_new [simp]: "disk_inv NewDiskIOCustomCollector"
  by (simp add: disk_inv_def NewDiskIOCustomCollector_def)

lemma ensure_disk_spec:
  assumes "disk_inv c"
  shows "disk_inv (ensure_disk d c)" and "cm_load d (diskIOCount (ensure_disk d c)) \<noteq> None"
    and "dc_count (ensure_disk d c) e op = dc_count c e op"
    and "dc_read (ensure_disk d c) e = dc_read c e" and "dc_written (ensure_disk d c) e = dc_written c e"
  using assms
  by (auto simp: ensure_disk_def createDiskIoCounts_def disk_inv_def dc_count_def dc_read_def dc_written_def opt0_def
      split: option.splits if_splits) (metis option.distinct(1))+

lemma op_at_upd: "i < length xs \<Longrightarrow> op_at j (xs[i := xs ! i + v]) = op_at j xs + (if j = i then v else (0::'a::monoid_add))"
  by (auto simp: op_at_def nth_list_update)

lemma count_op_spec:
  assumes "disk_inv c" and "cm_load d (diskIOCount c) \<noteq> None" and "op < DiskOpCount"
  shows "\<exists>c'. count_op d op c = Some c' \<and> disk_inv c' \<and> cm_load d (diskIOCount c') \<noteq> None
    \<and> (\<forall>e o'. dc_count c' e o' = dc_count c e o' + (if e = d \<and> o' = op then 1 else 0))
    \<and> (\<forall>e. dc_read c' e = dc_read c e) \<and> (\<forall>e. dc_written c' e = dc_written c e)"
proof -
  obtain arr where arr: "cm_load d (diskIOCount c) = Some arr" using assms(2) by auto
  then have len: "length arr = DiskOpCount" using assms(1) by (simp add: disk_inv_def)
  let ?c = "c\<lparr>diskIOCount := cm_store d (arr[op := arr ! op + 1]) (diskIOCount c)\<rparr>"
  have "count_op d op c = Some ?c"
    using arr len assms(3) by (simp add: count_op_def arr_add_def)
  moreover have "disk_inv ?c"
    using assms(1) arr len by (auto simp: disk_inv_def)
  moreover have "dc_count ?c e o' = dc_count c e o' + (if e = d \<and> o' = op then 1 else 0)" for e o'
    using arr len assms(3) op_at_upd [of op arr o' 1] by (auto simp: dc_count_def)
  ultimately show ?thesis by (simp add: dc_read_def dc_written_def)
qed

lemma add_bytes_spec:
  assumes "disk_inv c" and "cm_load d (diskIOCount c) \<noteq> None"
  shows "\<exists>c'. add_bytes d n w c = Some c' \<and> disk_inv c' \<and> (\<forall>e op. dc_count c' e op = dc_count c e op)
    \<and> (\<forall>e. dc_read c' e = dc_read c e + (if e = d \<and> \<not> w then ucast n else 0))
    \<and> (\<forall>e. dc_written c' e = dc_written c e + (if e = d \<and> w then ucast n else 0))"
proof -
  obtain arr where "cm_load d (diskIOCount c) = Some arr" using assms(2) by auto
  then obtain b1 b2 where b: "cm_load d (diskBytesRead c) = Some b1" "cm_load d (diskBytesWritten c) = Some b2"
    using assms(1) by (fastforce simp: disk_inv_def)
  have "disk_inv (c\<lparr>diskBytesRead := cm_store d v (diskBytesRead c)\<rparr>)"
    "disk_inv (c\<lparr>diskBytesWritten := cm_store d v (diskBytesWritten c)\<rparr>)" for v
    using assms b by (auto simp: disk_inv_def)
  then show ?thesis
    using b by (auto simp: add_bytes_def dc_count_def dc_read_def dc_written_def opt0_def)
qed

lemma dc_RecordDiskIO_spec:
  assumes "disk_inv c" and "ksm_inv s"
  shows "\<exists>c' s'. dc_RecordDiskIO d p n w (c, s) = Some (c', s') \<and> disk_inv c' \<and> ksm_inv s'
    \<and> (\<forall>e op. dc_count c' e op =
          dc_count c e op + (if e = d \<and> op = (if w then DiskOpWrite else DiskOpRead) then 1 else 0))
    \<and> (\<forall>e. dc_read c' e = dc_read c e + (if e = d \<and> \<not> w then ucast n else 0))
    \<and> (\<forall>e. dc_written c' e = dc_written c e + (if e = d \<and> w then ucast n else 0))
    \<and> (case p of None \<Rightarrow> s' = s
       | Some r \<Rightarrow> \<exists>pd. RecordDiskIO d n w (heap s r) = Some pd \<and> s' = upd_obj r (\<lambda>_. pd) s)"
proof -
  note E = ensure_disk_spec [OF assms(1)]
  let ?op = "if w then DiskOpWrite else DiskOpRead"
  have "?op < DiskOpCount" by (simp add: module_consts)
  then obtain c1 where c1: "count_op d ?op (ensure_disk d c) = Some c1" "disk_inv c1"
    "cm_load d (diskIOCount c1) \<noteq> None"
    "\<forall>e o'. dc_count c1 e o' = dc_count c e o' + (if e = d \<and> o' = ?op then 1 else 0)"
    "\<forall>e. dc_read c1 e = dc_read c e" "\<forall>e. dc_written c1 e = dc_written c e"
    using count_op_spec [OF E(1,2), of ?op d, unfolded E(3-5)] by blast
  obtain c2 where c2: "add_bytes d n w c1 = Some c2" "disk_inv c2"
    "\<forall>e op. dc_count c2 e op = dc_count c1 e op"
    "\<forall>e. dc_read c2 e = dc_read c1 e + (if e = d \<and> \<not> w then ucast n else 0)"
    "\<forall>e. dc_written c2 e = dc_written c1 e + (if e = d \<and> w then ucast n else 0)"
    using add_bytes_spec [OF c1(2,3)] by blast
  show ?thesis
  proof (cases p)
    case None
    then show ?thesis using c1 c2 assms(2) by (simp add: dc_RecordDiskIO_def Let_def)
  next
    case (Some r)
    then show ?thesis using c1 c2 call_on_inv [OF safe_RecordDiskIO assms(2), of d n w r]
      by (auto simp: dc_RecordDiskIO_def Let_def)
  qed
qed

lemma RecordDiskFlush_spec:
  assumes "disk_inv c"
  shows "\<exists>c'. RecordDiskFlush d c = Some c' \<and> disk_inv c'
    \<and> (\<forall>e op. dc_count c' e op = dc_count c e op + (if e = d \<and> op = DiskOpFlush then 1 else 0))"
  using count_op_spec [OF ensure_disk_spec(1,2) [OF assms], of DiskOpFlush d]
  by (auto simp: RecordDiskFlush_def ensure_disk_spec(3) [OF assms] module_consts)

text \<open>What the attribution finds is a live process; the order of preference is thread, header,
  System.\<close>

lemma attribute_disk_live:
  assumes "ksm_inv s" and "attribute_disk tid pid s = Some r"
  shows "ref_live s r"
  using assms(2) thread_invD(3) [OF ksm_invD(2) [OF assms(1)]] proc_inv_pid [OF ksm_invD(1) [OF assms(1)]]
  by (fastforce simp: attribute_disk_def Let_def load_ptr_def GetCurrentProcessDataByThread_def
      GetCurrentProcessDataByPID_def split: if_splits option.splits)

definition handled_ok :: "'s handled \<Rightarrow> ('s \<Rightarrow> bool) \<Rightarrow> bool" where
  "handled_ok r P \<longleftrightarrow> (\<exists>s e. r = Some (s, e) \<and> P s)"

definition disk_state_ok :: "disk_collector option \<times> ksm \<Rightarrow> bool" where
  "disk_state_ok st \<longleftrightarrow> (\<forall>c. fst st = Some c \<longrightarrow> disk_inv c) \<and> ksm_inv (snd st)"

text \<open>No disk handler panics, whatever the event holds.\<close>

lemma disk_handlers_safe:
  assumes "disk_state_ok st"
  shows "handled_ok (HandleDiskTransferMofRaw w lib er st) disk_state_ok"
    and "handled_ok (HandleDiskTransfer w lib er st) disk_state_ok"
    and "handled_ok (disk_flush d st) disk_state_ok"
proof -
  obtain co s where st: "st = (co, s)" by force
  have "handled_ok (HandleDiskTransferMofRaw w lib er st) disk_state_ok \<and>
    handled_ok (HandleDiskTransfer w lib er st) disk_state_ok \<and> handled_ok (disk_flush d st) disk_state_ok"
  proof (cases co)
    case None
    then show ?thesis using assms st
      by (simp add: handled_ok_def HandleDiskTransferMofRaw_def HandleDiskTransfer_def disk_flush_def ok_def)
  next
    case (Some c)
    have inv: "disk_inv c" "ksm_inv s" using assms st Some by (simp_all add: disk_state_ok_def)
    have rec: "dc_RecordDiskIO d p n w (c, s) \<noteq> None"
      "dc_RecordDiskIO d p n w (c, s) = Some (c', s') \<Longrightarrow> disk_state_ok (Some c', s')" for d p n c' s'
      using dc_RecordDiskIO_spec [OF inv, of d p n w] by (auto simp: disk_state_ok_def)
    have flush: "RecordDiskFlush d c \<noteq> None" "RecordDiskFlush d c = Some c' \<Longrightarrow> disk_state_ok (Some c', s)" for d c'
      using RecordDiskFlush_spec [OF inv(1), of d] inv(2) by (auto simp: disk_state_ok_def)
    have "handled_ok (HandleDiskTransferMofRaw w lib er st) disk_state_ok"
      using rec assms unfolding st Some HandleDiskTransferMofRaw_def
      by (simp add: ok_def fail_def handled_ok_def del: not_None_eq split: option.split)
    moreover have "handled_ok (HandleDiskTransfer w lib er st) disk_state_ok"
      using rec assms unfolding st Some HandleDiskTransfer_def
      by (simp add: ok_def fail_def handled_ok_def del: not_None_eq split: option.split)
    moreover have "handled_ok (disk_flush d st) disk_state_ok"
      using flush assms unfolding st Some disk_flush_def
      by (simp add: ok_def fail_def handled_ok_def del: not_None_eq split: option.split)
    ultimately show ?thesis by blast
  qed
  then show "handled_ok (HandleDiskTransferMofRaw w lib er st) disk_state_ok"
    and "handled_ok (HandleDiskTransfer w lib er st) disk_state_ok"
    and "handled_ok (disk_flush d st) disk_state_ok" by blast+
qed


section \<open>Properties\<close>

text \<open>A sequence of transfers: disk, process object (or nil), size, and whether it is a write.\<close>

type_synonym transfer = "u32 \<times> ptr \<times> u32 \<times> bool"

fun record_transfers :: "transfer list \<Rightarrow> disk_collector \<times> ksm \<Rightarrow> (disk_collector \<times> ksm) option" where
  "record_transfers [] st = Some st"
| "record_transfers ((d, p, n, w) # ts) st =
     (case dc_RecordDiskIO d p n w st of None \<Rightarrow> None | Some st' \<Rightarrow> record_transfers ts st')"

definition bytes_of :: "(u32 \<Rightarrow> ptr \<Rightarrow> bool \<Rightarrow> bool) \<Rightarrow> transfer list \<Rightarrow> i64" where
  "bytes_of P ts = sum_list (map (\<lambda>(d, p, n, w). if P d p w then ucast n else 0) ts)"

lemma bytes_of_simps [simp]:
  "bytes_of P [] = 0" "bytes_of P ((d, p, n, w) # ts) = (if P d p w then ucast n else 0) + bytes_of P ts"
  by (simp_all add: bytes_of_def)

lemma record_transfers_spec:
  assumes "disk_inv c" and "ksm_inv s"
  shows "\<exists>c' s'. record_transfers ts (c, s) = Some (c', s') \<and> disk_inv c' \<and> ksm_inv s'
    \<and> (\<forall>e. dc_read c' e = dc_read c e + bytes_of (\<lambda>d p w. d = e \<and> \<not> w) ts)
    \<and> (\<forall>e. dc_written c' e = dc_written c e + bytes_of (\<lambda>d p w. d = e \<and> w) ts)
    \<and> (\<forall>r e. BytesRead (disk_of (heap s' r) e) =
          BytesRead (disk_of (heap s r) e) + bytes_of (\<lambda>d p w. d = e \<and> p = Some r \<and> \<not> w) ts)
    \<and> (\<forall>r e. BytesWritten (disk_of (heap s' r) e) =
          BytesWritten (disk_of (heap s r) e) + bytes_of (\<lambda>d p w. d = e \<and> p = Some r \<and> w) ts)"
  using assms
proof (induction ts arbitrary: c s)
  case (Cons x ts)
  obtain d p n w where x: "x = (d, p, n, w)" by (cases x)
  obtain c1 s1 where 1: "dc_RecordDiskIO d p n w (c, s) = Some (c1, s1)" "disk_inv c1" "ksm_inv s1"
    "\<forall>e. dc_read c1 e = dc_read c e + (if e = d \<and> \<not> w then ucast n else 0)"
    "\<forall>e. dc_written c1 e = dc_written c e + (if e = d \<and> w then ucast n else 0)"
    "case p of None \<Rightarrow> s1 = s | Some r \<Rightarrow> \<exists>pd. RecordDiskIO d n w (heap s r) = Some pd \<and> s1 = upd_obj r (\<lambda>_. pd) s"
    using dc_RecordDiskIO_spec [OF Cons.prems, of d p n w] by blast
  have obj: "BytesRead (disk_of (heap s1 r) e) =
        BytesRead (disk_of (heap s r) e) + (if d = e \<and> p = Some r \<and> \<not> w then ucast n else 0)
      \<and> BytesWritten (disk_of (heap s1 r) e) =
        BytesWritten (disk_of (heap s r) e) + (if d = e \<and> p = Some r \<and> w then ucast n else 0)" for r e
  proof (cases p)
    case (Some q)
    obtain pd where pd: "RecordDiskIO d n w (heap s q) = Some pd" "s1 = upd_obj q (\<lambda>_. pd) s" using 1(6) Some by auto
    have "wf_process_data (heap s q)" using ksm_invD(1) [OF Cons.prems(2)] by (simp add: proc_parts)
    then show ?thesis using RecordDiskIO_Some [of "heap s q" d n w] pd Some by (auto simp: upd_obj_def Let_def)
  qed (use 1(6) in simp)
  obtain c' s' where 2: "record_transfers ts (c1, s1) = Some (c', s')" "disk_inv c'" "ksm_inv s'"
    "\<forall>e. dc_read c' e = dc_read c1 e + bytes_of (\<lambda>d p w. d = e \<and> \<not> w) ts"
    "\<forall>e. dc_written c' e = dc_written c1 e + bytes_of (\<lambda>d p w. d = e \<and> w) ts"
    "\<forall>r e. BytesRead (disk_of (heap s' r) e) =
          BytesRead (disk_of (heap s1 r) e) + bytes_of (\<lambda>d p w. d = e \<and> p = Some r \<and> \<not> w) ts"
    "\<forall>r e. BytesWritten (disk_of (heap s' r) e) =
          BytesWritten (disk_of (heap s1 r) e) + bytes_of (\<lambda>d p w. d = e \<and> p = Some r \<and> w) ts"
    using Cons.IH [OF 1(2,3)] by blast
  show ?case unfolding x
    by (rule exI [of _ c'], rule exI [of _ s'])
      (use 1(1,4,5) 2 obj in \<open>auto simp: eq_commute [of d]\<close>)
qed simp

text \<open>C18. Disk recording loses nothing: after any sequence of transfers a new collector holds, per
  disk, the sum of the sizes of the reads and of the writes, and each process object has
  gained exactly the bytes of its own transfers.\<close>

theorem disk_recording_exact:
  assumes "ksm_inv s"
  shows "\<exists>c' s'. record_transfers ts (NewDiskIOCustomCollector, s) = Some (c', s') \<and> ksm_inv s'
    \<and> (\<forall>e. dc_read c' e = bytes_of (\<lambda>d p w. d = e \<and> \<not> w) ts)
    \<and> (\<forall>e. dc_written c' e = bytes_of (\<lambda>d p w. d = e \<and> w) ts)
    \<and> (\<forall>r e. BytesRead (disk_of (heap s' r) e) =
          BytesRead (disk_of (heap s r) e) + bytes_of (\<lambda>d p w. d = e \<and> p = Some r \<and> \<not> w) ts)
    \<and> (\<forall>r e. BytesWritten (disk_of (heap s' r) e) =
          BytesWritten (disk_of (heap s r) e) + bytes_of (\<lambda>d p w. d = e \<and> p = Some r \<and> w) ts)"
proof -
  have "dc_read NewDiskIOCustomCollector e = 0" "dc_written NewDiskIOCustomCollector e = 0" for e
    by (simp_all add: dc_read_def dc_written_def NewDiskIOCustomCollector_def opt0_def)
  note new = this
  show ?thesis using record_transfers_spec [OF disk_inv_new assms, of ts] unfolding new add_0 by blast
qed

theorem disk_recording_exact_witness:
  "\<exists>c' s'. record_transfers [(0, Some 1, 4096, False), (0, None, 512, True), (0, Some 1, 100, False)]
       (NewDiskIOCustomCollector, sample_state) = Some (c', s')
     \<and> dc_read c' 0 = 4196 \<and> BytesRead (disk_of (heap s' 1) 0) = 4196"
proof -
  have "disk_of (heap sample_state 1) 0 = newDiskMetrics"
    by (simp add: sample_state_simps disk_of_def wf_Reset_new)
      (simp add: newProcessData_def newDiskModule_def)
  then show ?thesis
    using disk_recording_exact [OF sample_state_inv,
        of "[(0, Some 1, 4096, False), (0, None, 512, True), (0, Some 1, 100, False)]"]
    by (auto simp: newDiskMetrics_def)
qed


definition sample_read :: sample_event where
  "sample_read = \<lparr>se_data = [2,0,0,0, 0,0,0,0, 0,2,0,0, 0,0,0,0, 0,0,0,0, 0,0,0,0, 0,0,0,0, 0,0,0,0,
       0,0,0,0, 0,0,0,0, 0,0,0,0, 0,0,0,0, 0,0,0,0], se_uints = [], se_strings = [], se_ptr = 8, se_pid = 500,
     se_tid = 0, se_opcode = 10, se_id = 0, se_provider = 0, se_time = 0, se_nanos = 0, se_cpu = 0\<rparr>"

lemma sample_read_fields:
  "lib_Uint32At byte_lib sample_read 0 = Some 2" "lib_Uint32At byte_lib sample_read 8 = Some 512"
  "lib_Uint32At byte_lib sample_read 48 = Some 0" "lib_PointerSize byte_lib sample_read = 8"
  "lib_ProcessId byte_lib sample_read = 500"
  by (simp_all add: byte_lib_def le_read_def sample_read_def)


end
