(* ===== verification/Network_Collector.thy ===== *)
theory Network_Collector
  imports Disk_Collector
begin

unbundle bit_operations_syntax

text \<open>
  \<open>kernelnetwork\<close>: the network collector and its MOF and manifest handlers.

  The collector is nil until \<open>AttachCollector\<close> is called; its methods read their receiver, so a
  call on nil is a panic. A failure counter is keyed by a 32-bit word that packs protocol,
  address family and failure code.
\<close>

section \<open>Keys and labels\<close>

definition AddressFamilyIPV4 :: nat where "AddressFamilyIPV4 = 0"
definition AddressFamilyIPV6 :: nat where "AddressFamilyIPV6 = 1"
definition DirectionSent :: nat where "DirectionSent = 0"
definition DirectionReceived :: nat where "DirectionReceived = 1"
definition directionMax :: nat where "directionMax = 2"

definition directionIdx :: "nat \<Rightarrow> nat \<Rightarrow> nat" where
  "directionIdx protocol direction = protocol * directionMax + direction"

definition failureKey :: "nat \<Rightarrow> nat \<Rightarrow> u16 \<Rightarrow> u32" where
  "failureKey protocol addressFamily failureCode =
     push_bit 24 (of_nat protocol) OR push_bit 16 (of_nat addressFamily) OR ucast failureCode"

definition key_protocol :: "u32 \<Rightarrow> nat" where "key_protocol k = unat (drop_bit 24 k)"
definition key_family :: "u32 \<Rightarrow> nat" where "key_family k = unat (drop_bit 16 k AND 0xFF)"
definition key_code :: "u32 \<Rightarrow> u16" where "key_code k = ucast k"

lemma plain_failure_key_parts: "plain_failure_key k \<longleftrightarrow> key_protocol k < protocolMax \<and> key_family k < 2"
  by (simp add: plain_failure_key_def key_protocol_def key_family_def)

definition protocolToString :: "nat \<Rightarrow> string" where
  "protocolToString p = (if p = ProtocolTCP then ''tcp'' else if p = ProtocolUDP then ''udp'' else ''unknown'')"

definition addressFamilyToString :: "nat \<Rightarrow> string" where
  "addressFamilyToString af =
     (if af = AddressFamilyIPV4 then ''ipv4'' else if af = AddressFamilyIPV6 then ''ipv6'' else ''unknown'')"


section \<open>The collector\<close>

record network_config =
  Net_Enabled :: bool
  Net_ConnectionHealth :: bool
  Net_ByProtocol :: bool
  Net_RetransmissionRate :: bool

record net_collector =
  nc_config :: network_config
  trafficBytesTotal :: "u64 list"

type_synonym net_state = "net_collector option \<times> ksm"

definition NewNetworkCollector :: "network_config \<Rightarrow> net_collector" where
  "NewNetworkCollector cfg = \<lparr>nc_config = cfg, trafficBytesTotal = replicate (protocolMax * directionMax) 0\<rparr>"

definition call_ptr :: "ptr \<Rightarrow> (process_data \<Rightarrow> process_data option) \<Rightarrow> ksm \<Rightarrow> ksm option" where
  "call_ptr p f s = (case p of None \<Rightarrow> Some s | Some r \<Rightarrow> call_on r f s)"

definition add_traffic :: "nat \<Rightarrow> nat \<Rightarrow> u32 \<Rightarrow> net_collector \<Rightarrow> net_collector option" where
  "add_traffic protocol direction bytes c =
     (if Net_ByProtocol (nc_config c)
      then map_option (\<lambda>xs. c\<lparr>trafficBytesTotal := xs\<rparr>)
             (arr_add (trafficBytesTotal c) (directionIdx protocol direction) (ucast bytes))
      else Some c)"

definition nc_transfer :: "(nat \<Rightarrow> u32 \<Rightarrow> process_data \<Rightarrow> process_data option) \<Rightarrow> nat \<Rightarrow>
    ptr \<Rightarrow> nat \<Rightarrow> u32 \<Rightarrow> net_state \<Rightarrow> net_state option" where
  "nc_transfer meth direction pData protocol bytes st =
     (case call_ptr pData (meth protocol bytes) (snd st) of
        None \<Rightarrow> None
      | Some s' \<Rightarrow>
          (case fst st of
             None \<Rightarrow> None
           | Some c \<Rightarrow> map_option (\<lambda>c'. (Some c', s')) (add_traffic protocol direction bytes c)))"

definition nc_RecordDataSent :: "ptr \<Rightarrow> nat \<Rightarrow> u32 \<Rightarrow> net_state \<Rightarrow> net_state option" where
  "nc_RecordDataSent = nc_transfer RecordDataSent DirectionSent"

definition nc_RecordDataReceived :: "ptr \<Rightarrow> nat \<Rightarrow> u32 \<Rightarrow> net_state \<Rightarrow> net_state option" where
  "nc_RecordDataReceived = nc_transfer RecordDataReceived DirectionReceived"

definition nc_if :: "(network_config \<Rightarrow> bool) \<Rightarrow> (process_data \<Rightarrow> process_data option) \<Rightarrow> ptr \<Rightarrow>
    net_state \<Rightarrow> net_state option" where
  "nc_if enabled meth pData st =
     (case fst st of
        None \<Rightarrow> None
      | Some c \<Rightarrow> if enabled (nc_config c)
                  then map_option (Pair (Some c)) (call_ptr pData meth (snd st)) else Some st)"

definition nc_RecordConnectionAttempted :: "ptr \<Rightarrow> nat \<Rightarrow> net_state \<Rightarrow> net_state option" where
  "nc_RecordConnectionAttempted pData protocol =
     nc_if Net_ConnectionHealth (RecordConnectionAttempted protocol) pData"

definition nc_RecordConnectionAccepted :: "ptr \<Rightarrow> nat \<Rightarrow> net_state \<Rightarrow> net_state option" where
  "nc_RecordConnectionAccepted pData protocol =
     nc_if Net_ConnectionHealth (RecordConnectionAccepted protocol) pData"

definition nc_RecordConnectionFailed :: "ptr \<Rightarrow> nat \<Rightarrow> nat \<Rightarrow> u16 \<Rightarrow> net_state \<Rightarrow> net_state option" where
  "nc_RecordConnectionFailed pData protocol addressFamily failureCode =
     nc_if Net_ConnectionHealth
       (\<lambda>pd. Some (RecordConnectionFailed (failureKey protocol addressFamily failureCode) pd)) pData"

definition nc_RecordRetransmission :: "ptr \<Rightarrow> net_state \<Rightarrow> net_state option" where
  "nc_RecordRetransmission pData = nc_if Net_RetransmissionRate (\<lambda>pd. Some (RecordRetransmission pd)) pData"

definition per_protocol :: "string \<Rightarrow> string list \<Rightarrow> u64 list \<Rightarrow> metric list" where
  "per_protocol name labels counts = concat (map (\<lambda>p.
     if counts ! p > 0 then [CounterMetric name (unat (counts ! p)) (labels @ [protocolToString p])] else [])
     [0..<length counts])"

definition network_program_metrics ::
    "network_config \<Rightarrow> program_aggregation_key \<Rightarrow> aggregated_program_metrics \<Rightarrow> metric list" where
  "network_program_metrics cfg key m =
     (case Agg_Network m of
        None \<Rightarrow> []
      | Some n \<Rightarrow>
          let labels = program_labels key in
          per_protocol ''etw_network_process_sent_bytes_total'' labels (AN_BytesSent n)
          @ per_protocol ''etw_network_process_received_bytes_total'' labels (AN_BytesReceived n)
          @ (if Net_ConnectionHealth cfg
             then per_protocol ''etw_network_process_connections_attempted_total'' labels (AN_ConnectionsAttempted n)
                  @ per_protocol ''etw_network_process_connections_accepted_total'' labels (AN_ConnectionsAccepted n)
             else [])
          @ (if Net_RetransmissionRate cfg \<and> AN_RetransmissionsTotal n > 0
             then [CounterMetric ''etw_network_process_retransmissions_total''
                     (unat (AN_RetransmissionsTotal n)) labels] else [])
          @ (if Net_ConnectionHealth cfg
             then map (\<lambda>(k, count). CounterMetric ''etw_network_connections_failed_total'' (unat count)
                    (labels @ [protocolToString (key_protocol k), addressFamilyToString (key_family k),
                       FormatUint10 (unat (key_code k))])) (cm_entries (AN_ConnectionsFailed n))
             else []))"

definition traffic_metric :: "string \<Rightarrow> u64 list \<Rightarrow> nat \<Rightarrow> nat \<Rightarrow> metric list" where
  "traffic_metric name totals p direction =
     (let count = totals ! directionIdx p direction
      in if count > 0 then [CounterMetric name (unat count) [protocolToString p]] else [])"

definition network_Collect :: "net_collector \<Rightarrow> ksm \<Rightarrow> metric list" where
  "network_Collect c s =
     program_metrics (network_program_metrics (nc_config c)) s
     @ (if Net_ByProtocol (nc_config c)
        then concat (map (\<lambda>p. traffic_metric ''etw_network_sent_bytes_total'' (trafficBytesTotal c) p DirectionSent
               @ traffic_metric ''etw_network_received_bytes_total'' (trafficBytesTotal c) p DirectionReceived)
               [0..<protocolMax])
        else [])"

definition network_Describe :: "network_config \<Rightarrow> prom_desc list" where
  "network_Describe cfg =
     [NewDesc ''etw_network_process_sent_bytes_total'' (program_label_names @ [''protocol'']),
      NewDesc ''etw_network_process_received_bytes_total'' (program_label_names @ [''protocol''])]
     @ (if Net_ConnectionHealth cfg
        then [NewDesc ''etw_network_process_connections_attempted_total'' (program_label_names @ [''protocol'']),
              NewDesc ''etw_network_process_connections_accepted_total'' (program_label_names @ [''protocol'']),
              NewDesc ''etw_network_connections_failed_total''
                (program_label_names @ [''protocol'', ''address_family'', ''failure_code''])]
        else [])
     @ (if Net_ByProtocol cfg
        then [NewDesc ''etw_network_sent_bytes_total'' [''protocol''],
              NewDesc ''etw_network_received_bytes_total'' [''protocol'']]
        else [])
     @ (if Net_RetransmissionRate cfg
        then [NewDesc ''etw_network_process_retransmissions_total'' program_label_names] else [])"


section \<open>The handlers\<close>

definition bind_err :: "'a option \<Rightarrow> 's \<Rightarrow> ('a \<Rightarrow> 's handled) \<Rightarrow> 's handled" where
  "bind_err x st f = (case x of None \<Rightarrow> fail st | Some v \<Rightarrow> f v)"

text \<open>An unknown process skips the event.\<close>

definition on_process :: "u32 \<Rightarrow> (ptr \<Rightarrow> 'c \<times> ksm \<Rightarrow> ('c \<times> ksm) option) \<Rightarrow> 'c \<times> ksm \<Rightarrow> ('c \<times> ksm) handled" where
  "on_process pid f st =
     (case GetCurrentProcessDataByPID pid (snd st) of
        None \<Rightarrow> ok st
      | Some p \<Rightarrow> (case f p st of None \<Rightarrow> None | Some st' \<Rightarrow> ok st'))"

definition family_of :: "bool \<Rightarrow> nat" where
  "family_of inet6 = (if inet6 then AddressFamilyIPV6 else AddressFamilyIPV4)"

definition HandleTCPDataSent :: "'e etw_lib \<Rightarrow> 'e \<Rightarrow> net_state \<Rightarrow> net_state handled" where
  "HandleTCPDataSent lib er st =
     bind_err (lib_Uint32At lib er 0) st (\<lambda>pid. bind_err (lib_Uint32At lib er 4) st (\<lambda>size.
       on_process pid (\<lambda>p. nc_RecordDataSent p ProtocolTCP size) st))"

definition HandleTCPDataReceived :: "'e etw_lib \<Rightarrow> 'e \<Rightarrow> net_state \<Rightarrow> net_state handled" where
  "HandleTCPDataReceived lib er st =
     bind_err (lib_Uint32At lib er 0) st (\<lambda>pid. bind_err (lib_Uint32At lib er 4) st (\<lambda>size.
       on_process pid (\<lambda>p. nc_RecordDataReceived p ProtocolTCP size) st))"

definition HandleTCPConnectionAttempted :: "'e etw_lib \<Rightarrow> 'e \<Rightarrow> net_state \<Rightarrow> net_state handled" where
  "HandleTCPConnectionAttempted lib er st =
     bind_err (lib_Uint32At lib er 0) st (\<lambda>pid. on_process pid (\<lambda>p. nc_RecordConnectionAttempted p ProtocolTCP) st)"

definition HandleTCPConnectionAccepted :: "'e etw_lib \<Rightarrow> 'e \<Rightarrow> net_state \<Rightarrow> net_state handled" where
  "HandleTCPConnectionAccepted lib er st =
     bind_err (lib_Uint32At lib er 0) st (\<lambda>pid. on_process pid (\<lambda>p. nc_RecordConnectionAccepted p ProtocolTCP) st)"

definition HandleTCPDataRetransmitted :: "'e etw_lib \<Rightarrow> 'e \<Rightarrow> net_state \<Rightarrow> net_state handled" where
  "HandleTCPDataRetransmitted lib er st =
     bind_err (lib_Uint32At lib er 0) st (\<lambda>pid. on_process pid (\<lambda>p. nc_RecordRetransmission p) st)"

definition HandleTCPConnectionFailed :: "'e etw_lib \<Rightarrow> 'e \<Rightarrow> net_state \<Rightarrow> net_state handled" where
  "HandleTCPConnectionFailed lib er st =
     bind_err (lib_Uint16At lib er 0) st (\<lambda>proto. bind_err (lib_Uint16At lib er 2) st (\<lambda>failureCode.
       on_process SystemProcessID
         (\<lambda>p. nc_RecordConnectionFailed p ProtocolTCP (family_of (proto = 23)) failureCode) st))"

definition HandleUDPDataSent :: "'e etw_lib \<Rightarrow> 'e \<Rightarrow> net_state \<Rightarrow> net_state handled" where
  "HandleUDPDataSent lib er st =
     bind_err (lib_Uint32At lib er 0) st (\<lambda>pid. bind_err (lib_Uint32At lib er 4) st (\<lambda>size.
       on_process pid (\<lambda>p. nc_RecordDataSent p ProtocolUDP size) st))"

definition HandleUDPDataReceived :: "'e etw_lib \<Rightarrow> 'e \<Rightarrow> net_state \<Rightarrow> net_state handled" where
  "HandleUDPDataReceived lib er st =
     bind_err (lib_Uint32At lib er 0) st (\<lambda>pid. bind_err (lib_Uint32At lib er 4) st (\<lambda>size.
       on_process pid (\<lambda>p. nc_RecordDataReceived p ProtocolUDP size) st))"

definition HandleUDPConnectionFailed :: "'e etw_lib \<Rightarrow> 'e \<Rightarrow> net_state \<Rightarrow> net_state handled" where
  "HandleUDPConnectionFailed lib er st =
     bind_err (lib_Uint16At lib er 2) st (\<lambda>failureCode. bind_err (lib_Uint16At lib er 0) st (\<lambda>proto.
       on_process SystemProcessID
         (\<lambda>p. nc_RecordConnectionFailed p ProtocolUDP (family_of (proto = 23)) failureCode) st))"

text \<open>The manifest variants read named properties and keep the low bits of the values.\<close>

definition Manifest_HandleTCPDataSent :: "'e etw_lib \<Rightarrow> 'e \<Rightarrow> net_state \<Rightarrow> net_state handled" where
  "Manifest_HandleTCPDataSent lib er st =
     bind_err (lib_PropUint lib er ''PID'') st (\<lambda>pid. bind_err (lib_PropUint lib er ''size'') st (\<lambda>size.
       on_process (ucast pid) (\<lambda>p. nc_RecordDataSent p ProtocolTCP (ucast size)) st))"

definition Manifest_HandleTCPDataReceived :: "'e etw_lib \<Rightarrow> 'e \<Rightarrow> net_state \<Rightarrow> net_state handled" where
  "Manifest_HandleTCPDataReceived lib er st =
     bind_err (lib_PropUint lib er ''PID'') st (\<lambda>pid. bind_err (lib_PropUint lib er ''size'') st (\<lambda>size.
       on_process (ucast pid) (\<lambda>p. nc_RecordDataReceived p ProtocolTCP (ucast size)) st))"

definition Manifest_HandleTCPConnectionAttempted :: "'e etw_lib \<Rightarrow> 'e \<Rightarrow> net_state \<Rightarrow> net_state handled" where
  "Manifest_HandleTCPConnectionAttempted lib er st =
     bind_err (lib_PropUint lib er ''PID'') st (\<lambda>pid. on_process (ucast pid) (\<lambda>p. nc_RecordConnectionAttempted p ProtocolTCP) st)"

definition Manifest_HandleTCPConnectionAccepted :: "'e etw_lib \<Rightarrow> 'e \<Rightarrow> net_state \<Rightarrow> net_state handled" where
  "Manifest_HandleTCPConnectionAccepted lib er st =
     bind_err (lib_PropUint lib er ''PID'') st (\<lambda>pid. on_process (ucast pid) (\<lambda>p. nc_RecordConnectionAccepted p ProtocolTCP) st)"

definition Manifest_HandleTCPDataRetransmitted :: "'e etw_lib \<Rightarrow> 'e \<Rightarrow> net_state \<Rightarrow> net_state handled" where
  "Manifest_HandleTCPDataRetransmitted lib er st =
     bind_err (lib_PropUint lib er ''PID'') st (\<lambda>pid. on_process (ucast pid) (\<lambda>p. nc_RecordRetransmission p) st)"

definition Manifest_HandleTCPConnectionFailed :: "'e etw_lib \<Rightarrow> 'e \<Rightarrow> net_state \<Rightarrow> net_state handled" where
  "Manifest_HandleTCPConnectionFailed lib er st =
     bind_err (lib_PropUint lib er ''Proto'') st (\<lambda>proto. bind_err (lib_PropUint lib er ''FailureCode'') st (\<lambda>failureCode.
       on_process SystemProcessID
         (\<lambda>p. nc_RecordConnectionFailed p ProtocolTCP (family_of (proto = 23)) (ucast failureCode)) st))"

definition Manifest_HandleUDPDataSent :: "'e etw_lib \<Rightarrow> 'e \<Rightarrow> net_state \<Rightarrow> net_state handled" where
  "Manifest_HandleUDPDataSent lib er st =
     bind_err (lib_PropUint lib er ''PID'') st (\<lambda>pid. bind_err (lib_PropUint lib er ''size'') st (\<lambda>size.
       on_process (ucast pid) (\<lambda>p. nc_RecordDataSent p ProtocolUDP (ucast size)) st))"

definition Manifest_HandleUDPDataReceived :: "'e etw_lib \<Rightarrow> 'e \<Rightarrow> net_state \<Rightarrow> net_state handled" where
  "Manifest_HandleUDPDataReceived lib er st =
     bind_err (lib_PropUint lib er ''PID'') st (\<lambda>pid. bind_err (lib_PropUint lib er ''size'') st (\<lambda>size.
       on_process (ucast pid) (\<lambda>p. nc_RecordDataReceived p ProtocolUDP (ucast size)) st))"

definition Manifest_HandleUDPConnectionFailed :: "'e etw_lib \<Rightarrow> 'e \<Rightarrow> net_state \<Rightarrow> net_state handled" where
  "Manifest_HandleUDPConnectionFailed lib er st =
     bind_err (lib_PropUint lib er ''Proto'') st (\<lambda>proto. bind_err (lib_PropUint lib er ''FailureCode'') st (\<lambda>failureCode.
       on_process SystemProcessID
         (\<lambda>p. nc_RecordConnectionFailed p ProtocolUDP (family_of (proto = 23)) (ucast failureCode)) st))"


section \<open>Packing and indexing\<close>

lemma byte_of_nat: "n < 256 \<Longrightarrow> (of_nat n :: u32) = ucast (of_nat n :: u8)"
  by (simp add: word_unat_eq_iff unsigned_ucast_eq unsigned_of_nat take_bit_nat_eq_self)

lemma key_parts:
  fixes a b :: u8 and c :: u16
  defines "k \<equiv> push_bit 24 (ucast a :: u32) OR push_bit 16 (ucast b) OR ucast c"
  shows "drop_bit 24 k = ucast a" and "drop_bit 16 k AND 0xFF = ucast b" and "ucast k = c"
proof -
  have m: "(0xFF :: u32) = mask 8" by (simp add: mask_eq_exp_minus_1)
  show "drop_bit 24 k = ucast a"
    by (rule bit_word_eqI) (auto simp: k_def bit_simps dest: bit_imp_le_length)
  show "drop_bit 16 k AND 0xFF = ucast b"
    unfolding m by (rule bit_word_eqI) (auto simp: k_def bit_simps dest: bit_imp_le_length)
  show "ucast k = c"
    by (rule bit_word_eqI) (auto simp: k_def bit_simps dest: bit_imp_le_length)
qed

lemma key_roundtrip:
  assumes "protocol < 256" and "addressFamily < 256"
  shows "key_protocol (failureKey protocol addressFamily code) = protocol"
    and "key_family (failureKey protocol addressFamily code) = addressFamily"
    and "key_code (failureKey protocol addressFamily code) = code"
proof -
  have u: "unat (ucast (of_nat n :: u8) :: u32) = n" if "n < 256" for n
    using that by (simp flip: byte_of_nat add: unsigned_of_nat take_bit_nat_eq_self)
  show "key_protocol (failureKey protocol addressFamily code) = protocol"
    "key_family (failureKey protocol addressFamily code) = addressFamily"
    "key_code (failureKey protocol addressFamily code) = code"
    unfolding key_protocol_def key_family_def key_code_def failureKey_def
      byte_of_nat [OF assms(1)] byte_of_nat [OF assms(2)] key_parts
    by (rule u [OF assms(1)] u [OF assms(2)] refl)+
qed

lemma directionIdx_inj:
  assumes "d < directionMax" and "e < directionMax"
  shows "directionIdx p d = directionIdx q e \<longleftrightarrow> p = q \<and> d = e"
proof
  assume h: "directionIdx p d = directionIdx q e"
  have "(p * 2 + d) div 2 = p" "(q * 2 + e) div 2 = q" "(p * 2 + d) mod 2 = d" "(q * 2 + e) mod 2 = e"
    using assms by (simp_all add: directionMax_def)
  then show "p = q \<and> d = e" using h by (metis directionIdx_def directionMax_def)
qed simp

lemma directionIdx_bound: "p < protocolMax \<Longrightarrow> d < directionMax \<Longrightarrow> directionIdx p d < protocolMax * directionMax"
  by (simp add: directionIdx_def directionMax_def protocolMax_def)


section \<open>Safety and effect\<close>

definition net_state_ok :: "net_state \<Rightarrow> bool" where
  "net_state_ok st \<longleftrightarrow> (\<exists>c. fst st = Some c \<and> length (trafficBytesTotal c) = protocolMax * directionMax)
     \<and> ksm_inv (snd st)"

lemma call_ptr_inv:
  assumes "safe_method f" and "ksm_inv s"
  shows "\<exists>t. call_ptr p f s = Some t \<and> ksm_inv t"
  using call_on_inv [OF assms] assms(2) by (cases p) (auto simp: call_ptr_def)

lemma safe_network_methods:
  "p < protocolMax \<Longrightarrow> safe_method (RecordDataSent p n)"
  "p < protocolMax \<Longrightarrow> safe_method (RecordDataReceived p n)"
  "p < protocolMax \<Longrightarrow> safe_method (RecordConnectionAttempted p)"
  "p < protocolMax \<Longrightarrow> safe_method (RecordConnectionAccepted p)"
  "safe_method (\<lambda>pd. Some (RecordRetransmission pd))"
  "p < protocolMax \<Longrightarrow> a < 2 \<Longrightarrow> safe_method (\<lambda>pd. Some (RecordConnectionFailed (failureKey p a code) pd))"
proof -
  show "safe_method (\<lambda>pd. Some (RecordConnectionFailed (failureKey p a code) pd))" if "p < protocolMax" "a < 2"
  proof (rule safe_methodI)
    have "p < 256" "a < 256" using that by (simp_all add: protocolMax_def)
    from key_roundtrip(1,2) [OF this] have "plain_failure_key (failureKey p a code)"
      using that by (simp add: plain_failure_key_parts)
    then show "\<exists>pd'. Some (RecordConnectionFailed (failureKey p a code) pd) = Some pd' \<and> wf_process_data pd' \<and> Info pd' = Info pd"
      if "wf_process_data pd" for pd
      using that by (simp add: wf_RecordConnectionFailed RecordConnectionFailed_counts)
  qed
qed (rule safe_methodI; use RecordData_Some in simp)+

definition net_traffic :: "net_state \<Rightarrow> nat \<Rightarrow> nat \<Rightarrow> u64" where
  "net_traffic st p d = (case fst st of Some c \<Rightarrow> op_at (directionIdx p d) (trafficBytesTotal c) | None \<Rightarrow> 0)"

lemma nc_transfer_spec:
  assumes "net_state_ok st" and "protocol < protocolMax" and "direction < directionMax"
    and "safe_method (meth protocol bytes)"
  shows "\<exists>st'. nc_transfer meth direction p protocol bytes st = Some st' \<and> net_state_ok st'
    \<and> call_ptr p (meth protocol bytes) (snd st) = Some (snd st')"
proof -
  obtain c where c: "fst st = Some c" "length (trafficBytesTotal c) = protocolMax * directionMax"
    using assms(1) by (auto simp: net_state_ok_def)
  obtain t where t: "call_ptr p (meth protocol bytes) (snd st) = Some t" "ksm_inv t"
    using call_ptr_inv [OF assms(4)] assms(1) by (auto simp: net_state_ok_def)
  have "directionIdx protocol direction < length (trafficBytesTotal c)"
    using directionIdx_bound [OF assms(2,3)] c(2) by simp
  then show ?thesis using c t
    by (auto simp: nc_transfer_def add_traffic_def arr_add_def net_state_ok_def)
qed

lemma nc_if_spec:
  assumes "net_state_ok st" and "safe_method meth"
  shows "\<exists>st'. nc_if enabled meth p st = Some st' \<and> net_state_ok st'"
  using assms call_ptr_inv [OF assms(2), of "snd st" p]
  by (cases st) (auto simp: nc_if_def net_state_ok_def)

lemma family_of_less: "family_of inet6 < 2"
  by (simp add: family_of_def AddressFamilyIPV4_def AddressFamilyIPV6_def)

lemmas nc_methods = nc_RecordDataSent_def nc_RecordDataReceived_def nc_RecordConnectionAttempted_def
  nc_RecordConnectionAccepted_def nc_RecordConnectionFailed_def nc_RecordRetransmission_def

lemma nc_method_ok:
  assumes "net_state_ok st" and "protocol < protocolMax"
  shows "\<exists>st'. nc_RecordDataSent p protocol n st = Some st' \<and> net_state_ok st'"
    and "\<exists>st'. nc_RecordDataReceived p protocol n st = Some st' \<and> net_state_ok st'"
    and "\<exists>st'. nc_RecordConnectionAttempted p protocol st = Some st' \<and> net_state_ok st'"
    and "\<exists>st'. nc_RecordConnectionAccepted p protocol st = Some st' \<and> net_state_ok st'"
    and "\<exists>st'. nc_RecordConnectionFailed p protocol (family_of inet6) code st = Some st' \<and> net_state_ok st'"
    and "\<exists>st'. nc_RecordRetransmission p st = Some st' \<and> net_state_ok st'"
proof -
  have "DirectionSent < directionMax" "DirectionReceived < directionMax"
    by (simp_all add: DirectionSent_def DirectionReceived_def directionMax_def)
  note T = nc_transfer_spec [OF assms(1,2) this(1)] nc_transfer_spec [OF assms(1,2) this(2)]
  show "\<exists>st'. nc_RecordDataSent p protocol n st = Some st' \<and> net_state_ok st'"
    and "\<exists>st'. nc_RecordDataReceived p protocol n st = Some st' \<and> net_state_ok st'"
    using T(1) [where meth = RecordDataSent, OF safe_network_methods(1) [OF assms(2)], of p n]
      T(2) [where meth = RecordDataReceived, OF safe_network_methods(2) [OF assms(2)], of p n]
    by (auto simp: nc_RecordDataSent_def nc_RecordDataReceived_def)
  show "\<exists>st'. nc_RecordConnectionAttempted p protocol st = Some st' \<and> net_state_ok st'"
    and "\<exists>st'. nc_RecordConnectionAccepted p protocol st = Some st' \<and> net_state_ok st'"
    and "\<exists>st'. nc_RecordConnectionFailed p protocol (family_of inet6) code st = Some st' \<and> net_state_ok st'"
    and "\<exists>st'. nc_RecordRetransmission p st = Some st' \<and> net_state_ok st'"
    unfolding nc_methods
    by (rule nc_if_spec [OF assms(1)], rule safe_network_methods; rule assms(2) family_of_less)+
qed

text \<open>The three shapes of a handler.\<close>

lemma on_process_ok:
  assumes "net_state_ok st" and "\<And>p. \<exists>st'. f p st = Some st' \<and> net_state_ok st'"
  shows "handled_ok (on_process pid f st) net_state_ok"
proof (cases "GetCurrentProcessDataByPID pid (snd st)")
  case (Some p)
  then show ?thesis using assms(2) [of p] by (auto simp: handled_ok_def on_process_def ok_def)
qed (use assms(1) in \<open>simp add: handled_ok_def on_process_def ok_def\<close>)

lemma bind_err_ok:
  "net_state_ok st \<Longrightarrow> (\<And>v. handled_ok (f v) net_state_ok) \<Longrightarrow> handled_ok (bind_err x st f) net_state_ok"
  by (cases x) (simp_all add: bind_err_def handled_ok_def fail_def)

datatype net_event = TCP_Sent | TCP_Received | TCP_Attempted | TCP_Accepted | TCP_Retransmitted | TCP_Failed
  | UDP_Sent | UDP_Received | UDP_Failed

fun net_handler :: "bool \<Rightarrow> net_event \<Rightarrow> 'e etw_lib \<Rightarrow> 'e \<Rightarrow> net_state \<Rightarrow> net_state handled" where
  "net_handler manifest TCP_Sent = (if manifest then Manifest_HandleTCPDataSent else HandleTCPDataSent)"
| "net_handler manifest TCP_Received = (if manifest then Manifest_HandleTCPDataReceived else HandleTCPDataReceived)"
| "net_handler manifest TCP_Attempted =
     (if manifest then Manifest_HandleTCPConnectionAttempted else HandleTCPConnectionAttempted)"
| "net_handler manifest TCP_Accepted =
     (if manifest then Manifest_HandleTCPConnectionAccepted else HandleTCPConnectionAccepted)"
| "net_handler manifest TCP_Retransmitted =
     (if manifest then Manifest_HandleTCPDataRetransmitted else HandleTCPDataRetransmitted)"
| "net_handler manifest TCP_Failed = (if manifest then Manifest_HandleTCPConnectionFailed else HandleTCPConnectionFailed)"
| "net_handler manifest UDP_Sent = (if manifest then Manifest_HandleUDPDataSent else HandleUDPDataSent)"
| "net_handler manifest UDP_Received = (if manifest then Manifest_HandleUDPDataReceived else HandleUDPDataReceived)"
| "net_handler manifest UDP_Failed = (if manifest then Manifest_HandleUDPConnectionFailed else HandleUDPConnectionFailed)"

lemmas net_handler_defs = HandleTCPDataSent_def HandleTCPDataReceived_def HandleTCPConnectionAttempted_def
  HandleTCPConnectionAccepted_def HandleTCPDataRetransmitted_def HandleTCPConnectionFailed_def
  HandleUDPDataSent_def HandleUDPDataReceived_def HandleUDPConnectionFailed_def
  Manifest_HandleTCPDataSent_def Manifest_HandleTCPDataReceived_def Manifest_HandleTCPConnectionAttempted_def
  Manifest_HandleTCPConnectionAccepted_def Manifest_HandleTCPDataRetransmitted_def
  Manifest_HandleTCPConnectionFailed_def Manifest_HandleUDPDataSent_def Manifest_HandleUDPDataReceived_def
  Manifest_HandleUDPConnectionFailed_def

lemma network_handlers_safe:
  assumes "net_state_ok st"
  shows "handled_ok (net_handler manifest ev lib er st) net_state_ok"
proof -
  have "ProtocolTCP < protocolMax" "ProtocolUDP < protocolMax" by (simp_all add: module_consts)
  note M = nc_method_ok [OF assms this(1)] nc_method_ok [OF assms this(2)]
  show ?thesis
    by (cases ev; cases manifest;
        simp only: net_handler.simps if_True if_False net_handler_defs;
        intro bind_err_ok [OF assms] on_process_ok [OF assms] M)
qed


section \<open>Properties\<close>

text \<open>C32. A failure key loses nothing: protocol, address family and failure code can be read back
  from the packed 32-bit key, so two failures share a counter only when all three agree.\<close>

theorem failure_key_roundtrip:
  assumes "protocol < protocolMax" and "p' < protocolMax"
  shows "key_protocol (failureKey protocol (family_of v6) code) = protocol
    \<and> key_family (failureKey protocol (family_of v6) code) = family_of v6
    \<and> key_code (failureKey protocol (family_of v6) code) = code
    \<and> (failureKey protocol (family_of v6) code = failureKey p' (family_of v6') code' \<longleftrightarrow>
         protocol = p' \<and> v6 = v6' \<and> code = code')"
proof -
  have f: "family_of b < 256" "family_of a = family_of b \<longleftrightarrow> a = b" for a b
    by (auto simp: family_of_def AddressFamilyIPV4_def AddressFamilyIPV6_def)
  have p: "protocol < 256" "p' < 256" using assms by (simp_all add: protocolMax_def)
  show ?thesis using key_roundtrip [OF p(1) f(1)] key_roundtrip [OF p(2) f(1)] f(2) by metis
qed

theorem failure_key_roundtrip_witness:
  "key_protocol (failureKey ProtocolUDP (family_of True) 0x1234) = ProtocolUDP
     \<and> failureKey ProtocolUDP (family_of True) 7 \<noteq> failureKey ProtocolTCP (family_of True) 7"
proof -
  have "ProtocolUDP < protocolMax" "ProtocolTCP < protocolMax" "ProtocolUDP \<noteq> ProtocolTCP"
    by (simp_all add: ProtocolUDP_def ProtocolTCP_def protocolMax_def)
  then show ?thesis using failure_key_roundtrip [of ProtocolUDP ProtocolTCP] by blast
qed

text \<open>A network handler needs its collector: while it is nil, an event with a readable payload
  whose process is tracked panics, and an event of an unknown process is skipped without
  touching the counters. (The disk, registry and thread handlers return early instead.)\<close>

theorem network_nil_collector:
  assumes "ksm_inv s" and "lib_Uint32At lib er 0 = Some pid" and "lib_Uint32At lib er 4 = Some n"
  shows "HandleTCPDataSent lib er (None, s) =
      (if GetCurrentProcessDataByPID pid s = None then ok (None, s) else None)
    \<and> HandleTCPConnectionAttempted lib er (None, s) =
      (if GetCurrentProcessDataByPID pid s = None then ok (None, s) else None)"
proof -
  have p: "protocol < protocolMax \<Longrightarrow> \<exists>t. call_ptr p (RecordDataSent protocol n) s = Some t" for protocol p n
    using call_ptr_inv [OF safe_network_methods(1) assms(1)] by blast
  have "ProtocolTCP < protocolMax" by (simp add: ProtocolTCP_def protocolMax_def)
  with p obtain f where "\<And>q n. call_ptr q (RecordDataSent ProtocolTCP n) s = Some (f q n)" by metis
  then show ?thesis using assms(2,3)
    by (auto simp: HandleTCPDataSent_def HandleTCPConnectionAttempted_def bind_err_def on_process_def
        nc_RecordDataSent_def nc_RecordConnectionAttempted_def nc_transfer_def nc_if_def split: option.split)
qed

theorem network_nil_collector_witness:
  "HandleTCPDataSent byte_lib (sample_read\<lparr>se_data := [244,1,0,0, 16,0,0,0]\<rparr>) (None, sample_state) = None"
proof -
  let ?e = "sample_read\<lparr>se_data := [244,1,0,0, 16,0,0,0]\<rparr>"
  have e: "lib_Uint32At byte_lib ?e 0 = Some 500" "lib_Uint32At byte_lib ?e 4 = Some 16"
    by (simp_all add: byte_lib_def le_read_def)
  have "GetCurrentProcessDataByPID 500 sample_state = Some (Some 1)"
    by (simp add: GetCurrentProcessDataByPID_def sample_state_simps)
  then show ?thesis using network_nil_collector [OF sample_state_inv e] by simp
qed

end
