(* ===== verification/Memory_Collector.thy ===== *)
theory Memory_Collector
  imports Network_Collector
begin

text \<open>
  \<open>kernelmemory\<close>: the hard page fault counter and its handler. The handler calls methods of the
  collector without a nil check, so with no collector attached an event is a panic.
\<close>

record mem_collector =
  Mem_EnablePerProcess :: bool
  hardPageFaultsTotal :: u64

type_synonym mem_state = "mem_collector option \<times> ksm"

definition NewMemoryCollector :: "bool \<Rightarrow> mem_collector" where
  "NewMemoryCollector perProcess = \<lparr>Mem_EnablePerProcess = perProcess, hardPageFaultsTotal = 0\<rparr>"

definition IncrementTotalHardPageFaults :: "mem_collector \<Rightarrow> mem_collector" where
  "IncrementTotalHardPageFaults c = c\<lparr>hardPageFaultsTotal := hardPageFaultsTotal c + 1\<rparr>"

definition memory_Collect :: "mem_collector \<Rightarrow> ksm \<Rightarrow> metric list" where
  "memory_Collect c s =
     CounterMetric ''etw_memory_hard_pagefaults_total'' (unat (hardPageFaultsTotal c)) []
     # (if Mem_EnablePerProcess c
        then program_metrics (\<lambda>key m.
               case Agg_Memory m of
                 None \<Rightarrow> []
               | Some n \<Rightarrow> if n = 0 then []
                           else [CounterMetric ''etw_memory_hard_pagefaults_per_process_total'' (unat n)
                                  (program_labels key)]) s
        else [])"

definition memory_Describe :: "mem_collector \<Rightarrow> prom_desc list" where
  "memory_Describe c =
     NewDesc ''etw_memory_hard_pagefaults_total'' []
     # (if Mem_EnablePerProcess c
        then [NewDesc ''etw_memory_hard_pagefaults_per_process_total'' program_label_names] else [])"

definition HandleMofHardPageFaultRawEvent :: "'e etw_lib \<Rightarrow> 'e \<Rightarrow> mem_state \<Rightarrow> mem_state handled" where
  "HandleMofHardPageFaultRawEvent lib er st =
     (case st of
        (None, s) \<Rightarrow> None
      | (Some c, s) \<Rightarrow>
          let c' = IncrementTotalHardPageFaults c
          in if Mem_EnablePerProcess c'
             then case lib_Uint32At lib er 32 of
                    None \<Rightarrow> ok (Some c', s)
                  | Some threadID \<Rightarrow>
                      (case RecordHardPageFaultForThread threadID (lib_ProcessId lib er) s of
                         None \<Rightarrow> None
                       | Some s' \<Rightarrow> ok (Some c', s'))
             else ok (Some c', s))"

lemma HandleMofHardPageFault_effect:
  assumes "ksm_inv s"
  shows "\<exists>c' s'. HandleMofHardPageFaultRawEvent lib er (Some c, s) = Some ((Some c', s'), None)
    \<and> hardPageFaultsTotal c' = hardPageFaultsTotal c + 1 \<and> ksm_inv s'"
proof -
  have "\<exists>t. RecordHardPageFaultForThread tid pid s = Some t \<and> ksm_inv t" for tid pid
    by (rule RecordHardPageFaultForThread_inv_all [OF assms])
  then have "RecordHardPageFaultForThread tid pid s = None \<Longrightarrow> False"
    "RecordHardPageFaultForThread tid pid s = Some t \<Longrightarrow> ksm_inv t" for tid pid t
    by (metis option.distinct(1), metis option.inject)
  then show ?thesis using assms
    by (auto simp: HandleMofHardPageFaultRawEvent_def Let_def IncrementTotalHardPageFaults_def ok_def
        split: option.split)
qed

end
