(* ===== verification/Registry_Collector.thy ===== *)
theory Registry_Collector
  imports Memory_Collector
begin

text \<open>
  \<open>kernelregistry\<close>: the registry operation counters, per opcode and outcome, and the two
  handlers. The counter array is the same layout as that of the process module.
\<close>

record reg_collector =
  Reg_EnablePerProcess :: bool
  operationsTotal :: "u64 list"

type_synonym reg_state = "reg_collector option \<times> ksm"

definition NewRegistryCollector :: "bool \<Rightarrow> reg_collector" where
  "NewRegistryCollector perProcess =
     \<lparr>Reg_EnablePerProcess = perProcess, operationsTotal = replicate MaxRegistryArray 0\<rparr>"

definition registry_label :: "u8 \<Rightarrow> string" where
  "registry_label opcode =
     (if RegistryOpcodeToString opcode = '''' then ''unknown'' else RegistryOpcodeToString opcode)"

definition result_label :: "nat \<Rightarrow> string" where
  "result_label result = (if result = ResultFailure then ''failure'' else ''success'')"

definition registry_Collect :: "reg_collector \<Rightarrow> ksm \<Rightarrow> metric list" where
  "registry_Collect c s =
     concat (map (\<lambda>i. let count = operationsTotal c ! i in
        if count > 0
        then [CounterMetric ''etw_registry_operations_total'' (unat count)
               [registry_label (of_nat (i div ResultMax)), result_label (i mod ResultMax)]]
        else []) [0..<length (operationsTotal c)])
     @ (if Reg_EnablePerProcess c
        then program_metrics (\<lambda>key m.
               case Agg_Registry m of
                 None \<Rightarrow> []
               | Some ops \<Rightarrow> map (\<lambda>(k, count). CounterMetric ''etw_registry_operations_process_total'' (unat count)
                     (program_labels key @ [registry_label (Opcode k), result_label (Result k)])) (cm_entries ops)) s
        else [])"

definition registry_Describe :: "reg_collector \<Rightarrow> prom_desc list" where
  "registry_Describe c =
     NewDesc ''etw_registry_operations_total'' [''operation'', ''result'']
     # (if Reg_EnablePerProcess c
        then [NewDesc ''etw_registry_operations_process_total'' (program_label_names @ [''operation'', ''result''])]
        else [])"

definition rc_RecordRegistryOperation :: "ptr \<Rightarrow> u8 \<Rightarrow> u32 \<Rightarrow> reg_collector \<times> ksm \<Rightarrow> (reg_collector \<times> ksm) option" where
  "rc_RecordRegistryOperation pData opcode status st =
     (case st of (c, s) \<Rightarrow>
        let result = (if status \<noteq> 0 then ResultFailure else ResultSuccess)
        in case arr_add (operationsTotal c) (registry_index opcode result) 1 of
             None \<Rightarrow> None
           | Some xs \<Rightarrow>
               let c' = c\<lparr>operationsTotal := xs\<rparr>
               in if Reg_EnablePerProcess c'
                  then map_option (Pair c') (call_ptr pData (RecordRegistryOperation opcode status) s)
                  else Some (c', s))"

definition registry_event :: "u32 option \<Rightarrow> 'e etw_lib \<Rightarrow> 'e \<Rightarrow> reg_state \<Rightarrow> reg_state handled" where
  "registry_event status lib er st =
     (case st of
        (None, s) \<Rightarrow> ok st
      | (Some c, s) \<Rightarrow>
          let opcode = lib_Opcode lib er
          in if RegistryOpcodeToString opcode = '''' then ok st
             else case status of
                    None \<Rightarrow> fail st
                  | Some status \<Rightarrow>
                      (case GetCurrentProcessDataByPID (lib_ProcessId lib er) s of
                         None \<Rightarrow> ok st
                       | Some p \<Rightarrow>
                           (case rc_RecordRegistryOperation p opcode status (c, s) of
                              None \<Rightarrow> None
                            | Some (c', s') \<Rightarrow> ok (Some c', s'))))"

definition HandleRegistryEventRaw :: "'e etw_lib \<Rightarrow> 'e \<Rightarrow> reg_state \<Rightarrow> reg_state handled" where
  "HandleRegistryEventRaw lib er = registry_event (lib_Uint32At lib er 8) lib er"

definition HandleRegistryEvent :: "'e etw_lib \<Rightarrow> 'e \<Rightarrow> reg_state \<Rightarrow> reg_state handled" where
  "HandleRegistryEvent lib er = registry_event (map_option ucast (lib_PropUint lib er ''Status'')) lib er"

definition reg_state_ok :: "reg_state \<Rightarrow> bool" where
  "reg_state_ok st \<longleftrightarrow>
     (\<forall>c. fst st = Some c \<longrightarrow> length (operationsTotal c) = MaxRegistryArray \<and> named_slots (operationsTotal c))
     \<and> ksm_inv (snd st)"

lemma named_slots_op_at: "named_slots xs \<longleftrightarrow> (\<forall>i. op_at i xs \<noteq> 0 \<longrightarrow> named_slot i)"
  by (auto simp: named_slots_def op_at_def)

lemma rc_Record_spec:
  assumes "length (operationsTotal c) = MaxRegistryArray" and "ksm_inv s"
    and "p = None \<or> RegistryOpcodeToString opcode \<noteq> ''''"
  shows "\<exists>c' s'. rc_RecordRegistryOperation p opcode status (c, s) = Some (c', s')
    \<and> length (operationsTotal c') = MaxRegistryArray \<and> ksm_inv s'
    \<and> (\<forall>i. op_at i (operationsTotal c') = op_at i (operationsTotal c) +
          (if i = registry_index opcode (if status \<noteq> 0 then ResultFailure else ResultSuccess) then 1 else 0))"
proof -
  let ?i = "registry_index opcode (if status \<noteq> 0 then ResultFailure else ResultSuccess)"
  have i: "?i < length (operationsTotal c)"
    using registry_index_bound [of "if status \<noteq> 0 then ResultFailure else ResultSuccess" opcode] assms(1)
    by (simp add: module_consts split: if_splits)
  obtain t where t: "call_ptr p (RecordRegistryOperation opcode status) s = Some t" "ksm_inv t"
    using call_ptr_inv [OF safe_RecordRegistryOperation assms(2), of opcode p status] assms(2,3) that
    by (cases "p = None") (auto simp: call_ptr_def)
  show ?thesis using i t assms op_at_upd [OF i, of _ 1]
    by (simp add: rc_RecordRegistryOperation_def Let_def arr_add_def)
qed

lemma registry_event_safe:
  assumes "reg_state_ok st"
  shows "handled_ok (registry_event status lib er st) reg_state_ok"
proof -
  obtain co s where st: "st = (co, s)" by force
  show ?thesis
  proof (cases co)
    case None
    then show ?thesis using assms st by (simp add: handled_ok_def registry_event_def ok_def)
  next
    case (Some c)
    have inv: "length (operationsTotal c) = MaxRegistryArray" "ksm_inv s" "named_slots (operationsTotal c)"
      using assms st Some by (simp_all add: reg_state_ok_def)
    have rec: "\<exists>c' s'. rc_RecordRegistryOperation p opc sta (c, s) = Some (c', s') \<and> reg_state_ok (Some c', s')"
      if named: "RegistryOpcodeToString opc \<noteq> ''''" for p opc sta
    proof -
      obtain c' s' where "rc_RecordRegistryOperation p opc sta (c, s) = Some (c', s')"
        "length (operationsTotal c') = MaxRegistryArray" "ksm_inv s'"
        and at: "\<And>i. op_at i (operationsTotal c') = op_at i (operationsTotal c) +
          (if i = registry_index opc (if sta \<noteq> 0 then ResultFailure else ResultSuccess) then 1 else 0)"
        using rc_Record_spec [OF inv(1,2), of p opc sta] named by blast
      moreover have "named_slot (registry_index opc (if sta \<noteq> 0 then ResultFailure else ResultSuccess))"
        using named by (simp add: module_consts)
      then have "named_slots (operationsTotal c')"
        using inv(3) by (auto simp: named_slots_op_at at split: if_splits)
      ultimately show ?thesis by (auto simp: reg_state_ok_def)
    qed
    show ?thesis
    proof (cases "RegistryOpcodeToString (lib_Opcode lib er) = '''' \<or> status = None
        \<or> GetCurrentProcessDataByPID (lib_ProcessId lib er) s = None")
      case True
      then show ?thesis using assms unfolding st Some registry_event_def
        by (auto simp: ok_def fail_def handled_ok_def Let_def split: option.split)
    next
      case False
      then obtain v p where v: "status = Some v" "GetCurrentProcessDataByPID (lib_ProcessId lib er) s = Some p"
        "RegistryOpcodeToString (lib_Opcode lib er) \<noteq> ''''" by auto
      from rec [OF v(3), of p v] v show ?thesis unfolding st Some registry_event_def
        by (auto simp: ok_def handled_ok_def Let_def)
    qed
  qed
qed


section \<open>Properties\<close>

fun record_registry :: "(u8 \<times> u32) list \<Rightarrow> reg_collector \<times> ksm \<Rightarrow> (reg_collector \<times> ksm) option" where
  "record_registry [] st = Some st"
| "record_registry ((opcode, status) # es) st =
     (case rc_RecordRegistryOperation None opcode status st of None \<Rightarrow> None | Some st' \<Rightarrow> record_registry es st')"

definition failed_status :: "u32 \<Rightarrow> nat" where
  "failed_status status = (if status \<noteq> 0 then ResultFailure else ResultSuccess)"

lemma registry_index_inj:
  assumes "r < ResultMax" and "r' < ResultMax"
  shows "registry_index opcode r = registry_index opcode' r' \<longleftrightarrow> opcode = opcode' \<and> r = r'"
  using registry_index_div [OF assms(1), of opcode] registry_index_div [OF assms(2), of opcode']
    registry_index_mod [OF assms(1), of opcode] registry_index_mod [OF assms(2), of opcode']
  by (metis word_unat_eq_iff)

lemma failed_status_less: "failed_status status < ResultMax"
  by (simp add: failed_status_def module_consts)

lemma record_registry_spec:
  assumes "length (operationsTotal c) = MaxRegistryArray" and "ksm_inv s"
  shows "\<exists>c' s'. record_registry es (c, s) = Some (c', s') \<and> length (operationsTotal c') = MaxRegistryArray
    \<and> (\<forall>i. op_at i (operationsTotal c') = op_at i (operationsTotal c) +
          of_nat (length (filter (\<lambda>(opcode, status). registry_index opcode (failed_status status) = i) es)))"
  using assms
proof (induction es arbitrary: c s)
  case (Cons e es)
  obtain opcode status where e: "e = (opcode, status)" by force
  obtain c1 s1 where 1: "rc_RecordRegistryOperation None opcode status (c, s) = Some (c1, s1)"
    "length (operationsTotal c1) = MaxRegistryArray" "ksm_inv s1"
    "\<forall>i. op_at i (operationsTotal c1) = op_at i (operationsTotal c) +
          (if i = registry_index opcode (failed_status status) then 1 else 0)"
    using rc_Record_spec [OF Cons.prems] unfolding failed_status_def by blast
  then show ?case using Cons.IH [OF 1(2,3)] e by auto
qed simp

text \<open>C33. The system-wide registry counters count: after any sequence of operations the slot of an
  opcode and a result holds the number of operations with that opcode and that result, and
  no two pairs of opcode and result share a slot.\<close>

theorem registry_counts_exact:
  assumes "ksm_inv s" and "r < ResultMax"
  shows "\<exists>c' s'. record_registry es (NewRegistryCollector pp, s) = Some (c', s')
    \<and> op_at (registry_index opcode r) (operationsTotal c') =
        of_nat (length (filter (\<lambda>(o', status). o' = opcode \<and> failed_status status = r) es))"
proof -
  have new: "length (operationsTotal (NewRegistryCollector pp)) = MaxRegistryArray"
    "op_at i (operationsTotal (NewRegistryCollector pp)) = 0" for i
    by (simp_all add: NewRegistryCollector_def op_at_def)
  have "registry_index o' (failed_status status) = registry_index opcode r \<longleftrightarrow>
      o' = opcode \<and> failed_status status = r" for o' status
    by (rule registry_index_inj [OF failed_status_less assms(2)])
  then show ?thesis
    using record_registry_spec [OF new(1) assms(1), of es] new(2) by fastforce
qed

theorem registry_counts_exact_witness:
  "\<exists>c' s'. record_registry [(10, 0), (10, 5), (10, 0), (11, 0)] (NewRegistryCollector True, sample_state) = Some (c', s')
     \<and> op_at (registry_index 10 ResultSuccess) (operationsTotal c') = 2"
proof -
  have "ResultSuccess < ResultMax" by (simp add: module_consts)
  from registry_counts_exact [OF sample_state_inv this, of "[(10, 0), (10, 5), (10, 0), (11, 0)]" True 10]
  show ?thesis by (simp add: failed_status_def module_consts)
qed

end
