(* ===== verification/Start_Key.thy ===== *)
theory Start_Key
  imports Prelude
begin

unbundle bit_operations_syntax

text \<open>
  Process keys: the FNV-1a hash of \<open>process_utils.go\<close>, unrolled over the bytes of its inputs,
  and the boot-scoped key of \<open>windowsapi/startkey.go\<close>. \<open>fnv1a\<close> is the textbook hash over a
  list of bytes; the unrolled code computes it.
\<close>

definition fnv1_offset64 :: u64 where "fnv1_offset64 = 14695981039346656037"
definition fnv1_prime64 :: u64 where "fnv1_prime64 = 1099511628211"

definition hashUpdateUint64 :: "u64 \<Rightarrow> u64 \<Rightarrow> u64" where
  "hashUpdateUint64 hash v =
     (let h0 = (hash XOR (drop_bit 0 v AND 0xff)) * fnv1_prime64;
          h1 = (h0 XOR (drop_bit 8 v AND 0xff)) * fnv1_prime64;
          h2 = (h1 XOR (drop_bit 16 v AND 0xff)) * fnv1_prime64;
          h3 = (h2 XOR (drop_bit 24 v AND 0xff)) * fnv1_prime64;
          h4 = (h3 XOR (drop_bit 32 v AND 0xff)) * fnv1_prime64;
          h5 = (h4 XOR (drop_bit 40 v AND 0xff)) * fnv1_prime64;
          h6 = (h5 XOR (drop_bit 48 v AND 0xff)) * fnv1_prime64
      in (h6 XOR (drop_bit 56 v AND 0xff)) * fnv1_prime64)"

definition hashUpdateUint32 :: "u64 \<Rightarrow> u32 \<Rightarrow> u64" where
  "hashUpdateUint32 hash v =
     (let h0 = (hash XOR ucast (drop_bit 0 v AND 0xff)) * fnv1_prime64;
          h1 = (h0 XOR ucast (drop_bit 8 v AND 0xff)) * fnv1_prime64;
          h2 = (h1 XOR ucast (drop_bit 16 v AND 0xff)) * fnv1_prime64
      in (h2 XOR ucast (drop_bit 24 v AND 0xff)) * fnv1_prime64)"

definition GeneratePseudoStartKey :: "u32 \<Rightarrow> u32 \<Rightarrow> u64 \<Rightarrow> u64" where
  "GeneratePseudoStartKey pid parentPid eprocessPtr =
     (if eprocessPtr = 0 then 0
      else hashUpdateUint32 (hashUpdateUint32 (hashUpdateUint64 fnv1_offset64 eprocessPtr) pid) parentPid)"

text \<open>\<open>bootId\<close> is read from a fixed address of shared user data at startup.\<close>

definition GetStartKeyFromSequence :: "u64 \<Rightarrow> u64 \<Rightarrow> u64" where
  "GetStartKeyFromSequence bootId sequenceNumber = push_bit 48 bootId OR sequenceNumber"


section \<open>The reference hash\<close>

definition fnv_step :: "u64 \<Rightarrow> u8 \<Rightarrow> u64" where
  "fnv_step h b = (h XOR ucast b) * fnv1_prime64"

definition fnv1a :: "u8 list \<Rightarrow> u64" where
  "fnv1a bs = foldl fnv_step fnv1_offset64 bs"

definition byte_at :: "nat \<Rightarrow> 'a::len word \<Rightarrow> u8" where
  "byte_at i v = ucast (drop_bit (8 * i) v)"

definition le_bytes :: "nat \<Rightarrow> 'a::len word \<Rightarrow> u8 list" where
  "le_bytes n v = map (\<lambda>i. byte_at i v) [0..<n]"

lemma byte64: "drop_bit (8 * i) (v :: u64) AND 0xff = ucast (byte_at i v)"
proof -
  have m: "(0xff :: u64) = mask 8" by (simp add: mask_eq_exp_minus_1)
  show ?thesis unfolding m
    by (auto intro!: bit_word_eqI simp: byte_at_def bit_simps dest: bit_imp_le_length)
qed

lemma byte32: "ucast (drop_bit (8 * i) (v :: u32) AND 0xff) = (ucast (byte_at i v) :: u64)"
proof -
  have m: "(0xff :: u32) = mask 8" by (simp add: mask_eq_exp_minus_1)
  show ?thesis unfolding m
    by (auto intro!: bit_word_eqI simp: byte_at_def bit_simps dest: bit_imp_le_length)
qed

lemma upt_bytes: "[0..<8] = [0, 1, 2, 3, 4, 5, 6, 7::nat]" "[0..<4] = [0, 1, 2, 3::nat]"
  by code_simp+

lemma hashUpdateUint64_fold: "hashUpdateUint64 h v = foldl fnv_step h (le_bytes 8 v)"
  using byte64 [of 0 v] byte64 [of 1 v] byte64 [of 2 v] byte64 [of 3 v] byte64 [of 4 v] byte64 [of 5 v]
    byte64 [of 6 v] byte64 [of 7 v]
  by (simp add: hashUpdateUint64_def Let_def le_bytes_def fnv_step_def upt_bytes)

lemma hashUpdateUint32_fold: "hashUpdateUint32 h v = foldl fnv_step h (le_bytes 4 v)"
  using byte32 [of 0 v] byte32 [of 1 v] byte32 [of 2 v] byte32 [of 3 v]
  by (simp add: hashUpdateUint32_def Let_def le_bytes_def fnv_step_def upt_bytes)

lemma GeneratePseudoStartKey_fnv1a:
  "eproc \<noteq> 0 \<Longrightarrow> GeneratePseudoStartKey pid parent eproc =
     fnv1a (le_bytes 8 eproc @ le_bytes 4 pid @ le_bytes 4 parent)"
  by (simp add: GeneratePseudoStartKey_def hashUpdateUint64_fold hashUpdateUint32_fold fnv1a_def)

text \<open>Each step is injective: the prime is odd, so it has an inverse modulo \<open>2 ^ 64\<close>.\<close>

lemma fnv_prime_inverse: "fnv1_prime64 * 14886173955864302971 = 1"
  by (simp add: fnv1_prime64_def)

lemma fnv_step_inj: "fnv_step h b = fnv_step h' b' \<longleftrightarrow> h XOR ucast b = h' XOR ucast b'"
proof
  assume "fnv_step h b = fnv_step h' b'"
  then have "fnv_step h b * 14886173955864302971 = fnv_step h' b' * 14886173955864302971" by simp
  then show "h XOR ucast b = h' XOR ucast b'"
    by (simp add: fnv_step_def mult.assoc fnv_prime_inverse)
qed (simp add: fnv_step_def)

lemma xor_cancel: "(x :: 'a::len word) XOR y = x XOR z \<longleftrightarrow> y = z" "y XOR x = z XOR x \<longleftrightarrow> y = z"
  by (metis xor.left_commute xor_self_eq xor.right_neutral xor.commute)+

lemma ucast_u8_inj: "(ucast (b :: u8) :: u64) = ucast c \<longleftrightarrow> b = c"
proof -
  have "unat x < 2 ^ 64" for x :: u8 using unsigned_less [of x, where 'a = nat] by simp
  then have "unat (ucast x :: u64) = unat x" for x :: u8 by (simp add: unsigned_ucast_eq take_bit_nat_eq_self)
  then show ?thesis by (metis word_unat_eq_iff)
qed

lemma foldl_fnv_inj: "foldl fnv_step h bs = foldl fnv_step h' bs \<longleftrightarrow> h = h'"
  by (induction bs arbitrary: h h') (simp_all add: fnv_step_inj xor_cancel)

lemma fnv1a_one_byte: "fnv1a (xs @ b # ys) = fnv1a (xs @ c # ys) \<longleftrightarrow> b = c"
  by (simp add: fnv1a_def foldl_fnv_inj fnv_step_inj xor_cancel ucast_u8_inj)

text \<open>The boot-scoped key keeps the sequence number below the boot id.\<close>

lemma GetStartKeyFromSequence_inj:
  assumes "s < 2 ^ 48" and "t < 2 ^ 48" and "GetStartKeyFromSequence b s = GetStartKeyFromSequence b t"
  shows "s = t"
proof (rule bit_word_eqI)
  have hi: "\<not> bit u n" if "u < 2 ^ 48" "48 \<le> n" for u :: u64 and n
  proof -
    have "unat u < 2 ^ 48" using that(1) by (simp add: word_less_nat_alt)
    then have "take_bit 48 u = u" by (simp add: word_unat_eq_iff unsigned_take_bit_eq take_bit_nat_eq_self)
    then show ?thesis using that(2) by (metis bit_take_bit_iff not_less)
  qed
  fix n assume "n < LENGTH(64)"
  have "bit (GetStartKeyFromSequence b s) n = bit (GetStartKeyFromSequence b t) n" using assms(3) by simp
  then show "bit s n = bit t n"
    using hi [OF assms(1), of n] hi [OF assms(2), of n]
    by (cases "48 \<le> n") (auto simp: GetStartKeyFromSequence_def bit_simps)
qed


section \<open>Properties\<close>

text \<open>C35. The unrolled hash is FNV-1a: the pseudo start key of a process with a kernel object is the
  textbook 64-bit FNV-1a hash of the little-endian bytes of the object's address, the
  process id and the parent id, and it is 0 without one.\<close>

theorem pseudo_start_key_is_fnv1a:
  "GeneratePseudoStartKey pid parent eproc =
     (if eproc = 0 then 0 else fnv1a (le_bytes 8 eproc @ le_bytes 4 pid @ le_bytes 4 parent))"
  using GeneratePseudoStartKey_fnv1a [of eproc pid parent] by (simp add: GeneratePseudoStartKey_def)

text \<open>Within one boot the start keys of distinct processes are distinct: the key determines a
  sequence number below \<open>2 ^ 48\<close>.\<close>

theorem start_key_unique_in_boot:
  assumes "s < 2 ^ 48" and "t < 2 ^ 48"
  shows "GetStartKeyFromSequence b s = GetStartKeyFromSequence b t \<longleftrightarrow> s = t"
  using GetStartKeyFromSequence_inj [OF assms] by blast

theorem start_key_unique_in_boot_witness:
  "GetStartKeyFromSequence 3 17 \<noteq> GetStartKeyFromSequence 3 18"
proof -
  have "(17 :: u64) < 2 ^ 48" "(18 :: u64) < 2 ^ 48" "(17 :: u64) \<noteq> 18" by simp_all
  then show ?thesis using start_key_unique_in_boot [of 17 18 3] by blast
qed

end
