(* ===== verification/Kernel_Handlers.thy ===== *)
theory Kernel_Handlers
  imports Registry_Collector Start_Key
begin

text \<open>
  The handlers that build the kernel state: processes, their threads and images
  (\<open>kernelprocess\<close>, \<open>kerneimage\<close>), the system configuration collector (\<open>kernelsysconfig\<close>) and
  the process metadata collector.

  A property accessor whose error the code ignores returns the zero value of its type with
  the error. \<open>choice\<close> is the pool's choice of an object, see \<^const>\<open>pool_Get\<close>.
\<close>

section \<open>Processes\<close>

definition prop0 :: "'e etw_lib \<Rightarrow> 'e \<Rightarrow> string \<Rightarrow> u64" where
  "prop0 lib er name = opt0 (lib_PropUint lib er name)"

definition str0 :: "'e etw_lib \<Rightarrow> 'e \<Rightarrow> string \<Rightarrow> string" where
  "str0 lib er name = (case lib_PropString lib er name of Some x \<Rightarrow> x | None \<Rightarrow> '''')"

definition u32_0 :: "u32 option \<Rightarrow> u32" where
  "u32_0 x = (case x of Some n \<Rightarrow> n | None \<Rightarrow> 0)"

definition HandleProcessStart_Manifest :: "u64 \<Rightarrow> nat option \<Rightarrow> 'e etw_lib \<Rightarrow> 'e \<Rightarrow> ksm \<Rightarrow> ksm handled" where
  "HandleProcessStart_Manifest bootId choice lib er s =
     ok (AddProcess choice (ucast (prop0 lib er ''ProcessID''))
          (GetStartKeyFromSequence bootId (prop0 lib er ''ProcessSequenceNumber''))
          (str0 lib er ''ImageName'') (ucast (prop0 lib er ''ParentProcessID''))
          (ucast (prop0 lib er ''SessionID'')) (lib_Timestamp lib er) s)"

definition HandleProcessEnd_Manifest :: "u64 \<Rightarrow> 'e etw_lib \<Rightarrow> 'e \<Rightarrow> ksm \<Rightarrow> ksm handled" where
  "HandleProcessEnd_Manifest bootId lib er s =
     ok (MarkProcessForDeletion (ucast (prop0 lib er ''ProcessID''))
          (GetStartKeyFromSequence bootId (prop0 lib er ''ProcessSequenceNumber'')) (lib_Timestamp lib er) s)"

definition HandleProcessStart_Mof :: "nat option \<Rightarrow> 'e etw_lib \<Rightarrow> 'e \<Rightarrow> ksm \<Rightarrow> ksm handled" where
  "HandleProcessStart_Mof choice lib er s =
     (let processID = ucast (prop0 lib er ''ProcessId'');
          parentProcessID = ucast (prop0 lib er ''ParentId'');
          startKey = GeneratePseudoStartKey processID parentProcessID (prop0 lib er ''UniqueProcessKey'')
      in if startKey = 0 then ok s
         else ok (AddProcess choice processID startKey (str0 lib er ''ImageFileName'') parentProcessID
                   (ucast (prop0 lib er ''SessionId'')) (lib_Timestamp lib er) s))"

definition HandleProcessEnd_Mof :: "'e etw_lib \<Rightarrow> 'e \<Rightarrow> ksm \<Rightarrow> ksm handled" where
  "HandleProcessEnd_Mof lib er s =
     (let pid = ucast (prop0 lib er ''ProcessId'');
          parentPID = ucast (prop0 lib er ''ParentId'');
          startKey = GeneratePseudoStartKey pid parentPID (prop0 lib er ''UniqueProcessKey'')
      in if startKey = 0 then ok s
         else ok (MarkProcessForDeletion pid startKey (lib_Timestamp lib er) s))"

definition lift_panic :: "'s option \<Rightarrow> 's handled" where
  "lift_panic r = (case r of None \<Rightarrow> None | Some s \<Rightarrow> ok s)"

definition HandleThreadStartRaw_Manifest :: "'e etw_lib \<Rightarrow> 'e \<Rightarrow> ksm \<Rightarrow> ksm handled" where
  "HandleThreadStartRaw_Manifest lib er s =
     bind_err (lib_Uint32At lib er 0) s (\<lambda>processID. bind_err (lib_Uint32At lib er 4) s (\<lambda>threadID.
       lift_panic (AddThread threadID processID (lib_Timestamp lib er) (u32_0 (lib_Uint32At lib er 64)) s)))"

definition HandleThreadEndRaw_Manifest :: "'e etw_lib \<Rightarrow> 'e \<Rightarrow> ksm \<Rightarrow> ksm handled" where
  "HandleThreadEndRaw_Manifest lib er s =
     bind_err (lib_Uint32At lib er 4) s (\<lambda>threadID. lift_panic (MarkThreadForDeletion threadID s))"

definition HandleImageLoad_Manifest :: "nat option \<Rightarrow> 'e etw_lib \<Rightarrow> 'e \<Rightarrow> ksm \<Rightarrow> ksm handled" where
  "HandleImageLoad_Manifest choice lib er s =
     ok (AddImage choice (ucast (prop0 lib er ''ProcessID'')) (prop0 lib er ''ImageBase'')
          (prop0 lib er ''ImageSize'') (str0 lib er ''ImageName'')
          (ucast (prop0 lib er ''TimeDateStamp'')) (ucast (prop0 lib er ''ImageCheckSum'')) s)"

definition HandleImageUnload_Manifest :: "'e etw_lib \<Rightarrow> 'e \<Rightarrow> ksm \<Rightarrow> ksm handled" where
  "HandleImageUnload_Manifest lib er s = ok (UnloadImage (prop0 lib er ''ImageBase'') s)"

definition HandleImageLoadEvent :: "nat option \<Rightarrow> 'e etw_lib \<Rightarrow> 'e \<Rightarrow> ksm \<Rightarrow> ksm handled" where
  "HandleImageLoadEvent choice lib er s =
     ok (AddImage choice (ucast (prop0 lib er ''ProcessId'')) (prop0 lib er ''ImageBase'')
          (prop0 lib er ''ImageSize'') (str0 lib er ''FileName'')
          (ucast (prop0 lib er ''TimeDateStamp'')) (ucast (prop0 lib er ''ImageChecksum'')) s)"

definition HandleImageUnloadEvent :: "'e etw_lib \<Rightarrow> 'e \<Rightarrow> ksm \<Rightarrow> ksm handled" where
  "HandleImageUnloadEvent lib er s =
     (case lib_PropUint lib er ''ImageBase'' of
        None \<Rightarrow> ok s
      | Some imageBase \<Rightarrow> ok (UnloadImage imageBase s))"


section \<open>System configuration\<close>

record physical_disk_info =
  PD_DiskNumber :: u32
  PD_Manufacturer :: string

record logical_disk_info =
  LD_DiskNumber :: u32
  LD_DriveLetterString :: string
  LD_FileSystem :: string

record sysconf_collector =
  physicalDisks :: "(u32, physical_disk_info) cmap"
  logicalDisks :: "(u32, logical_disk_info) cmap"
  requestedMetrics :: "string list"
  registered :: bool

definition PhysicalDiskInfoMetricName :: string where "PhysicalDiskInfoMetricName = ''etw_system_disk_physical_info''"
definition LogicalDiskInfoMetricName :: string where "LogicalDiskInfoMetricName = ''etw_system_disk_logical_info''"

definition NewSystemConfigCollector :: sysconf_collector where
  "NewSystemConfigCollector = \<lparr>physicalDisks = cm_empty, logicalDisks = cm_empty,
     requestedMetrics = [], registered = False\<rparr>"

definition AddPhysicalDisk :: "physical_disk_info \<Rightarrow> sysconf_collector \<Rightarrow> sysconf_collector" where
  "AddPhysicalDisk info c = c\<lparr>physicalDisks := cm_store (PD_DiskNumber info) info (physicalDisks c)\<rparr>"

definition AddLogicalDisk :: "logical_disk_info \<Rightarrow> sysconf_collector \<Rightarrow> sysconf_collector" where
  "AddLogicalDisk info c = c\<lparr>logicalDisks := cm_store (LD_DiskNumber info) info (logicalDisks c)\<rparr>"

text \<open>Registration happens once, when a new name is requested for the first time.\<close>

definition RequestMetrics :: "string list \<Rightarrow> sysconf_collector \<Rightarrow> sysconf_collector" where
  "RequestMetrics names c =
     (let (req, needsRegister) = fold (\<lambda>name (req, n).
            if name \<in> set req then (req, n) else (name # req, True)) names (requestedMetrics c, False)
      in c\<lparr>requestedMetrics := req, registered := (registered c \<or> needsRegister)\<rparr>)"

definition sysconf_Describe :: "sysconf_collector \<Rightarrow> prom_desc list" where
  "sysconf_Describe c =
     (if PhysicalDiskInfoMetricName \<in> set (requestedMetrics c)
      then [NewDesc PhysicalDiskInfoMetricName [''disk'', ''manufacturer'']] else [])
     @ (if LogicalDiskInfoMetricName \<in> set (requestedMetrics c)
        then [NewDesc LogicalDiskInfoMetricName [''disk'', ''drive_letter'', ''file_system'']] else [])"

definition sysconf_Collect :: "sysconf_collector \<Rightarrow> metric list" where
  "sysconf_Collect c =
     (if PhysicalDiskInfoMetricName \<in> set (requestedMetrics c)
      then map (\<lambda>(_, d). GaugeMetric PhysicalDiskInfoMetricName 1
             [FormatUint10 (unat (PD_DiskNumber d)), PD_Manufacturer d]) (cm_entries (physicalDisks c))
      else [])
     @ (if LogicalDiskInfoMetricName \<in> set (requestedMetrics c)
        then map (\<lambda>(_, d). GaugeMetric LogicalDiskInfoMetricName 1
               [FormatUint10 (unat (LD_DiskNumber d)), LD_DriveLetterString d, LD_FileSystem d])
               (cm_entries (logicalDisks c))
        else [])"

type_synonym sysconf_state = "sysconf_collector \<times> ksm"

definition HandleSystemConfigPhyDisk :: "'e etw_lib \<Rightarrow> 'e \<Rightarrow> sysconf_state \<Rightarrow> sysconf_state handled" where
  "HandleSystemConfigPhyDisk lib er st =
     bind_err (lib_PropUint lib er ''DiskNumber'') st (\<lambda>diskNumber.
       let manufacturer = (case lib_PropString lib er ''Manufacturer'' of Some m \<Rightarrow> m | None \<Rightarrow> ''Unknown'')
       in ok (AddPhysicalDisk \<lparr>PD_DiskNumber = ucast diskNumber, PD_Manufacturer = manufacturer\<rparr> (fst st), snd st))"

definition HandleSystemConfigLogDisk :: "'e etw_lib \<Rightarrow> 'e \<Rightarrow> sysconf_state \<Rightarrow> sysconf_state handled" where
  "HandleSystemConfigLogDisk lib er st =
     bind_err (lib_PropUint lib er ''DiskNumber'') st (\<lambda>diskNumber.
       let driveLetter = (case lib_PropString lib er ''DriveLetterString'' of Some m \<Rightarrow> m | None \<Rightarrow> '''');
           fileSystem = (case lib_PropString lib er ''FileSystem'' of Some m \<Rightarrow> m | None \<Rightarrow> ''Unknown'')
       in ok (AddLogicalDisk \<lparr>LD_DiskNumber = ucast diskNumber, LD_DriveLetterString = driveLetter,
                LD_FileSystem = fileSystem\<rparr> (fst st), snd st))"

definition HandleSystemConfigServices :: "'e etw_lib \<Rightarrow> 'e \<Rightarrow> sysconf_state \<Rightarrow> sysconf_state handled" where
  "HandleSystemConfigServices lib er st =
     bind_err (lib_PropUint lib er ''SubProcessTag'') st (\<lambda>subProcessTag.
       bind_err (lib_PropUint lib er ''ProcessId'') st (\<lambda>processId.
         bind_err (lib_PropString lib er ''ServiceName'') st (\<lambda>serviceName.
           ok (fst st, RegisterServiceTag (ucast subProcessTag) serviceName (snd st)))))"


section \<open>Process metadata\<close>

definition process_Collect :: "ksm \<Rightarrow> metric list" where
  "process_Collect s = program_metrics (\<lambda>key m. [GaugeMetric ''etw_process_info'' 1 (program_labels key)]) s"

definition process_Describe :: "prom_desc list" where
  "process_Describe = [NewDesc ''etw_process_info'' program_label_names]"


section \<open>Safety\<close>

lemma handled_ok_ok: "P s \<Longrightarrow> handled_ok (ok s) P"
  by (simp add: handled_ok_def ok_def)

lemma handled_ok_fail: "P s \<Longrightarrow> handled_ok (fail s) P"
  by (simp add: handled_ok_def fail_def)

lemma handled_ok_bind:
  "P st \<Longrightarrow> (\<And>v. handled_ok (f v) P) \<Longrightarrow> handled_ok (bind_err x st f) P"
  by (cases x) (simp_all add: bind_err_def handled_ok_fail)

lemma handled_ok_lift: "\<exists>t. r = Some t \<and> P t \<Longrightarrow> handled_ok (lift_panic r) P"
  by (auto simp: lift_panic_def handled_ok_ok)

datatype kernel_event = Proc_Start | Proc_End | Proc_Start_Mof | Proc_End_Mof | Thread_Start | Thread_End
  | Image_Load | Image_Unload | Image_Load_Mof | Image_Unload_Mof

fun kernel_handler :: "u64 \<Rightarrow> nat option \<Rightarrow> kernel_event \<Rightarrow> 'e etw_lib \<Rightarrow> 'e \<Rightarrow> ksm \<Rightarrow> ksm handled" where
  "kernel_handler boot choice Proc_Start = HandleProcessStart_Manifest boot choice"
| "kernel_handler boot choice Proc_End = HandleProcessEnd_Manifest boot"
| "kernel_handler boot choice Proc_Start_Mof = HandleProcessStart_Mof choice"
| "kernel_handler boot choice Proc_End_Mof = HandleProcessEnd_Mof"
| "kernel_handler boot choice Thread_Start = HandleThreadStartRaw_Manifest"
| "kernel_handler boot choice Thread_End = HandleThreadEndRaw_Manifest"
| "kernel_handler boot choice Image_Load = HandleImageLoad_Manifest choice"
| "kernel_handler boot choice Image_Unload = HandleImageUnload_Manifest"
| "kernel_handler boot choice Image_Load_Mof = HandleImageLoadEvent choice"
| "kernel_handler boot choice Image_Unload_Mof = HandleImageUnloadEvent"

lemmas kernel_handler_defs = HandleProcessStart_Manifest_def HandleProcessEnd_Manifest_def
  HandleProcessStart_Mof_def HandleProcessEnd_Mof_def HandleThreadStartRaw_Manifest_def
  HandleThreadEndRaw_Manifest_def HandleImageLoad_Manifest_def HandleImageUnload_Manifest_def
  HandleImageLoadEvent_def HandleImageUnloadEvent_def

lemma kernel_handlers_safe:
  assumes "ksm_inv s"
  shows "handled_ok (kernel_handler boot choice ev lib er s) ksm_inv"
  using assms
  by (cases ev)
    (auto simp: kernel_handler_defs Let_def split: option.split
      intro!: handled_ok_ok handled_ok_bind handled_ok_lift AddProcess_inv_all MarkProcess_inv_all
        AddImage_inv_all UnloadImage_inv_all AddThread_inv_all MarkThread_inv_all)

end
