(* ===== verification/Double_Buffer.thy ===== *)
theory Double_Buffer
  imports Prelude
begin

text \<open>
  The collectors that are written on a hot path keep their counters in an active buffer: a
  scrape swaps the active buffer for an empty one and adds the old one to lifetime totals
  that only the scrape touches. \<open>double_buffer\<close> is the contract of such a pair; under it no
  interleaving of recordings and scrapes loses or repeats an event.
\<close>

datatype 'x buffer_op = Record 'x | Collect

locale double_buffer =
  fixes wf :: "'b \<Rightarrow> bool"
    and fresh :: "'b"
    and record_ev :: "'x \<Rightarrow> 'b \<Rightarrow> 'b"
    and merge :: "'b \<Rightarrow> 'b \<Rightarrow> 'b"
  assumes wf_fresh: "wf fresh"
    and wf_record: "wf b \<Longrightarrow> wf (record_ev x b)"
    and wf_merge: "wf c \<Longrightarrow> wf b \<Longrightarrow> wf (merge c b)"
    and merge_fresh: "wf c \<Longrightarrow> merge c fresh = c"
    and merge_record: "wf c \<Longrightarrow> wf b \<Longrightarrow> merge c (record_ev x b) = record_ev x (merge c b)"
begin

fun step_op :: "'x buffer_op \<Rightarrow> 'b \<times> 'b \<Rightarrow> 'b \<times> 'b" where
  "step_op (Record x) (cum, act) = (cum, record_ev x act)"
| "step_op Collect (cum, act) = (merge cum act, fresh)"

definition events :: "'x buffer_op list \<Rightarrow> 'x list" where
  "events ops = concat (map (\<lambda>e. case e of Record x \<Rightarrow> [x] | Collect \<Rightarrow> []) ops)"

lemma events_simps [simp]:
  "events [] = []" "events (Record x # ops) = x # events ops" "events (Collect # ops) = events ops"
  "events (ops @ ops') = events ops @ events ops'"
  by (simp_all add: events_def)

lemma step_wf:
  "wf (fst st) \<Longrightarrow> wf (snd st) \<Longrightarrow> wf (fst (step_op e st)) \<and> wf (snd (step_op e st))"
  by (cases st; cases e) (simp_all add: wf_fresh wf_record wf_merge)

lemma run_total:
  "wf cum \<Longrightarrow> wf act \<Longrightarrow> fold step_op ops (cum, act) = (cum', act') \<Longrightarrow>
   wf cum' \<and> wf act' \<and> merge cum' act' = fold record_ev (events ops) (merge cum act)"
proof (induction ops arbitrary: cum act)
  case (Cons e ops)
  show ?case
  proof (cases e)
    case (Record x)
    then have "wf (record_ev x act)" "fold step_op ops (cum, record_ev x act) = (cum', act')"
      using Cons.prems by (simp_all add: wf_record)
    from Cons.IH [OF Cons.prems(1) this] show ?thesis
      using Record Cons.prems by (simp add: merge_record)
  next
    case Collect
    then have "wf (merge cum act)" "fold step_op ops (merge cum act, fresh) = (cum', act')"
      using Cons.prems by (simp_all add: wf_merge)
    from Cons.IH [OF this(1) wf_fresh this(2)] show ?thesis
      using Collect Cons.prems by (simp add: merge_fresh wf_merge)
  qed
qed simp

text \<open>What a scrape publishes is what has been recorded since the start, once each.\<close>

lemma collect_exact:
  assumes "fold step_op (ops @ [Collect]) (fresh, fresh) = (cum, act)"
  shows "cum = fold record_ev (events ops) fresh" and "act = fresh"
proof -
  obtain c a where ca: "fold step_op ops (fresh, fresh) = (c, a)" by force
  have "merge c a = fold record_ev (events ops) fresh"
    using run_total [OF wf_fresh wf_fresh ca] by (simp add: merge_fresh wf_fresh)
  moreover have "cum = merge c a \<and> act = fresh" using assms ca by auto
  ultimately show "cum = fold record_ev (events ops) fresh" and "act = fresh" by blast+
qed

end

end
