(* ===== verification/Thread_Collector.thy ===== *)
theory Thread_Collector
  imports Kernel_Handlers Double_Buffer
begin

text \<open>
  \<open>kernelthread\<close>: context switch counters per CPU, the double-buffered histogram of switch
  intervals, thread state counters, and the thread handler.

  Bucket bounds are in nanoseconds here (the code's are the same numbers in milliseconds).
  The pool of interval buffers only saves allocations: a buffer is reset when it is taken.
\<close>

section \<open>Interval histograms\<close>

record interval_stats =
  IS_Count :: i64
  IS_Sum :: u64
  IS_Buckets :: "i64 list"

definition numIntervalBuckets :: nat where "numIntervalBuckets = 15"

definition csIntervalBound :: "nat \<Rightarrow> int" where
  "csIntervalBound i = 1000 * 2 ^ i"

definition is_Reset :: "interval_stats \<Rightarrow> interval_stats" where
  "is_Reset s = s\<lparr>IS_Count := 0, IS_Sum := 0, IS_Buckets := map (\<lambda>_. 0) (IS_Buckets s)\<rparr>"

definition newIntervalStats :: interval_stats where
  "newIntervalStats = \<lparr>IS_Count = 0, IS_Sum = 0, IS_Buckets = replicate numIntervalBuckets 0\<rparr>"

text \<open>\<open>bits.Len64\<close>.\<close>

fun Len64 :: "nat \<Rightarrow> nat" where
  "Len64 n = (if n = 0 then 0 else Suc (Len64 (n div 2)))"

declare Len64.simps [simp del]

definition interval_idx :: "duration \<Rightarrow> nat" where
  "interval_idx interval =
     (let intervalUs = nat (trunc_div interval 1000)
      in if intervalUs > 0 then Len64 intervalUs - 1 else 0)"

definition record_interval :: "duration \<Rightarrow> interval_stats \<Rightarrow> interval_stats option" where
  "record_interval interval stats =
     (let idx = interval_idx interval; n = length (IS_Buckets stats)
      in map_option (\<lambda>b. \<lparr>IS_Count = IS_Count stats + 1, IS_Sum = IS_Sum stats + word_of_int interval,
                         IS_Buckets = b\<rparr>)
           (if idx < n then arr_add (IS_Buckets stats) idx 1 else
            if n > 0 then arr_add (IS_Buckets stats) (n - 1) 1 else None))"

definition merge_stats :: "interval_stats \<Rightarrow> interval_stats \<Rightarrow> interval_stats" where
  "merge_stats cumulative old = \<lparr>IS_Count = IS_Count cumulative + IS_Count old,
     IS_Sum = IS_Sum cumulative + IS_Sum old, IS_Buckets = map2 (+) (IS_Buckets cumulative) (IS_Buckets old)\<rparr>"

text \<open>Running sums for the \<open>le\<close> labels.\<close>

fun running_counts :: "nat \<Rightarrow> int list \<Rightarrow> i64 list \<Rightarrow> (int \<times> nat) list" where
  "running_counts acc (b # bs) (n # ns) = (b, acc + unat n) # running_counts (acc + unat n) bs ns"
| "running_counts acc _ _ = []"


section \<open>The collector\<close>

record thread_collector =
  contextSwitchesPerCPU :: "i64 list"
  contextSwitchIntervals :: "interval_stats list"
  cumulativeIntervals :: "interval_stats list"
  threadStateCounters :: "i64 list"
  indexToStateKey :: "(string \<times> string) list"

definition StateCreated :: nat where "StateCreated = 0"
definition StateRunning :: nat where "StateRunning = 1"
definition StateReady :: nat where "StateReady = 2"
definition StateTerminated :: nat where "StateTerminated = 3"
definition StateWaiting :: nat where "StateWaiting = 4"
definition StateWaitingOffset :: nat where "StateWaitingOffset = 40"

definition GetAllWaitReasonStrings :: "string list" where
  "GetAllWaitReasonStrings = [
    ''Executive'', ''FreePage'', ''PageIn'', ''PoolAllocation'', ''DelayExecution'',
    ''Suspended'', ''UserRequest'', ''WrExecutive'', ''WrFreePage'', ''WrPageIn'',
    ''WrPoolAllocation'', ''WrDelayExecution'', ''WrSuspended'', ''WrUserRequest'',
    ''WrEventPair'', ''WrQueue'', ''WrLpcReceive'', ''WrLpcReply'', ''WrVirtualMemory'',
    ''WrPageOut'', ''WrRendezvous'', ''WrKeyedEvent'', ''WrTerminated'', ''WrProcessInSwap'',
    ''WrCpuRateControl'', ''WrCalloutStack'', ''WrKernel'', ''WrResource'',
    ''WrPushLock'', ''WrMutex'', ''WrQuantumEnd'', ''WrDispatchInt'', ''WrPreempted'',
    ''WrYieldExecution'', ''WrFastMutex'', ''WrGuardedMutex'', ''WrRundown'', ''MaximumWaitReason'']"

definition GetWaitReasonString :: "int \<Rightarrow> string" where
  "GetWaitReasonString waitReason =
     (if 0 \<le> waitReason \<and> waitReason \<le> 37
      then [''Executive'', ''FreePage'', ''PageIn'', ''PoolAllocation'', ''DelayExecution'', ''Suspended'',
        ''UserRequest'', ''WrExecutive'', ''WrFreePage'', ''WrPageIn'', ''WrPoolAllocation'',
        ''WrDelayExecution'', ''WrSuspended'', ''WrUserRequest'', ''WrEventPair'', ''WrQueue'',
        ''WrLpcReceive'', ''WrLpcReply'', ''WrVirtualMemory'', ''WrPageOut'', ''WrRendezvous'',
        ''WrKeyedEvent'', ''WrTerminated'', ''WrProcessInSwap'', ''WrCpuRateControl'', ''WrCalloutStack'',
        ''WrKernel'', ''WrResource'', ''WrPushLock'', ''WrMutex'', ''WrQuantumEnd'', ''WrDispatchInt'',
        ''WrPreempted'', ''WrYieldExecution'', ''WrFastMutex'', ''WrGuardedMutex'', ''WrRundown'',
        ''MaximumWaitReason''] ! nat waitReason
      else ''Unknown'')"

lemma GetWaitReasonString_All:
  "0 \<le> r \<Longrightarrow> r \<le> 37 \<Longrightarrow> GetWaitReasonString r = GetAllWaitReasonStrings ! nat r"
  by (simp add: GetWaitReasonString_def GetAllWaitReasonStrings_def)

definition state_keys :: "(string \<times> string) list" where
  "state_keys =
     (let n = StateWaitingOffset + length GetAllWaitReasonStrings;
          k0 = replicate n ('''', '''');
          k1 = fold (\<lambda>(name, i) ks. ks[i := (name, ''none'')])
                 [(''created'', StateCreated), (''running'', StateRunning), (''ready'', StateReady),
                  (''terminated'', StateTerminated)] k0
      in fold (\<lambda>(i, reason) ks. ks[StateWaitingOffset + i := (''waiting'', reason)])
           (zip [0..<length GetAllWaitReasonStrings] GetAllWaitReasonStrings) k1)"

definition NewThreadCSCollector :: "nat \<Rightarrow> thread_collector" where
  "NewThreadCSCollector numCPU = \<lparr>
     contextSwitchesPerCPU = replicate numCPU 0,
     contextSwitchIntervals = replicate numCPU newIntervalStats,
     cumulativeIntervals = replicate numCPU newIntervalStats,
     threadStateCounters = replicate (StateWaitingOffset + length GetAllWaitReasonStrings) 0,
     indexToStateKey = state_keys\<rparr>"

definition RecordCpuContextSwitch :: "u16 \<Rightarrow> duration \<Rightarrow> thread_collector \<Rightarrow> thread_collector option" where
  "RecordCpuContextSwitch cpu interval c =
     (let i = unat cpu;
          c1 = (if i < length (contextSwitchesPerCPU c)
                then c\<lparr>contextSwitchesPerCPU := (contextSwitchesPerCPU c)[i := contextSwitchesPerCPU c ! i + 1]\<rparr>
                else c)
      in if interval > 0 \<and> i < length (contextSwitchIntervals c1)
         then map_option (\<lambda>st. c1\<lparr>contextSwitchIntervals := (contextSwitchIntervals c1)[i := st]\<rparr>)
                (record_interval interval (contextSwitchIntervals c1 ! i))
         else Some c1)"

definition RecordThreadStateTransition :: "nat \<Rightarrow> u8 \<Rightarrow> thread_collector \<Rightarrow> thread_collector" where
  "RecordThreadStateTransition state waitReason c =
     (let idx = (if state = StateWaiting then StateWaitingOffset + unat waitReason else state)
      in if idx < length (threadStateCounters c)
         then c\<lparr>threadStateCounters := (threadStateCounters c)[idx := threadStateCounters c ! idx + 1]\<rparr>
         else c)"

definition RecordThreadCreation :: "thread_collector \<Rightarrow> thread_collector" where
  "RecordThreadCreation = RecordThreadStateTransition StateCreated 0"

definition RecordThreadTermination :: "thread_collector \<Rightarrow> thread_collector" where
  "RecordThreadTermination = RecordThreadStateTransition StateTerminated 0"

definition interval_metrics :: "nat \<Rightarrow> interval_stats \<Rightarrow> metric list" where
  "interval_metrics cpu st =
     (if sint (IS_Count st) > 0
      then [HistogramMetric ''etw_thread_context_switch_interval_milliseconds'' (unat (IS_Count st))
              (uint (IS_Sum st))
              (running_counts 0 (map csIntervalBound [0..<numIntervalBuckets]) (IS_Buckets st))
              [FormatUint10 cpu]]
      else [])"

definition collect_intervals :: "thread_collector \<Rightarrow> thread_collector" where
  "collect_intervals c = c\<lparr>
     cumulativeIntervals := map2 merge_stats (cumulativeIntervals c) (contextSwitchIntervals c),
     contextSwitchIntervals := map (\<lambda>_. is_Reset newIntervalStats) (contextSwitchIntervals c)\<rparr>"

definition thread_Collect :: "thread_collector \<Rightarrow> ksm \<Rightarrow> metric list \<times> thread_collector" where
  "thread_Collect c s =
     (let c' = collect_intervals c
      in (concat (map (\<lambda>cpu. if sint (contextSwitchesPerCPU c ! cpu) > 0
                   then [CounterMetric ''etw_thread_context_switches_cpu_total''
                          (unat (contextSwitchesPerCPU c ! cpu)) [FormatUint10 cpu]] else [])
            [0..<length (contextSwitchesPerCPU c)])
          @ program_metrics (\<lambda>key m. case Agg_Threads m of
                Some n \<Rightarrow> if n > 0 then [CounterMetric ''etw_thread_context_switches_process_total'' (unat n)
                                          (program_labels key)] else []
              | None \<Rightarrow> []) s
          @ concat (map (\<lambda>cpu. interval_metrics cpu (cumulativeIntervals c' ! cpu))
              [0..<length (cumulativeIntervals c')])
          @ concat (map (\<lambda>i. if sint (threadStateCounters c ! i) > 0
                then [CounterMetric ''etw_thread_states_total'' (unat (threadStateCounters c ! i))
                       [fst (indexToStateKey c ! i), snd (indexToStateKey c ! i)]] else [])
              [0..<length (indexToStateKey c)]), c'))"

definition thread_Describe :: "prom_desc list" where
  "thread_Describe =
     [NewDesc ''etw_thread_context_switches_cpu_total'' [''cpu''],
      NewDesc ''etw_thread_context_switches_process_total'' program_label_names,
      NewDesc ''etw_thread_context_switch_interval_milliseconds'' [''cpu''],
      NewDesc ''etw_thread_states_total'' [''state'', ''wait_reason'']]"


section \<open>The handler\<close>

record thread_handler =
  lastCpuSwitch :: "int list"
  th_collector :: "thread_collector option"

type_synonym thread_state = "thread_handler \<times> ksm"

definition NewThreadHandler :: "nat \<Rightarrow> thread_handler" where
  "NewThreadHandler numCPU = \<lparr>lastCpuSwitch = replicate numCPU 0, th_collector = None\<rparr>"

definition record_switch :: "u32 \<Rightarrow> ksm \<Rightarrow> ksm option" where
  "record_switch tid s =
     (case GetCurrentProcessDataByThread tid s of
        None \<Rightarrow> Some s
      | Some None \<Rightarrow> None
      | Some (Some r) \<Rightarrow> Some (upd_obj r RecordContextSwitch s))"

text \<open>The part after the payload is read.\<close>

definition process_switch :: "u32 \<Rightarrow> u8 \<Rightarrow> u16 \<Rightarrow> int \<Rightarrow> thread_collector \<Rightarrow> thread_state \<Rightarrow> thread_state handled" where
  "process_switch newThreadID oldThreadWaitReason cpu eventTimeNano c st =
     (case st of (h, s) \<Rightarrow>
        if unat cpu < length (lastCpuSwitch h)
        then
          let lastSwitch = lastCpuSwitch h ! unat cpu;
              h1 = h\<lparr>lastCpuSwitch := (lastCpuSwitch h)[unat cpu := eventTimeNano]\<rparr>;
              interval = (if lastSwitch > 0 then wrap64 (eventTimeNano - lastSwitch) else 0)
          in (case record_switch newThreadID s of
                None \<Rightarrow> None
              | Some s' \<Rightarrow>
                  (case RecordCpuContextSwitch cpu interval c of
                     None \<Rightarrow> None
                   | Some c1 \<Rightarrow>
                       let c2 = RecordThreadStateTransition StateWaiting oldThreadWaitReason c1;
                           c3 = RecordThreadStateTransition StateRunning 0 c2
                       in ok (h1\<lparr>th_collector := Some c3\<rparr>, s')))
        else None)"

definition HandleContextSwitchRaw :: "'e etw_lib \<Rightarrow> 'e \<Rightarrow> thread_state \<Rightarrow> thread_state handled" where
  "HandleContextSwitchRaw lib er st =
     (case th_collector (fst st) of
        None \<Rightarrow> ok st
      | Some c \<Rightarrow>
          bind_err (lib_Uint32At lib er 0) st (\<lambda>newThreadID.
            bind_err (lib_Uint8At lib er 12) st (\<lambda>oldThreadWaitReason.
              process_switch newThreadID oldThreadWaitReason (lib_Processor lib er) (lib_TimestampNanos lib er) c st)))"

definition with_collector :: "(thread_collector \<Rightarrow> thread_collector) \<Rightarrow> thread_handler \<Rightarrow> thread_handler" where
  "with_collector f h = h\<lparr>th_collector := map_option f (th_collector h)\<rparr>"

definition HandleReadyThreadRaw :: "'e etw_lib \<Rightarrow> 'e \<Rightarrow> thread_state \<Rightarrow> thread_state handled" where
  "HandleReadyThreadRaw lib er st =
     ok (with_collector (RecordThreadStateTransition StateReady 0) (fst st), snd st)"

definition HandleThreadStartRaw :: "'e etw_lib \<Rightarrow> 'e \<Rightarrow> thread_state \<Rightarrow> thread_state handled" where
  "HandleThreadStartRaw lib er st =
     (case AddThread (u32_0 (lib_Uint32At lib er 4)) (u32_0 (lib_Uint32At lib er 0)) (lib_Timestamp lib er)
             (u32_0 (lib_Uint32At lib er 64)) (snd st) of
        None \<Rightarrow> None
      | Some s' \<Rightarrow> ok (with_collector RecordThreadCreation (fst st), s'))"

definition HandleThreadEndRaw :: "'e etw_lib \<Rightarrow> 'e \<Rightarrow> thread_state \<Rightarrow> thread_state handled" where
  "HandleThreadEndRaw lib er st =
     (case MarkThreadForDeletion (u32_0 (lib_Uint32At lib er 4)) (snd st) of
        None \<Rightarrow> None
      | Some s' \<Rightarrow> ok (with_collector RecordThreadTermination (fst st), s'))"


section \<open>No interval is lost\<close>

definition wf_stats :: "interval_stats \<Rightarrow> bool" where
  "wf_stats s \<longleftrightarrow> length (IS_Buckets s) = numIntervalBuckets"

definition bucket_of :: "duration \<Rightarrow> nat" where
  "bucket_of interval = min (interval_idx interval) (numIntervalBuckets - 1)"

definition add_interval :: "duration \<Rightarrow> interval_stats \<Rightarrow> interval_stats" where
  "add_interval interval s = \<lparr>IS_Count = IS_Count s + 1, IS_Sum = IS_Sum s + word_of_int interval,
     IS_Buckets = (IS_Buckets s)[bucket_of interval := IS_Buckets s ! bucket_of interval + 1]\<rparr>"

lemma record_interval_Some: "wf_stats s \<Longrightarrow> record_interval d s = Some (add_interval d s)"
  by (auto simp: record_interval_def add_interval_def bucket_of_def Let_def arr_add_def wf_stats_def
      numIntervalBuckets_def min_def)

lemma wf_stats_add [simp]: "wf_stats (add_interval d s) = wf_stats s"
  by (simp add: wf_stats_def add_interval_def)

lemma wf_stats_new [simp]: "wf_stats newIntervalStats" "is_Reset newIntervalStats = newIntervalStats"
  by (simp_all add: wf_stats_def newIntervalStats_def is_Reset_def map_replicate_const)

lemma map2_add_upd:
  "length xs = length ys \<Longrightarrow> i < length ys \<Longrightarrow>
   map2 (+) xs (ys[i := ys ! i + v]) = (map2 (+) xs ys)[i := map2 (+) xs ys ! i + (v::'a::ab_semigroup_add)]"
  by (rule nth_equalityI) (auto simp: nth_list_update add.assoc)

interpretation interval_buffer: double_buffer wf_stats newIntervalStats add_interval merge_stats
proof unfold_locales
  show "wf_stats (merge_stats c b)" if "wf_stats c" "wf_stats b" for c b
    using that by (simp add: wf_stats_def merge_stats_def)
  show "merge_stats c newIntervalStats = c" if "wf_stats c" for c
    using that map2_add_zero [of "IS_Buckets c" numIntervalBuckets]
    by (simp add: wf_stats_def merge_stats_def newIntervalStats_def)
  show "merge_stats c (add_interval x b) = add_interval x (merge_stats c b)"
    if "wf_stats c" "wf_stats b" for c b x
    using that by (simp add: wf_stats_def merge_stats_def add_interval_def map2_add_upd bucket_of_def
        numIntervalBuckets_def)
qed simp_all

datatype switch_op = Switch u16 duration | Scrape

definition switch_exec :: "switch_op \<Rightarrow> thread_collector \<Rightarrow> thread_collector option" where
  "switch_exec e c =
     (case e of Switch cpu d \<Rightarrow> RecordCpuContextSwitch cpu d c | Scrape \<Rightarrow> Some (collect_intervals c))"

fun switch_run :: "switch_op list \<Rightarrow> thread_collector \<Rightarrow> thread_collector option" where
  "switch_run [] c = Some c"
| "switch_run (e # es) c = (case switch_exec e c of None \<Rightarrow> None | Some c' \<Rightarrow> switch_run es c')"

definition collector_ok :: "nat \<Rightarrow> thread_collector \<Rightarrow> bool" where
  "collector_ok n c \<longleftrightarrow> length (contextSwitchesPerCPU c) = n \<and> length (contextSwitchIntervals c) = n
     \<and> length (cumulativeIntervals c) = n
     \<and> (\<forall>i < n. wf_stats (contextSwitchIntervals c ! i) \<and> wf_stats (cumulativeIntervals c ! i))"

text \<open>The intervals that reach one CPU's histogram.\<close>

definition cpu_ops :: "nat \<Rightarrow> switch_op list \<Rightarrow> duration buffer_op list" where
  "cpu_ops i es = concat (map (\<lambda>e. case e of
     Switch cpu d \<Rightarrow> if unat cpu = i \<and> d > 0 then [Record d] else [] | Scrape \<Rightarrow> [Collect]) es)"

definition cpu_intervals :: "nat \<Rightarrow> switch_op list \<Rightarrow> duration list" where
  "cpu_intervals i es = concat (map (\<lambda>e. case e of
     Switch cpu d \<Rightarrow> if unat cpu = i \<and> d > 0 then [d] else [] | Scrape \<Rightarrow> []) es)"

lemma cpu_ops_events: "interval_buffer.events (cpu_ops i es) = cpu_intervals i es"
  by (induction es) (auto simp: cpu_ops_def cpu_intervals_def split: switch_op.split)

definition cpu_pair :: "nat \<Rightarrow> thread_collector \<Rightarrow> interval_stats \<times> interval_stats" where
  "cpu_pair i c = (cumulativeIntervals c ! i, contextSwitchIntervals c ! i)"

lemma switch_exec_spec:
  assumes "collector_ok n c" and "i < n"
  shows "\<exists>c'. switch_exec e c = Some c' \<and> collector_ok n c'
    \<and> cpu_pair i c' = fold interval_buffer.step_op (cpu_ops i [e]) (cpu_pair i c)"
proof (cases e)
  case Scrape
  then show ?thesis using assms interval_buffer.wf_merge
    by (simp add: switch_exec_def collect_intervals_def collector_ok_def cpu_ops_def cpu_pair_def)
next
  case (Switch cpu d)
  let ?k = "unat cpu"
  have rec: "?k < n \<Longrightarrow> record_interval d (contextSwitchIntervals c ! ?k) =
      Some (add_interval d (contextSwitchIntervals c ! ?k))"
    using assms(1) by (simp add: record_interval_Some collector_ok_def)
  show ?thesis
  proof (cases "?k < n")
    case True
    then show ?thesis using Switch assms rec
      by (auto simp: switch_exec_def RecordCpuContextSwitch_def Let_def collector_ok_def cpu_ops_def
          cpu_pair_def nth_list_update)
  next
    case False
    then show ?thesis using Switch assms
      by (auto simp: switch_exec_def RecordCpuContextSwitch_def Let_def collector_ok_def cpu_ops_def
          cpu_pair_def)
  qed
qed

lemma switch_run_spec:
  assumes "collector_ok n c" and "i < n"
  shows "\<exists>c'. switch_run es c = Some c' \<and> collector_ok n c'
    \<and> cpu_pair i c' = fold interval_buffer.step_op (cpu_ops i es) (cpu_pair i c)"
  using assms(1)
proof (induction es arbitrary: c)
  case Nil
  then show ?case by (simp add: cpu_ops_def)
next
  case (Cons e es)
  obtain c1 where c1: "switch_exec e c = Some c1" "collector_ok n c1"
    "cpu_pair i c1 = fold interval_buffer.step_op (cpu_ops i [e]) (cpu_pair i c)"
    using switch_exec_spec [OF Cons.prems assms(2)] by blast
  have "cpu_ops i (e # es) = cpu_ops i [e] @ cpu_ops i es" by (simp add: cpu_ops_def)
  then show ?case using Cons.IH [OF c1(2)] c1 by simp
qed

lemma collector_ok_new: "collector_ok n (NewThreadCSCollector n)"
  by (simp add: collector_ok_def NewThreadCSCollector_def)

section \<open>Buckets\<close>

lemma Len64_bounds: "n > 0 \<Longrightarrow> Len64 n > 0 \<and> 2 ^ (Len64 n - 1) \<le> n \<and> n < 2 ^ Len64 n"
proof (induction n rule: Len64.induct)
  case (1 n)
  show ?case
  proof (cases "n div 2 = 0")
    case True
    then have "n = 1" using 1(2) by linarith
    then show ?thesis by (simp add: Len64.simps)
  next
    case False
    then have ih: "Len64 (n div 2) > 0" "2 ^ (Len64 (n div 2) - 1) \<le> n div 2" "n div 2 < 2 ^ Len64 (n div 2)"
      using 1 by simp_all
    have e: "Len64 n = Suc (Len64 (n div 2))" using 1(2) by (subst Len64.simps) simp
    obtain k where k: "Len64 (n div 2) = Suc k" using ih(1) by (cases "Len64 (n div 2)") auto
    have "2 ^ Suc k \<le> n" using ih(2) k by simp
    moreover have "n < 2 ^ Suc (Suc k)" using ih(3) k by simp
    ultimately show ?thesis using e k by simp
  qed
qed

lemma interval_idx_bounds:
  assumes "csIntervalBound 0 \<le> d"
  shows "csIntervalBound (interval_idx d) \<le> d" and "d < 2 * csIntervalBound (interval_idx d)"
proof -
  let ?us = "nat (d div 1000)"
  have d: "0 \<le> d" "1000 \<le> d" using assms by (simp_all add: csIntervalBound_def)
  then have us: "?us > 0" by simp
  have i: "interval_idx d = Len64 ?us - 1" using d us by (simp add: interval_idx_def Let_def)
  have L: "2 ^ (Len64 ?us - 1) \<le> ?us" "?us < 2 ^ Len64 ?us" "Len64 ?us > 0" using Len64_bounds [OF us] by simp_all
  have "(2::int) ^ (Len64 ?us - 1) \<le> d div 1000"
    using L(1) d by (simp add: le_nat_iff)
  moreover have "d div 1000 < 2 ^ Len64 ?us"
    using L(2) d by (simp add: nat_less_iff)
  moreover have "(2::int) ^ Len64 ?us = 2 * 2 ^ (Len64 ?us - 1)" using L(3) by (simp flip: power_Suc)
  ultimately show "csIntervalBound (interval_idx d) \<le> d" and "d < 2 * csIntervalBound (interval_idx d)"
    using d unfolding i csIntervalBound_def by simp_all linarith+
qed

lemma csIntervalBound_mono: "i \<le> j \<Longrightarrow> csIntervalBound i \<le> csIntervalBound j"
  by (simp add: csIntervalBound_def)

lemma bucket_below:
  assumes "csIntervalBound 0 \<le> d"
  shows "csIntervalBound (bucket_of d) \<le> d"
proof -
  have "csIntervalBound (bucket_of d) \<le> csIntervalBound (interval_idx d)"
    by (rule csIntervalBound_mono) (simp add: bucket_of_def)
  then show ?thesis using interval_idx_bounds(1) [OF assms] by linarith
qed


section \<open>Safety of the handler\<close>

definition thread_state_ok :: "nat \<Rightarrow> thread_state \<Rightarrow> bool" where
  "thread_state_ok n st \<longleftrightarrow> length (lastCpuSwitch (fst st)) = n \<and> ksm_inv (snd st)
     \<and> (\<forall>c. th_collector (fst st) = Some c \<longrightarrow> collector_ok n c)"

lemma keeps_identity_ContextSwitch [simp]: "keeps_identity RecordContextSwitch"
  by (simp add: keeps_identity_def)

lemma record_switch_inv:
  assumes "ksm_inv s"
  shows "\<exists>t. record_switch tid s = Some t \<and> ksm_inv t"
  using assms thread_invD(3) [OF ksm_invD(2) [OF assms], of tid]
  by (auto simp: record_switch_def GetCurrentProcessDataByThread_def upd_obj_inv_all split: option.split)

lemma transition_ok [simp]: "collector_ok n (RecordThreadStateTransition st r c) = collector_ok n c"
  by (simp add: RecordThreadStateTransition_def collector_ok_def Let_def)

lemma RecordCpu_ok:
  assumes "collector_ok n c" and "unat cpu < n"
  shows "\<exists>c'. RecordCpuContextSwitch cpu d c = Some c' \<and> collector_ok n c'"
  using switch_exec_spec [OF assms, of "Switch cpu d"] by (auto simp: switch_exec_def)

lemma process_switch_ok:
  assumes "thread_state_ok n st" and "unat cpu < n" and "th_collector (fst st) = Some c"
  shows "handled_ok (process_switch tid wr cpu now c st) (thread_state_ok n)"
proof -
  obtain h s where st: "st = (h, s)" by force
  have c: "collector_ok n c" "ksm_inv s" "length (lastCpuSwitch h) = n"
    using assms(1,3) st by (simp_all add: thread_state_ok_def)
  let ?last = "lastCpuSwitch h ! unat cpu"
  obtain t where t: "record_switch tid s = Some t" "ksm_inv t"
    using record_switch_inv [OF c(2)] by blast
  obtain c' where "RecordCpuContextSwitch cpu (if ?last > 0 then wrap64 (now - ?last) else 0) c = Some c'"
    "collector_ok n c'"
    using RecordCpu_ok [OF c(1) assms(2)] by blast
  then show ?thesis using t c(3) assms(2)
    unfolding st process_switch_def Let_def by (simp add: handled_ok_def ok_def thread_state_ok_def)
qed

lemma HandleContextSwitchRaw_in_range:
  assumes "thread_state_ok n st" and "unat (lib_Processor lib er) < n"
  shows "handled_ok (HandleContextSwitchRaw lib er st) (thread_state_ok n)"
  using assms process_switch_ok [OF assms]
  by (auto simp: HandleContextSwitchRaw_def intro!: handled_ok_ok handled_ok_bind split: option.split)

lemma HandleContextSwitchRaw_out_of_range:
  assumes "th_collector (fst st) = Some c" and "lib_Uint32At lib er 0 = Some tid"
    and "lib_Uint8At lib er 12 = Some wr" and "length (lastCpuSwitch (fst st)) \<le> unat (lib_Processor lib er)"
  shows "HandleContextSwitchRaw lib er st = None"
  using assms by (cases st) (simp add: HandleContextSwitchRaw_def process_switch_def bind_err_def)

lemma thread_lifecycle_safe:
  assumes "thread_state_ok n st"
  shows "handled_ok (HandleReadyThreadRaw lib er st) (thread_state_ok n)"
    and "handled_ok (HandleThreadStartRaw lib er st) (thread_state_ok n)"
    and "handled_ok (HandleThreadEndRaw lib er st) (thread_state_ok n)"
proof -
  have inv: "ksm_inv (snd st)" using assms by (simp add: thread_state_ok_def)
  have upd: "thread_state_ok n (with_collector f (fst st), s')" 
    if "ksm_inv s'" "\<And>c. collector_ok n (f c) = collector_ok n c" for f s'
    using assms that by (auto simp: thread_state_ok_def with_collector_def)
  show "handled_ok (HandleReadyThreadRaw lib er st) (thread_state_ok n)"
    unfolding HandleReadyThreadRaw_def by (intro handled_ok_ok upd inv) simp
  obtain t where t: "AddThread (u32_0 (lib_Uint32At lib er 4)) (u32_0 (lib_Uint32At lib er 0)) (lib_Timestamp lib er)
             (u32_0 (lib_Uint32At lib er 64)) (snd st) = Some t" "ksm_inv t"
    using AddThread_inv_all [OF inv] by blast
  show "handled_ok (HandleThreadStartRaw lib er st) (thread_state_ok n)"
    unfolding HandleThreadStartRaw_def t(1)
    by (simp, intro handled_ok_ok upd t(2)) (simp add: RecordThreadCreation_def)
  obtain u where u: "MarkThreadForDeletion (u32_0 (lib_Uint32At lib er 4)) (snd st) = Some u" "ksm_inv u"
    using MarkThread_inv_all [OF inv] by blast
  show "handled_ok (HandleThreadEndRaw lib er st) (thread_state_ok n)"
    unfolding HandleThreadEndRaw_def u(1)
    by (simp, intro handled_ok_ok upd u(2)) (simp add: RecordThreadTermination_def)
qed


section \<open>Properties\<close>

text \<open>C30. No switch interval is lost or counted twice across scrapes: after any mix of context switches
  and scrapes, the histogram that a scrape publishes for a CPU is the histogram of all
  positive intervals recorded on that CPU so far.\<close>

theorem published_intervals:
  assumes "i < n"
  shows "\<exists>c. switch_run (es @ [Scrape]) (NewThreadCSCollector n) = Some c
    \<and> cumulativeIntervals c ! i = fold add_interval (cpu_intervals i es) newIntervalStats"
proof -
  obtain c where c: "switch_run (es @ [Scrape]) (NewThreadCSCollector n) = Some c"
    "cpu_pair i c = fold interval_buffer.step_op (cpu_ops i (es @ [Scrape])) (cpu_pair i (NewThreadCSCollector n))"
    using switch_run_spec [OF collector_ok_new assms] by blast
  have "cpu_ops i (es @ [Scrape]) = cpu_ops i es @ [Collect]" by (simp add: cpu_ops_def)
  moreover have "cpu_pair i (NewThreadCSCollector n) = (newIntervalStats, newIntervalStats)"
    using assms by (simp add: cpu_pair_def NewThreadCSCollector_def)
  ultimately have "fold interval_buffer.step_op (cpu_ops i es @ [Collect]) (newIntervalStats, newIntervalStats) =
      (cumulativeIntervals c ! i, contextSwitchIntervals c ! i)"
    using c(2) by (simp add: cpu_pair_def)
  from interval_buffer.collect_exact(1) [OF this] show ?thesis using c(1) by (simp add: cpu_ops_events)
qed

theorem published_intervals_witness:
  "\<exists>c. switch_run ([Switch 1 5000, Scrape, Switch 0 9000, Switch 1 7000] @ [Scrape]) (NewThreadCSCollector 2) = Some c
     \<and> IS_Count (cumulativeIntervals c ! 1) = 2 \<and> IS_Sum (cumulativeIntervals c ! 1) = 12000"
  using published_intervals [of 1 2 "[Switch 1 5000, Scrape, Switch 0 9000, Switch 1 7000]"]
  by (auto simp: cpu_intervals_def add_interval_def newIntervalStats_def)

text \<open>Which bucket an interval is counted in: the bucket index is the position of the highest bit
  of the interval in microseconds, cut off at the last bucket. The upper bound (the \<open>le\<close>
  label) of that bucket is never above the interval, so every interval that is not exactly
  a bound is counted as if it were shorter than it is, and an interval beyond the last
  bound is counted in the last finite bucket.\<close>

theorem interval_counted_too_low:
  assumes "wf_stats st" and "csIntervalBound 0 \<le> d"
  shows "\<exists>st'. record_interval d st = Some st'
    \<and> IS_Buckets st' = (IS_Buckets st)[bucket_of d := IS_Buckets st ! bucket_of d + 1]
    \<and> csIntervalBound (bucket_of d) \<le> d
    \<and> (interval_idx d < numIntervalBuckets \<longrightarrow> d < 2 * csIntervalBound (bucket_of d))"
  using record_interval_Some [OF assms(1), of d] bucket_below [OF assms(2)] interval_idx_bounds(2) [OF assms(2)]
  by (simp add: add_interval_def bucket_of_def min_def numIntervalBuckets_def)

theorem interval_counted_too_low_witness:
  "\<exists>st'. record_interval 100000000 newIntervalStats = Some st'
     \<and> IS_Buckets st' ! 14 = 1 \<and> csIntervalBound 14 < 100000000"
proof -
  have b: "csIntervalBound 0 \<le> 100000000" by (simp add: csIntervalBound_def)
  have i: "bucket_of 100000000 = 14"
    by (simp add: bucket_of_def interval_idx_def Len64.simps numIntervalBuckets_def)
  show ?thesis
    using interval_counted_too_low [OF wf_stats_new(1) b] unfolding i
    by (auto simp: newIntervalStats_def numIntervalBuckets_def csIntervalBound_def)
qed

text \<open>The context switch handler panics exactly on events from a CPU it has no slot for: with a
  collector attached and a readable payload, on a CPU number below the number of CPUs at
  start it succeeds and keeps the state well formed, and on any other CPU number the
  unchecked index panics.\<close>

theorem context_switch_cpu_bound:
  assumes "thread_state_ok n st" and "th_collector (fst st) = Some c"
    and "lib_Uint32At lib er 0 = Some tid" and "lib_Uint8At lib er 12 = Some wr"
  shows "(HandleContextSwitchRaw lib er st = None \<longleftrightarrow> n \<le> unat (lib_Processor lib er))
    \<and> (unat (lib_Processor lib er) < n \<longrightarrow> handled_ok (HandleContextSwitchRaw lib er st) (thread_state_ok n))"
proof (cases "unat (lib_Processor lib er) < n")
  case True
  then show ?thesis
    using HandleContextSwitchRaw_in_range [OF assms(1) True] by (auto simp: handled_ok_def)
next
  case False
  then have "length (lastCpuSwitch (fst st)) \<le> unat (lib_Processor lib er)"
    using assms(1) by (simp add: thread_state_ok_def)
  then show ?thesis using HandleContextSwitchRaw_out_of_range [OF assms(2-4)] False by simp
qed

theorem context_switch_cpu_bound_witness:
  "HandleContextSwitchRaw byte_lib (sample_read\<lparr>se_cpu := 64\<rparr>)
     ((NewThreadHandler 64)\<lparr>th_collector := Some (NewThreadCSCollector 64)\<rparr>, sample_state) = None"
proof -
  let ?st = "((NewThreadHandler 64)\<lparr>th_collector := Some (NewThreadCSCollector 64)\<rparr>, sample_state)"
  let ?e = "sample_read\<lparr>se_cpu := 64\<rparr>"
  have st: "thread_state_ok 64 ?st" "th_collector (fst ?st) = Some (NewThreadCSCollector 64)"
    using sample_state_inv collector_ok_new [of 64] by (simp_all add: thread_state_ok_def NewThreadHandler_def)
  have e: "lib_Uint32At byte_lib ?e 0 = Some 2" "lib_Uint8At byte_lib ?e 12 = Some 0"
    by (simp_all add: byte_lib_def le_read_def sample_read_def)
  have "unat (lib_Processor byte_lib ?e) = 64" by (simp add: byte_lib_def)
  then show ?thesis using context_switch_cpu_bound [OF st e] by simp
qed

end
