(* ===== verification/Perf_Collector.thy ===== *)
theory Perf_Collector
  imports Kernel_Handlers Double_Buffer "HOL-Library.Multiset"
begin

text \<open>
  \<open>kernelperf\<close>: interrupt (ISR) and deferred call (DPC) latency. A DPC event is pending on its
  CPU until the next DPC or context switch there gives it an end; then its duration goes to
  the histogram of its driver and the closest earlier ISR of the CPU gives a latency sample.
  All of it lives in an active buffer that a scrape swaps for an empty one.

  Microseconds are whole numbers in the code (\<open>Duration.Microseconds\<close>), so the \<open>float64\<close> sums
  and bucket bounds are integers here. The pool of \<open>ISREvent\<close> objects only saves
  allocations: an event is written in full when it is taken.
\<close>

section \<open>Histograms\<close>

record histogram_data =
  HD_buckets :: "(int, i64) cmap"
  HD_count :: u64
  HD_sum :: int

definition newHistogramData :: histogram_data where
  "newHistogramData = \<lparr>HD_buckets = cm_empty, HD_count = 0, HD_sum = 0\<rparr>"

definition ISRToDPCLatencyBuckets :: "int list" where
  "ISRToDPCLatencyBuckets = map (\<lambda>i. 5 ^ i) [0..<11]"

definition DPCDurationBuckets :: "int list" where
  "DPCDurationBuckets = map (\<lambda>i. 5 ^ i) [0..<12]"

definition Microseconds :: "duration \<Rightarrow> int" where
  "Microseconds d = trunc_div d 1000"

definition add_at :: "'k \<Rightarrow> 'v::{zero,plus} \<Rightarrow> ('k, 'v) cmap \<Rightarrow> ('k, 'v) cmap" where
  "add_at k n m = cm_store k (get_or 0 k m + n) m"

text \<open>The first bucket whose bound is not below the value.\<close>

definition find_bucket :: "int list \<Rightarrow> int \<Rightarrow> (int, i64) cmap \<Rightarrow> (int, i64) cmap" where
  "find_bucket bounds v m = (case find (\<lambda>b. v \<le> b) bounds of Some b \<Rightarrow> add_at b 1 m | None \<Rightarrow> m)"

definition merge_counts :: "('k, 'v::{zero,plus}) cmap \<Rightarrow> ('k, 'v) cmap \<Rightarrow> ('k, 'v) cmap" where
  "merge_counts tot old = fold (\<lambda>(k, n). add_at k n) (cm_entries old) tot"


section \<open>The buffer\<close>

record pending_dpc =
  PD_initialTime :: go_time
  PD_routineAddress :: u64

record isr_event =
  ISR_InitialTime :: go_time
  ISR_RoutineAddress :: u64
  ISR_CPU :: u16
  ISR_Vector :: u16

record metrics_buffer =
  lastDPCPerCPU :: "(u16, pending_dpc) cmap"
  pendingISRs :: "(u16, isr_event list) cmap"
  isrToDpcLatencyBuckets :: "(int, i64) cmap"
  isrToDpcLatencyCount :: u64
  isrToDpcLatencySum :: int
  dpcDurationHistograms :: "(string, histogram_data) cmap"
  dpcQueuedCount :: "(u16, i64) cmap"
  dpcExecutedCount :: "(u16, i64) cmap"

definition newMetricsBuffer :: metrics_buffer where
  "newMetricsBuffer = \<lparr>lastDPCPerCPU = cm_empty, pendingISRs = cm_empty,
     isrToDpcLatencyBuckets = fold (\<lambda>b. cm_store b 0) ISRToDPCLatencyBuckets cm_empty,
     isrToDpcLatencyCount = 0, isrToDpcLatencySum = 0, dpcDurationHistograms = cm_empty,
     dpcQueuedCount = cm_empty, dpcExecutedCount = cm_empty\<rparr>"

record perf_collector =
  Perf_EnablePerDriver :: bool
  Perf_EnablePerCPU :: bool
  Perf_EnableSMIDetection :: bool
  activeBuffer :: metrics_buffer
  totalDpcQueuedCount :: "(u16, u64) cmap"
  totalDpcExecutedCount :: "(u16, u64) cmap"
  totalIsrToDpcLatency :: histogram_data
  totalDpcDurations :: "(string, histogram_data) cmap"

definition NewPerfInfoCollector :: "bool \<Rightarrow> bool \<Rightarrow> bool \<Rightarrow> perf_collector" where
  "NewPerfInfoCollector per_driver per_cpu smi = \<lparr>Perf_EnablePerDriver = per_driver,
     Perf_EnablePerCPU = per_cpu, Perf_EnableSMIDetection = smi, activeBuffer = newMetricsBuffer,
     totalDpcQueuedCount = cm_empty, totalDpcExecutedCount = cm_empty,
     totalIsrToDpcLatency = newHistogramData, totalDpcDurations = cm_empty\<rparr>"


section \<open>Recording\<close>

definition recordISRToDPCLatency :: "int \<Rightarrow> metrics_buffer \<Rightarrow> metrics_buffer" where
  "recordISRToDPCLatency latencyMicros b = b\<lparr>
     isrToDpcLatencyCount := isrToDpcLatencyCount b + 1,
     isrToDpcLatencySum := isrToDpcLatencySum b + latencyMicros,
     isrToDpcLatencyBuckets := find_bucket ISRToDPCLatencyBuckets latencyMicros (isrToDpcLatencyBuckets b)\<rparr>"

definition recordDPCDuration :: "string \<Rightarrow> int \<Rightarrow> metrics_buffer \<Rightarrow> metrics_buffer" where
  "recordDPCDuration driverName durationMicros b =
     (let hist = get_or newHistogramData driverName (dpcDurationHistograms b)
      in b\<lparr>dpcDurationHistograms := cm_store driverName
           \<lparr>HD_buckets = find_bucket DPCDurationBuckets durationMicros (HD_buckets hist),
            HD_count = HD_count hist + 1, HD_sum = HD_sum hist + durationMicros\<rparr> (dpcDurationHistograms b)\<rparr>)"

text \<open>The scan keeps the closest ISR seen so far with its index; \<open>time.Hour\<close> is the start value.\<close>

definition hour :: duration where "hour = 3600 * second"

fun closest_isr :: "go_time \<Rightarrow> nat \<Rightarrow> isr_event list \<Rightarrow> duration \<Rightarrow> (nat \<times> isr_event) option \<Rightarrow>
    duration \<times> (nat \<times> isr_event) option" where
  "closest_isr dpcInitialTime i [] closestTime matched = (closestTime, matched)"
| "closest_isr dpcInitialTime i (isr # isrs) closestTime matched =
     (let timeDiff = time_Sub dpcInitialTime (ISR_InitialTime isr)
      in if timeDiff \<ge> 0 \<and> timeDiff < closestTime
         then closest_isr dpcInitialTime (Suc i) isrs timeDiff (Some (i, isr))
         else closest_isr dpcInitialTime (Suc i) isrs closestTime matched)"

text \<open>The matched element is overwritten with the last one and the slice is cut by one.\<close>

definition swap_remove :: "nat \<Rightarrow> 'a list \<Rightarrow> 'a list" where
  "swap_remove i xs = butlast (xs[i := last xs])"

definition correlateISR :: "u16 \<Rightarrow> go_time \<Rightarrow> metrics_buffer \<Rightarrow> metrics_buffer" where
  "correlateISR cpu dpcInitialTime b =
     (let isrsOnCPU = get_or [] cpu (pendingISRs b)
      in case closest_isr dpcInitialTime 0 isrsOnCPU hour None of
           (_, None) \<Rightarrow> b
         | (closestTime, Some (matchedIndex, _)) \<Rightarrow>
             let b1 = recordISRToDPCLatency (Microseconds closestTime) b
             in b1\<lparr>pendingISRs := cm_store cpu (swap_remove matchedIndex isrsOnCPU) (pendingISRs b1)\<rparr>)"

definition resolveDriverName :: "u64 \<Rightarrow> image_manager \<Rightarrow> string \<times> image_manager" where
  "resolveDriverName routineAddress im =
     (case GetImageForAddress routineAddress im of
        (Some r, im') \<Rightarrow> (ImageName (image_heap im' r), im')
      | (None, im') \<Rightarrow> (''unknown'', im'))"

definition finalizeAndClearPendingDPC ::
    "bool \<Rightarrow> u16 \<Rightarrow> go_time \<Rightarrow> metrics_buffer \<times> image_manager \<Rightarrow> metrics_buffer \<times> image_manager" where
  "finalizeAndClearPendingDPC per_driver cpu endTime st =
     (case st of (b, im) \<Rightarrow>
        case cm_load cpu (lastDPCPerCPU b) of
          None \<Rightarrow> (b, im)
        | Some lastDPC \<Rightarrow>
            let durationMicros = Microseconds (time_Sub endTime (PD_initialTime lastDPC));
                b1 = b\<lparr>dpcExecutedCount := add_at cpu 1 (dpcExecutedCount b)\<rparr>;
                (b2, im2) =
                  (if per_driver
                   then case resolveDriverName (PD_routineAddress lastDPC) im of (driverName, im') \<Rightarrow>
                          (if driverName \<noteq> ''unknown'' then recordDPCDuration driverName durationMicros b1 else b1, im')
                   else (b1, im));
                b3 = correlateISR cpu (PD_initialTime lastDPC) b2
            in (b3\<lparr>lastDPCPerCPU := cm_delete cpu (lastDPCPerCPU b3)\<rparr>, im2))"

definition cleanup_list :: "go_time \<Rightarrow> isr_event list \<Rightarrow> isr_event list" where
  "cleanup_list currentTime isrs =
     filter (\<lambda>isr. time_Sub currentTime (ISR_InitialTime isr) \<le> 10 * millisecond) isrs"

definition cleanupOldISRs :: "go_time \<Rightarrow> metrics_buffer \<Rightarrow> metrics_buffer" where
  "cleanupOldISRs currentTime b = b\<lparr>pendingISRs :=
     fold (\<lambda>(cpu, isrs) m. case cleanup_list currentTime isrs of
              [] \<Rightarrow> cm_delete cpu m | surviving \<Rightarrow> cm_store cpu surviving m)
       (cm_entries (pendingISRs b)) (pendingISRs b)\<rparr>"

definition ProcessISREvent :: "u16 \<Rightarrow> u16 \<Rightarrow> go_time \<Rightarrow> u64 \<Rightarrow> perf_collector \<Rightarrow> perf_collector" where
  "ProcessISREvent cpu vector initialTime routineAddress c =
     (let b = activeBuffer c;
          isr = \<lparr>ISR_InitialTime = initialTime, ISR_RoutineAddress = routineAddress, ISR_CPU = cpu, ISR_Vector = vector\<rparr>;
          b1 = b\<lparr>dpcQueuedCount := add_at cpu 1 (dpcQueuedCount b),
                 pendingISRs := cm_store cpu (get_or [] cpu (pendingISRs b) @ [isr]) (pendingISRs b)\<rparr>
      in c\<lparr>activeBuffer := (if cm_count (pendingISRs b1) mod 100 = 0 then cleanupOldISRs initialTime b1 else b1)\<rparr>)"

definition ProcessDPCEvent :: "u16 \<Rightarrow> go_time \<Rightarrow> go_time \<Rightarrow> u64 \<Rightarrow>
    perf_collector \<times> image_manager \<Rightarrow> perf_collector \<times> image_manager" where
  "ProcessDPCEvent cpu eventTime initialTime routineAddress st =
     (case st of (c, im) \<Rightarrow>
        case finalizeAndClearPendingDPC (Perf_EnablePerDriver c) cpu eventTime (activeBuffer c, im) of (b, im') \<Rightarrow>
          (c\<lparr>activeBuffer := b\<lparr>lastDPCPerCPU := cm_store cpu
               \<lparr>PD_initialTime = initialTime, PD_routineAddress = routineAddress\<rparr> (lastDPCPerCPU b)\<rparr>\<rparr>, im'))"

definition ProcessCSwitchEvent :: "u16 \<Rightarrow> go_time \<Rightarrow>
    perf_collector \<times> image_manager \<Rightarrow> perf_collector \<times> image_manager" where
  "ProcessCSwitchEvent cpu eventTime st =
     (case st of (c, im) \<Rightarrow>
        case finalizeAndClearPendingDPC (Perf_EnablePerDriver c) cpu eventTime (activeBuffer c, im) of (b, im') \<Rightarrow>
          (c\<lparr>activeBuffer := b\<rparr>, im'))"

section \<open>A scrape\<close>

text \<open>
  The buffers in the pool have been reset, so the one that \<open>Get\<close> returns is a new buffer.
\<close>

definition merge_hist :: "histogram_data \<Rightarrow> histogram_data \<Rightarrow> histogram_data" where
  "merge_hist t hist = \<lparr>HD_buckets = merge_counts (HD_buckets t) (HD_buckets hist),
     HD_count = HD_count t + HD_count hist, HD_sum = HD_sum t + HD_sum hist\<rparr>"

definition merge_drivers :: "(string, histogram_data) cmap \<Rightarrow> (string, histogram_data) cmap \<Rightarrow>
    (string, histogram_data) cmap" where
  "merge_drivers tot old =
     fold (\<lambda>(key, hist) m. cm_store key (merge_hist (get_or newHistogramData key m) hist) m) (cm_entries old) tot"

definition merge_buffer :: "string list \<Rightarrow> perf_collector \<Rightarrow> perf_collector" where
  "merge_buffer cleanedImages c =
     (let oldBuffer = activeBuffer c
      in c\<lparr>activeBuffer := newMetricsBuffer,
          totalDpcQueuedCount := merge_counts (totalDpcQueuedCount c) (dpcQueuedCount oldBuffer),
          totalDpcExecutedCount := merge_counts (totalDpcExecutedCount c) (dpcExecutedCount oldBuffer),
          totalIsrToDpcLatency := merge_hist (totalIsrToDpcLatency c)
            \<lparr>HD_buckets = isrToDpcLatencyBuckets oldBuffer, HD_count = isrToDpcLatencyCount oldBuffer,
             HD_sum = isrToDpcLatencySum oldBuffer\<rparr>,
          totalDpcDurations := fold cm_delete cleanedImages
            (merge_drivers (totalDpcDurations c) (dpcDurationHistograms oldBuffer))\<rparr>)"

text \<open>The running sums of the bucket counts, in the order of the bounds.\<close>

fun cumulative_buckets :: "(int, i64) cmap \<Rightarrow> int list \<Rightarrow> u64 \<Rightarrow> (int \<times> nat) list" where
  "cumulative_buckets m [] cumulativeCount = []"
| "cumulative_buckets m (bucketBound # bs) cumulativeCount =
     (let n = cumulativeCount + get_or 0 bucketBound m
      in (bucketBound, unat n) # cumulative_buckets m bs n)"

definition hist_metric :: "string \<Rightarrow> int list \<Rightarrow> histogram_data \<Rightarrow> string list \<Rightarrow> metric" where
  "hist_metric name bounds hist labels =
     HistogramMetric name (unat (HD_count hist)) (HD_sum hist) (cumulative_buckets (HD_buckets hist) bounds 0) labels"

definition collectISRToDPCLatencyHistogram :: "perf_collector \<Rightarrow> metric list" where
  "collectISRToDPCLatencyHistogram c =
     [hist_metric ''etw_perfinfo_isr_to_dpc_latency_microseconds'' ISRToDPCLatencyBuckets (totalIsrToDpcLatency c) []]"

definition collectDPCDurationHistograms :: "perf_collector \<Rightarrow> metric list" where
  "collectDPCDurationHistograms c = concat (map (\<lambda>(driverKey, hist).
     if HD_count hist > 0
     then [hist_metric ''etw_perfinfo_dpc_execution_time_microseconds'' DPCDurationBuckets hist [driverKey]]
     else []) (cm_entries (totalDpcDurations c)))"

definition allCPUs :: "perf_collector \<Rightarrow> u16 list" where
  "allCPUs c = remdups (map fst (cm_entries (totalDpcQueuedCount c)) @ map fst (cm_entries (totalDpcExecutedCount c)))"

definition collectDPCCounters :: "perf_collector \<Rightarrow> metric list" where
  "collectDPCCounters c =
     (let queued = (\<lambda>cpu. get_or 0 cpu (totalDpcQueuedCount c));
          executed = (\<lambda>cpu. get_or 0 cpu (totalDpcExecutedCount c))
      in (if Perf_EnablePerCPU c
          then concat (map (\<lambda>cpu.
            [CounterMetric ''etw_perfinfo_dpc_queued_cpu_total'' (unat (queued cpu)) [FormatUint10 (unat cpu)],
             CounterMetric ''etw_perfinfo_dpc_executed_cpu_total'' (unat (executed cpu)) [FormatUint10 (unat cpu)]])
            (allCPUs c))
          else [])
         @ [CounterMetric ''etw_perfinfo_dpc_queued_total'' (unat (sum_list (map queued (allCPUs c)))) [],
            CounterMetric ''etw_perfinfo_dpc_executed_total'' (unat (sum_list (map executed (allCPUs c)))) []])"

definition collectSMIGaps :: "metric list" where
  "collectSMIGaps = [HistogramMetric ''etw_perfinfo_smi_gaps_microseconds'' 0 0 [] []]"

definition perf_collectMetrics :: "perf_collector \<Rightarrow> metric list" where
  "perf_collectMetrics c =
     collectISRToDPCLatencyHistogram c
     @ (if Perf_EnablePerDriver c then collectDPCDurationHistograms c else [])
     @ collectDPCCounters c
     @ (if Perf_EnableSMIDetection c then collectSMIGaps else [])"

definition perf_Collect :: "image_manager \<Rightarrow> perf_collector \<Rightarrow> metric list \<times> perf_collector" where
  "perf_Collect im c = (let c1 = merge_buffer (GetCleanedImages im) c in (perf_collectMetrics c1, c1))"

definition perf_Describe :: "perf_collector \<Rightarrow> prom_desc list" where
  "perf_Describe c =
     [NewDesc ''etw_perfinfo_isr_to_dpc_latency_microseconds'' [], NewDesc ''etw_perfinfo_dpc_queued_total'' [],
      NewDesc ''etw_perfinfo_dpc_executed_total'' []]
     @ (if Perf_EnableSMIDetection c then [NewDesc ''etw_perfinfo_smi_gaps_microseconds'' []] else [])
     @ (if Perf_EnablePerDriver c
        then [NewDesc ''etw_perfinfo_dpc_execution_time_microseconds'' [''image_name'']] else [])
     @ (if Perf_EnablePerCPU c
        then [NewDesc ''etw_perfinfo_dpc_queued_cpu_total'' [''cpu''],
              NewDesc ''etw_perfinfo_dpc_executed_cpu_total'' [''cpu'']] else [])"


section \<open>Handlers\<close>

text \<open>The handler ignores events until a collector is attached.\<close>

type_synonym perf_state = "perf_collector option \<times> image_manager"

definition PerfHandleISREventRaw :: "'e etw_lib \<Rightarrow> 'e \<Rightarrow> perf_state \<Rightarrow> perf_state handled" where
  "PerfHandleISREventRaw lib er st =
     (case fst st of None \<Rightarrow> ok st
      | Some c \<Rightarrow>
          bind_err (lib_Uint64At lib er 8) st (\<lambda>routineAddress.
          bind_err (lib_Uint16At lib er 17) st (\<lambda>vector.
          bind_err (lib_WmiTimeAt lib er 0) st (\<lambda>initialTime.
            ok (Some (ProcessISREvent (lib_Processor lib er) vector initialTime routineAddress c), snd st)))))"

definition PerfHandleDPCEventRaw :: "'e etw_lib \<Rightarrow> 'e \<Rightarrow> perf_state \<Rightarrow> perf_state handled" where
  "PerfHandleDPCEventRaw lib er st =
     (case fst st of None \<Rightarrow> ok st
      | Some c \<Rightarrow>
          (case lib_Uint64At lib er 8 of None \<Rightarrow> ok st
           | Some routineAddress \<Rightarrow>
               (case lib_WmiTimeAt lib er 0 of None \<Rightarrow> ok st
                | Some initialTime \<Rightarrow>
                    (case ProcessDPCEvent (lib_Processor lib er) (lib_Timestamp lib er) initialTime
                            routineAddress (c, snd st) of
                       (c', im') \<Rightarrow> ok (Some c', im')))))"

definition PerfHandleContextSwitchRaw :: "'e etw_lib \<Rightarrow> 'e \<Rightarrow> perf_state \<Rightarrow> perf_state handled" where
  "PerfHandleContextSwitchRaw lib er st =
     (case fst st of None \<Rightarrow> ok st
      | Some c \<Rightarrow>
          (case ProcessCSwitchEvent (lib_Processor lib er) (lib_Timestamp lib er) (c, snd st) of
             (c', im') \<Rightarrow> ok (Some c', im')))"

definition HandleSampleProfileEventRaw :: "'e \<Rightarrow> perf_state \<Rightarrow> perf_state handled" where
  "HandleSampleProfileEventRaw er st = ok st"

section \<open>Counters across scrapes\<close>

lemma get_or_store [simp]: "get_or d k (cm_store j v m) = (if k = j then v else get_or d k m)"
  by (simp add: get_or_def)

lemma get_or_empty [simp]: "get_or d k cm_empty = d"
  by (simp add: get_or_def)

lemma get_or_add_at [simp]:
  "get_or 0 k (add_at j n m) = (if k = j then get_or 0 j m + n else get_or 0 k m)"
  by (simp add: add_at_def)

lemma cm_invar_add_at [simp, intro]: "cm_invar m \<Longrightarrow> cm_invar (add_at k n m)"
  by (simp add: add_at_def cm_invar_store)

lemma add_at_Nil: "add_at k n [] = [(k, 0 + n)]"
  by (simp add: add_at_def get_or_def cm_store_def cm_load_def)

lemma add_at_Cons:
  "add_at k n ((j, v) # m) = (if j = k then (j, v + n) # m else (j, v) # add_at k n m)"
  by (simp add: add_at_def get_or_def cm_store_def cm_load_def)

lemma add_at_twice:
  fixes n :: "'v::comm_monoid_add"
  shows "add_at k n (add_at k n' m) = add_at k (n' + n) m"
  by (induction m) (auto simp: add_at_Nil add_at_Cons ac_simps)

lemma add_at_commute:
  fixes n :: "'v::comm_monoid_add"
  shows "k \<noteq> j \<Longrightarrow> k \<in> fst ` set m \<Longrightarrow> add_at j n' (add_at k n m) = add_at k n (add_at j n' m)"
  by (induction m) (force simp: add_at_Cons)+

lemma keys_add_at [simp]: "fst ` set (add_at k n m) = insert k (fst ` set m)"
proof (induction m)
  case (Cons x m)
  then show ?case by (cases x) (simp add: add_at_Cons insert_commute)
qed (simp add: add_at_Nil)

lemma merge_counts_simps:
  "merge_counts m [] = m"
  "merge_counts m ((k, n) # xs) = merge_counts (add_at k n m) xs"
  by (simp_all add: merge_counts_def cm_entries_def)

lemma merge_counts_empty: "merge_counts m cm_empty = m"
  by (simp add: cm_empty_def merge_counts_simps)

lemma cm_invar_merge_counts [simp, intro]: "cm_invar m \<Longrightarrow> cm_invar (merge_counts m xs)"
  by (induction xs arbitrary: m) (auto simp: merge_counts_simps)

lemma merge_counts_add_at_left:
  fixes n :: "'v::comm_monoid_add"
  shows "k \<in> fst ` set m \<Longrightarrow> k \<notin> fst ` set xs \<Longrightarrow> merge_counts (add_at k n m) xs = add_at k n (merge_counts m xs)"
proof (induction xs arbitrary: m)
  case (Cons x xs)
  obtain j v where x: "x = (j, v)" by (cases x)
  then show ?case using Cons add_at_commute [of k j m v n] by (simp add: merge_counts_simps)
qed (simp add: merge_counts_simps)

lemma merge_counts_add_at:
  fixes n :: "'v::comm_monoid_add"
  shows "cm_invar b \<Longrightarrow> merge_counts m (add_at k n b) = add_at k n (merge_counts m b)"
proof (induction b arbitrary: m)
  case Nil
  show ?case by (simp add: add_at_Nil merge_counts_simps)
next
  case (Cons x xs)
  obtain j v where x: "x = (j, v)" by (cases x)
  show ?case
  proof (cases "j = k")
    case True
    then have "k \<notin> fst ` set xs" using Cons.prems x by (auto simp: cm_invar_def)
    then have "merge_counts (add_at k n (add_at k v m)) xs = add_at k n (merge_counts (add_at k v m) xs)"
      by (intro merge_counts_add_at_left) simp_all
    then show ?thesis using True x by (simp add: merge_counts_simps add_at_Cons add_at_twice)
  next
    case False
    have "cm_invar xs" using Cons.prems by (simp add: cm_invar_def)
    then show ?thesis using False x Cons.IH by (simp add: merge_counts_simps add_at_Cons)
  qed
qed

interpretation counts: double_buffer cm_invar cm_empty
  "\<lambda>k. add_at k (1 :: u64) :: ('k, u64) cmap \<Rightarrow> ('k, u64) cmap" merge_counts
  by unfold_locales (auto simp: merge_counts_add_at merge_counts_empty)

lemma get_or_fold_add_at:
  "get_or 0 k (fold (\<lambda>k. add_at k (1 :: u64)) ks m) = get_or 0 k m + of_nat (count_list ks k)"
  by (induction ks arbitrary: m) auto

section \<open>Runs of the collector\<close>

datatype perf_op =
    ISR u16 u16 go_time u64
  | DPC u16 go_time go_time u64
  | CSwitch u16 go_time
  | Scrape

fun perf_step :: "perf_op \<Rightarrow> perf_collector \<times> image_manager \<Rightarrow> perf_collector \<times> image_manager" where
  "perf_step (ISR cpu vector t a) (c, im) = (ProcessISREvent cpu vector t a c, im)"
| "perf_step (DPC cpu t t0 a) st = ProcessDPCEvent cpu t t0 a st"
| "perf_step (CSwitch cpu t) st = ProcessCSwitchEvent cpu t st"
| "perf_step Scrape (c, im) = (snd (perf_Collect im c), im)"

fun_cases perf_step_ISRE: "perf_step (ISR cpu vector t a) st = st'"
  and perf_step_ScrapeE: "perf_step Scrape st = st'"

definition isr_cpus :: "perf_op list \<Rightarrow> u16 list" where
  "isr_cpus ops = List.map_filter (\<lambda>e. case e of ISR cpu _ _ _ \<Rightarrow> Some cpu | _ \<Rightarrow> None) ops"

text \<open>What a recording routine leaves alone.\<close>

lemma record_frame [frame_simps]:
  "dpcQueuedCount (recordISRToDPCLatency l b) = dpcQueuedCount b"
  "dpcExecutedCount (recordISRToDPCLatency l b) = dpcExecutedCount b"
  "pendingISRs (recordISRToDPCLatency l b) = pendingISRs b"
  "lastDPCPerCPU (recordISRToDPCLatency l b) = lastDPCPerCPU b"
  "dpcQueuedCount (recordDPCDuration d l b) = dpcQueuedCount b"
  "dpcExecutedCount (recordDPCDuration d l b) = dpcExecutedCount b"
  "pendingISRs (recordDPCDuration d l b) = pendingISRs b"
  "lastDPCPerCPU (recordDPCDuration d l b) = lastDPCPerCPU b"
  by (simp_all add: recordISRToDPCLatency_def recordDPCDuration_def Let_def)

lemma correlateISR_frame [frame_simps]:
  "dpcQueuedCount (correlateISR cpu t b) = dpcQueuedCount b"
  "dpcExecutedCount (correlateISR cpu t b) = dpcExecutedCount b"
  "lastDPCPerCPU (correlateISR cpu t b) = lastDPCPerCPU b"
  by (simp_all add: correlateISR_def Let_def frame_simps split: prod.split option.split)

lemma finalize_queued:
  "dpcQueuedCount (fst (finalizeAndClearPendingDPC pd cpu t (b, im))) = dpcQueuedCount b"
  by (simp add: finalizeAndClearPendingDPC_def Let_def frame_simps split: prod.split option.split)

lemma finalize_pending:
  "lastDPCPerCPU (fst (finalizeAndClearPendingDPC pd cpu t (b, im))) =
     (if cm_load cpu (lastDPCPerCPU b) = None then lastDPCPerCPU b else cm_delete cpu (lastDPCPerCPU b))"
  by (simp add: finalizeAndClearPendingDPC_def Let_def frame_simps split: prod.split option.split)

lemma finalize_executed:
  "dpcExecutedCount (fst (finalizeAndClearPendingDPC pd cpu t (b, im))) =
     (if cm_load cpu (lastDPCPerCPU b) = None then dpcExecutedCount b else add_at cpu 1 (dpcExecutedCount b))"
  by (simp add: finalizeAndClearPendingDPC_def Let_def frame_simps split: prod.split option.split)

lemma ProcessISREvent_fields:
  "dpcQueuedCount (activeBuffer (ProcessISREvent cpu v t a c)) = add_at cpu 1 (dpcQueuedCount (activeBuffer c))"
  "dpcExecutedCount (activeBuffer (ProcessISREvent cpu v t a c)) = dpcExecutedCount (activeBuffer c)"
  "lastDPCPerCPU (activeBuffer (ProcessISREvent cpu v t a c)) = lastDPCPerCPU (activeBuffer c)"
  "totalDpcQueuedCount (ProcessISREvent cpu v t a c) = totalDpcQueuedCount c"
  "totalDpcExecutedCount (ProcessISREvent cpu v t a c) = totalDpcExecutedCount c"
  by (simp_all add: ProcessISREvent_def cleanupOldISRs_def Let_def)

lemma ProcessDPCEvent_queued:
  "dpcQueuedCount (activeBuffer (fst (ProcessDPCEvent cpu t t0 a st))) = dpcQueuedCount (activeBuffer (fst st))"
  "totalDpcQueuedCount (fst (ProcessDPCEvent cpu t t0 a st)) = totalDpcQueuedCount (fst st)"
  by (simp_all add: ProcessDPCEvent_def case_prod_unfold finalize_queued)

lemma ProcessCSwitchEvent_queued:
  "dpcQueuedCount (activeBuffer (fst (ProcessCSwitchEvent cpu t st))) = dpcQueuedCount (activeBuffer (fst st))"
  "totalDpcQueuedCount (fst (ProcessCSwitchEvent cpu t st)) = totalDpcQueuedCount (fst st)"
  by (simp_all add: ProcessCSwitchEvent_def case_prod_unfold finalize_queued)

lemma Collect_queued:
  "totalDpcQueuedCount (snd (perf_Collect im c)) =
     merge_counts (totalDpcQueuedCount c) (dpcQueuedCount (activeBuffer c))"
  "activeBuffer (snd (perf_Collect im c)) = newMetricsBuffer"
  by (simp_all add: perf_Collect_def merge_buffer_def Let_def)

text \<open>The queued counters see a run as recordings and scrapes of a double buffer.\<close>

definition queued_ops :: "perf_op list \<Rightarrow> u16 buffer_op list" where
  "queued_ops ops = List.map_filter
     (\<lambda>e. case e of ISR cpu _ _ _ \<Rightarrow> Some (Record cpu) | Scrape \<Rightarrow> Some Collect | _ \<Rightarrow> None) ops"

lemma queued_run:
  "(totalDpcQueuedCount (fst (fold perf_step ops st)), dpcQueuedCount (activeBuffer (fst (fold perf_step ops st)))) =
   fold counts.step_op (queued_ops ops) (totalDpcQueuedCount (fst st), dpcQueuedCount (activeBuffer (fst st)))"
proof (induction ops arbitrary: st)
  case (Cons e ops)
  obtain c im where st: "st = (c, im)" by (cases st)
  show ?case
    by (cases e) (simp_all add: Cons.IH queued_ops_def List.map_filter_simps st ProcessISREvent_fields
        ProcessDPCEvent_queued ProcessCSwitchEvent_queued Collect_queued newMetricsBuffer_def)
qed (simp add: queued_ops_def List.map_filter_simps)

lemma queued_events: "counts.events (queued_ops ops) = isr_cpus ops"
  by (induction ops) (auto simp: queued_ops_def isr_cpus_def List.map_filter_simps split: perf_op.split)

lemma queued_total:
  "totalDpcQueuedCount (fst (fold perf_step (ops @ [Scrape]) (NewPerfInfoCollector pd pc smi, im))) =
   fold (\<lambda>k. add_at k 1) (isr_cpus ops) cm_empty"
proof -
  let ?st = "(NewPerfInfoCollector pd pc smi, im)"
  have "(totalDpcQueuedCount (fst (fold perf_step (ops @ [Scrape]) ?st)),
      dpcQueuedCount (activeBuffer (fst (fold perf_step (ops @ [Scrape]) ?st)))) =
      fold counts.step_op (queued_ops ops @ [Collect]) (cm_empty, cm_empty)"
    by (subst queued_run)
      (simp add: queued_ops_def List.map_filter_def NewPerfInfoCollector_def newMetricsBuffer_def)
  then show ?thesis unfolding queued_events [symmetric] by (intro counts.collect_exact(1) [OF sym])
qed


text \<open>A deferred call that is pending when a scrape happens is never counted or timed: the
  scrape replaces the buffer that holds it, so the context switch that ends it finds nothing
  pending, and no later scrape adds it to the executed counters.\<close>

theorem pending_dpc_dropped_by_scrape:
  "let c1 = fst (ProcessDPCEvent cpu eventTime initialTime routine (c, im));
       c2 = snd (perf_Collect im c1);
       c3 = fst (ProcessCSwitchEvent cpu endTime (c2, im'))
   in cm_load cpu (lastDPCPerCPU (activeBuffer c1)) = Some \<lparr>PD_initialTime = initialTime, PD_routineAddress = routine\<rparr>
     \<and> totalDpcExecutedCount c2 = merge_counts (totalDpcExecutedCount c1) (dpcExecutedCount (activeBuffer c1))
     \<and> totalDpcExecutedCount (snd (perf_Collect im' c3)) = totalDpcExecutedCount c2
     \<and> totalIsrToDpcLatency c3 = totalIsrToDpcLatency c2"
proof -
  define c1 where "c1 = fst (ProcessDPCEvent cpu eventTime initialTime routine (c, im))"
  define c2 where "c2 = snd (perf_Collect im c1)"
  have new: "activeBuffer c2 = newMetricsBuffer" by (simp add: c2_def Collect_queued)
  then have "fst (ProcessCSwitchEvent cpu endTime (c2, im')) = c2"
    by (simp add: ProcessCSwitchEvent_def finalizeAndClearPendingDPC_def newMetricsBuffer_def)
  moreover have "totalDpcExecutedCount (snd (perf_Collect im' c2)) = totalDpcExecutedCount c2"
    using new by (simp add: perf_Collect_def merge_buffer_def Let_def newMetricsBuffer_def merge_counts_empty)
  moreover have "cm_load cpu (lastDPCPerCPU (activeBuffer c1)) =
      Some \<lparr>PD_initialTime = initialTime, PD_routineAddress = routine\<rparr>"
    by (simp add: c1_def ProcessDPCEvent_def split: prod.split)
  moreover have "totalDpcExecutedCount c2 = merge_counts (totalDpcExecutedCount c1) (dpcExecutedCount (activeBuffer c1))"
    by (simp add: c2_def perf_Collect_def merge_buffer_def Let_def)
  ultimately show ?thesis unfolding c1_def c2_def Let_def by simp
qed

section \<open>Correlation of deferred calls with interrupts\<close>

abbreviation isr_age :: "go_time \<Rightarrow> isr_event \<Rightarrow> duration" where
  "isr_age t isr \<equiv> time_Sub t (ISR_InitialTime isr)"

lemma closest_isr_cases:
  "closest_isr t i isrs d m = (d', m') \<Longrightarrow>
   (\<exists>k < length isrs. m' = Some (i + k, isrs ! k) \<and> d' = isr_age t (isrs ! k) \<and> 0 \<le> d' \<and> d' < d
      \<and> (\<forall>isr \<in> set isrs. 0 \<le> isr_age t isr \<longrightarrow> d' \<le> isr_age t isr))
   \<or> m' = m \<and> d' = d \<and> (\<forall>isr \<in> set isrs. 0 \<le> isr_age t isr \<longrightarrow> d \<le> isr_age t isr)"
proof (induction isrs arbitrary: i d m)
  case (Cons isr isrs)
  show ?case
  proof (cases "0 \<le> isr_age t isr \<and> isr_age t isr < d")
    case True
    then have "closest_isr t (Suc i) isrs (isr_age t isr) (Some (i, isr)) = (d', m')"
      using Cons.prems by (simp add: Let_def)
    from Cons.IH [OF this] show ?thesis
    proof (elim disjE exE conjE)
      fix k
      assume "k < length isrs" "m' = Some (Suc i + k, isrs ! k)" "d' = isr_age t (isrs ! k)" "0 \<le> d'"
        "d' < isr_age t isr" "\<forall>isr \<in> set isrs. 0 \<le> isr_age t isr \<longrightarrow> d' \<le> isr_age t isr"
      with True show ?thesis by (intro disjI1 exI [of _ "Suc k"]) simp
    qed (use True in \<open>intro disjI1 exI [of _ 0], simp\<close>)
  next
    case False
    then have "closest_isr t (Suc i) isrs d m = (d', m')"
      using Cons.prems by (simp add: Let_def split: if_splits)
    from Cons.IH [OF this] show ?thesis
    proof (elim disjE exE conjE)
      fix k
      assume "k < length isrs" "m' = Some (Suc i + k, isrs ! k)" "d' = isr_age t (isrs ! k)" "0 \<le> d'"
        "d' < d" "\<forall>isr \<in> set isrs. 0 \<le> isr_age t isr \<longrightarrow> d' \<le> isr_age t isr"
      with False show ?thesis by (intro disjI1 exI [of _ "Suc k"]) auto
    qed (use False in auto)
  qed
qed simp

lemma mset_swap_remove:
  assumes "i < length xs"
  shows "add_mset (xs ! i) (mset (swap_remove i xs)) = mset xs"
proof (cases xs rule: rev_cases)
  case (snoc ys z)
  show ?thesis
  proof (cases "i = length ys")
    case False
    then have i: "i < length ys" using assms snoc by simp
    then have "ys ! i \<in># mset ys" by simp
    then show ?thesis using snoc i by (simp add: swap_remove_def list_update_append nth_append mset_update)
  qed (simp add: snoc swap_remove_def)
qed (use assms in simp)

text \<open>C37. A finished deferred call takes one latency sample from the interrupts that are waiting
  on its CPU: the smallest age among those that are not later than the call and less than an
  hour old. Exactly one waiting interrupt with that age is used up, those of other CPUs are
  left alone, and when none qualifies nothing changes.\<close>

theorem closest_isr_is_correlated:
  "let isrs = get_or [] cpu (pendingISRs b);
       ages = filter (\<lambda>d. 0 \<le> d \<and> d < hour) (map (isr_age t) isrs);
       b' = correlateISR cpu t b
   in if ages = [] then b' = b
      else isrToDpcLatencyCount b' = isrToDpcLatencyCount b + 1
        \<and> isrToDpcLatencySum b' = isrToDpcLatencySum b + Microseconds (Min (set ages))
        \<and> (\<exists>isr. isr_age t isr = Min (set ages)
             \<and> add_mset isr (mset (get_or [] cpu (pendingISRs b'))) = mset isrs)
        \<and> (\<lambda>j. cm_load j (pendingISRs b'))(cpu := None) = (\<lambda>j. cm_load j (pendingISRs b))(cpu := None)"
proof -
  define isrs where "isrs = get_or [] cpu (pendingISRs b)"
  define ages where "ages = filter (\<lambda>d. 0 \<le> d \<and> d < hour) (map (isr_age t) isrs)"
  obtain d m where dm: "closest_isr t 0 isrs hour None = (d, m)" by force
  show ?thesis
  proof (cases "ages = []")
    case True
    then have "\<forall>isr \<in> set isrs. \<not> (0 \<le> isr_age t isr \<and> isr_age t isr < hour)"
      by (simp add: ages_def filter_empty_conv)
    then have "m = None" using closest_isr_cases [OF dm] by (auto dest: nth_mem)
    then have "correlateISR cpu t b = b" using dm by (simp add: correlateISR_def Let_def isrs_def [symmetric])
    then show ?thesis using True unfolding Let_def isrs_def [symmetric] ages_def [symmetric] by simp
  next
    case False
    then obtain isr where isr: "isr \<in> set isrs" "0 \<le> isr_age t isr" "isr_age t isr < hour"
      by (auto simp: ages_def filter_empty_conv)
    then obtain k where k: "k < length isrs" "m = Some (k, isrs ! k)" "d = isr_age t (isrs ! k)" "0 \<le> d"
      "d < hour" "\<forall>isr \<in> set isrs. 0 \<le> isr_age t isr \<longrightarrow> d \<le> isr_age t isr"
      using closest_isr_cases [OF dm] by auto
    have "Min (set ages) = d"
      by (rule Min_eqI) (use k in \<open>auto simp: ages_def\<close>)
    moreover have "correlateISR cpu t b = (recordISRToDPCLatency (Microseconds d) b)
        \<lparr>pendingISRs := cm_store cpu (swap_remove k isrs) (pendingISRs b)\<rparr>"
      using dm k(2) by (simp add: correlateISR_def Let_def isrs_def [symmetric] frame_simps)
    ultimately show ?thesis using False k mset_swap_remove [OF k(1)]
      unfolding Let_def isrs_def [symmetric] ages_def [symmetric]
      by (auto simp: recordISRToDPCLatency_def)
  qed
qed


section \<open>Pruning of waiting interrupts\<close>

lemma fold_cleanup_isrs:
  "distinct (map fst xs) \<Longrightarrow>
   cm_load cpu (fold (\<lambda>(cpu, isrs) m. case cleanup_list now isrs of
       [] \<Rightarrow> cm_delete cpu m | surviving \<Rightarrow> cm_store cpu surviving m) xs m) =
   (case map_of xs cpu of None \<Rightarrow> cm_load cpu m
    | Some isrs \<Rightarrow> if cleanup_list now isrs = [] then None else Some (cleanup_list now isrs))"
proof (induction xs arbitrary: m)
  case (Cons x xs)
  obtain j isrs where x: "x = (j, isrs)" by (cases x)
  have "map_of xs j = None" using Cons.prems x by (simp add: map_of_eq_None_iff)
  then show ?case using Cons x by (cases "cleanup_list now isrs") (auto split: option.split)
qed simp

text \<open>Pruning keeps the interrupts of at most ten milliseconds, in order, on every CPU.\<close>

lemma cleanupOldISRs_exact:
  assumes "cm_invar (pendingISRs b)"
  shows "get_or [] cpu (pendingISRs (cleanupOldISRs now b)) =
      filter (\<lambda>isr. isr_age now isr \<le> 10 * millisecond) (get_or [] cpu (pendingISRs b))"
    and "cm_load cpu (pendingISRs (cleanupOldISRs now b)) \<noteq> Some []"
proof -
  have "cm_load cpu (pendingISRs (cleanupOldISRs now b)) =
      (case cm_load cpu (pendingISRs b) of None \<Rightarrow> None
       | Some isrs \<Rightarrow> if cleanup_list now isrs = [] then None else Some (cleanup_list now isrs))"
    using fold_cleanup_isrs [of "pendingISRs b" cpu now "pendingISRs b"] assms
    by (simp add: cleanupOldISRs_def cm_entries_def cm_invar_def cm_load_def split: option.split)
  then show "get_or [] cpu (pendingISRs (cleanupOldISRs now b)) =
      filter (\<lambda>isr. isr_age now isr \<le> 10 * millisecond) (get_or [] cpu (pendingISRs b))"
    and "cm_load cpu (pendingISRs (cleanupOldISRs now b)) \<noteq> Some []"
    by (simp_all add: get_or_def cleanup_list_def split: option.split)
qed

definition isr_run :: "(u16 \<times> u16 \<times> go_time \<times> u64) list \<Rightarrow> perf_collector \<Rightarrow> perf_collector" where
  "isr_run evs c = fold (\<lambda>(cpu, vector, t, a). ProcessISREvent cpu vector t a) evs c"

definition isr_of :: "u16 \<times> u16 \<times> go_time \<times> u64 \<Rightarrow> isr_event" where
  "isr_of = (\<lambda>(cpu, vector, t, a).
     \<lparr>ISR_InitialTime = t, ISR_RoutineAddress = a, ISR_CPU = cpu, ISR_Vector = vector\<rparr>)"

lemma isr_run_snoc: "isr_run (evs @ [(cpu, v, t, a)]) c = ProcessISREvent cpu v t a (isr_run evs c)"
  by (simp add: isr_run_def)

lemma cm_keys_store: "fst ` set (cm_store k v m) = insert k (fst ` set m)"
  by (simp add: cm_store_def dom_update)

lemma isr_run_pending:
  fixes pd pc smi :: bool
  assumes "card (fst ` set evs) < 100"
  defines "p \<equiv> pendingISRs (activeBuffer (isr_run evs (NewPerfInfoCollector pd pc smi)))"
  shows "cm_invar p \<and> fst ` set p = fst ` set evs
    \<and> (\<forall>cpu. get_or [] cpu p = map isr_of (filter (\<lambda>e. fst e = cpu) evs))"
  using assms(1) unfolding p_def
proof (induction evs rule: rev_induct)
  case Nil
  show ?case
    by (simp add: isr_run_def NewPerfInfoCollector_def newMetricsBuffer_def) (simp add: cm_empty_def)
next
  case (snoc e evs)
  obtain cpu v t a where e: "e = (cpu, v, t, a)" by (cases e)
  let ?c = "isr_run evs (NewPerfInfoCollector pd pc smi)"
  let ?q = "pendingISRs (activeBuffer ?c)"
  have "card (fst ` set evs) \<le> card (fst ` set (evs @ [e]))" by (rule card_mono) auto
  then have IH: "cm_invar ?q" "fst ` set ?q = fst ` set evs"
    "\<And>cpu. get_or [] cpu ?q = map isr_of (filter (\<lambda>e. fst e = cpu) evs)"
    using snoc by auto
  let ?p = "cm_store cpu (get_or [] cpu ?q @ [isr_of e]) ?q"
  have keys: "fst ` set ?p = fst ` set (evs @ [e])" "cm_invar ?p"
    using IH(1,2) e by (simp_all add: cm_keys_store cm_invar_store)
  then have "length ?p = card (fst ` set (evs @ [e]))"
    by (metis cm_invar_def distinct_card length_map list.set_map)
  then have "cm_count ?p < 100" "0 < cm_count ?p" using snoc.prems by (simp_all add: card_gt_0_iff)
  then have "pendingISRs (activeBuffer (isr_run (evs @ [e]) (NewPerfInfoCollector pd pc smi))) = ?p"
    unfolding e isr_run_snoc by (simp add: ProcessISREvent_def Let_def isr_of_def)
  then show ?case using keys IH(3) e by simp
qed

text \<open>The periodic pruning of waiting interrupts counts CPUs, not interrupts: while events
  come from fewer than 100 CPUs it never runs, so every interrupt stays in the buffer of its
  CPU until a deferred call takes it or a scrape replaces the buffer, however old it is.\<close>

theorem isr_pruning_never_runs:
  assumes "card (fst ` set evs) < 100"
  shows "get_or [] cpu (pendingISRs (activeBuffer (isr_run evs (NewPerfInfoCollector pd pc smi)))) =
    map isr_of (filter (\<lambda>e. fst e = cpu) evs)"
  using isr_run_pending [OF assms] by blast

theorem isr_pruning_never_runs_witness:
  "length (get_or [] 3 (pendingISRs (activeBuffer
     (isr_run [(3, 1, 0, 7), (3, 1, 3600 * second, 7)] (NewPerfInfoCollector True True True))))) = 2"
  using isr_pruning_never_runs [of "[(3, 1, 0, 7), (3, 1, 3600 * second, 7)]" 3 True True True] by simp

section \<open>The handlers return\<close>

lemma finalize_images:
  assumes "image_inv im"
  shows "image_inv (snd (finalizeAndClearPendingDPC pd cpu t (b, im)))"
proof -
  have "image_inv (snd (resolveDriverName a im))" for a
    using GetImageForAddress_inv [OF assms, of a] by (auto simp: resolveDriverName_def split: prod.split option.split)
  then show ?thesis using assms
    by (simp add: finalizeAndClearPendingDPC_def Let_def case_prod_unfold split: option.split)
qed

lemma perf_process_images:
  "image_inv (snd st) \<Longrightarrow> image_inv (snd (ProcessDPCEvent cpu t t0 a st))"
  "image_inv (snd st) \<Longrightarrow> image_inv (snd (ProcessCSwitchEvent cpu t st))"
  by (cases st; simp add: ProcessDPCEvent_def ProcessCSwitchEvent_def case_prod_unfold finalize_images)+

text \<open>A handler always returns, with or without a collector, and keeps the image cache sound.\<close>

lemma perf_handlers_safe:
  assumes "image_inv (snd st)"
  shows "handled_ok (PerfHandleISREventRaw lib er st) (\<lambda>st. image_inv (snd st))"
    and "handled_ok (PerfHandleDPCEventRaw lib er st) (\<lambda>st. image_inv (snd st))"
    and "handled_ok (PerfHandleContextSwitchRaw lib er st) (\<lambda>st. image_inv (snd st))"
    and "handled_ok (HandleSampleProfileEventRaw er st) (\<lambda>st. image_inv (snd st))"
proof -
  have p: "image_inv (snd (ProcessDPCEvent cpu t t0 a (c, snd st)))"
    "image_inv (snd (ProcessCSwitchEvent cpu t (c, snd st)))" for cpu t t0 a c
    using assms by (simp_all add: perf_process_images)
  show "handled_ok (PerfHandleISREventRaw lib er st) (\<lambda>st. image_inv (snd st))"
    using assms by (auto simp: PerfHandleISREventRaw_def split: option.split intro!: handled_ok_ok handled_ok_bind)
  show "handled_ok (PerfHandleDPCEventRaw lib er st) (\<lambda>st. image_inv (snd st))"
    using assms p by (auto simp: PerfHandleDPCEventRaw_def case_prod_unfold split: option.split intro!: handled_ok_ok)
  show "handled_ok (PerfHandleContextSwitchRaw lib er st) (\<lambda>st. image_inv (snd st))"
    using assms p by (auto simp: PerfHandleContextSwitchRaw_def case_prod_unfold split: option.split intro!: handled_ok_ok)
  show "handled_ok (HandleSampleProfileEventRaw er st) (\<lambda>st. image_inv (snd st))"
    using assms by (simp add: HandleSampleProfileEventRaw_def handled_ok_ok)
qed


text \<open>The labels of CPUs are printed once and then cached; the cache only ever holds what would
  be printed, so the metrics above carry the printed number.\<close>

definition formatCPU :: "u16 \<Rightarrow> (u16, string) cmap \<Rightarrow> string \<times> (u16, string) cmap" where
  "formatCPU cpu cpuStringCache =
     (case cm_load cpu cpuStringCache of
        Some str \<Rightarrow> (str, cpuStringCache)
      | None \<Rightarrow> let str = FormatUint10 (unat cpu) in (str, cm_store cpu str cpuStringCache))"

fun formatCPUs :: "u16 list \<Rightarrow> (u16, string) cmap \<Rightarrow> string list \<times> (u16, string) cmap" where
  "formatCPUs [] cache = ([], cache)"
| "formatCPUs (cpu # cpus) cache =
     (case formatCPU cpu cache of (str, cache1) \<Rightarrow> apfst ((#) str) (formatCPUs cpus cache1))"

definition cpu_cache_ok :: "(u16, string) cmap \<Rightarrow> bool" where
  "cpu_cache_ok cache \<longleftrightarrow> (\<forall>cpu str. cm_load cpu cache = Some str \<longrightarrow> str = FormatUint10 (unat cpu))"

lemma formatCPU_exact:
  "cpu_cache_ok cache \<Longrightarrow> fst (formatCPU cpu cache) = FormatUint10 (unat cpu) \<and> cpu_cache_ok (snd (formatCPU cpu cache))"
  by (auto simp: formatCPU_def cpu_cache_ok_def Let_def split: option.split)

theorem formatCPU_transparent:
  "fst (formatCPUs cpus cm_empty) = map (\<lambda>cpu. FormatUint10 (unat cpu)) cpus"
proof -
  have "cpu_cache_ok cache \<Longrightarrow> fst (formatCPUs cpus cache) = map (\<lambda>cpu. FormatUint10 (unat cpu)) cpus" for cache
    by (induction cpus arbitrary: cache) (auto simp: case_prod_unfold formatCPU_exact)
  then show ?thesis by (simp add: cpu_cache_ok_def)
qed

end
