(* ===== verification/Exporter.thy ===== *)
theory Exporter
  imports Thread_Collector Perf_Collector
begin

text \<open>
  The exporter at run time: the kernel state with all handlers and collectors attached, driven
  by ETW events, scrapes of the metrics endpoint (\<open>etw_exporter.go\<close>) and ticks of the
  watchdog. Each step runs to completion before the next one; interleavings inside a step are
  the subject of \<open>Kernel_Races\<close>.

  A scrape lets the collectors send one after the other; in the program Prometheus calls them
  in goroutines of their own, but each only reads the kernel state and writes its own.
\<close>

section \<open>The world\<close>

record world =
  W_k :: ksm
  W_disk :: "disk_collector option"
  W_net :: "net_collector option"
  W_mem :: "mem_collector option"
  W_reg :: "reg_collector option"
  W_thread :: thread_handler
  W_sys :: sysconf_collector
  W_perf :: "perf_collector option"
  W_process :: bool

datatype disk_event = Disk_Read | Disk_Write | Disk_Flush | Disk_Read_Manifest | Disk_Write_Manifest
  | Disk_Flush_Manifest

datatype thread_event = T_Switch | T_Ready | T_Start | T_End

datatype perf_event = P_ISR | P_DPC | P_CSwitch | P_Sample

datatype sys_event = Sys_PhyDisk | Sys_LogDisk | Sys_Services

datatype 'e action =
    On_Kernel kernel_event "nat option" 'e
  | On_Disk disk_event 'e
  | On_Net bool net_event 'e
  | On_Memory 'e
  | On_Registry bool 'e
  | On_Thread thread_event 'e
  | On_Sys sys_event 'e
  | On_Perf perf_event 'e
  | Lookup_Image u64
  | Scrape_Metrics "(u32 \<times> string) list option" "u32 \<Rightarrow> u32 \<Rightarrow> string option" go_time
  | Watchdog go_time

fun disk_handler :: "disk_event \<Rightarrow> 'e etw_lib \<Rightarrow> 'e \<Rightarrow> disk_collector option \<times> ksm \<Rightarrow>
    (disk_collector option \<times> ksm) handled" where
  "disk_handler Disk_Read = HandleDiskReadMofRaw"
| "disk_handler Disk_Write = HandleDiskWriteMofRaw"
| "disk_handler Disk_Flush = HandleDiskFlushMofRaw"
| "disk_handler Disk_Read_Manifest = HandleDiskRead"
| "disk_handler Disk_Write_Manifest = HandleDiskWrite"
| "disk_handler Disk_Flush_Manifest = HandleDiskFlush"

fun thread_handler_of :: "thread_event \<Rightarrow> 'e etw_lib \<Rightarrow> 'e \<Rightarrow> thread_state \<Rightarrow> thread_state handled" where
  "thread_handler_of T_Switch = HandleContextSwitchRaw"
| "thread_handler_of T_Ready = HandleReadyThreadRaw"
| "thread_handler_of T_Start = HandleThreadStartRaw"
| "thread_handler_of T_End = HandleThreadEndRaw"

fun sys_handler :: "sys_event \<Rightarrow> 'e etw_lib \<Rightarrow> 'e \<Rightarrow> sysconf_state \<Rightarrow> sysconf_state handled" where
  "sys_handler Sys_PhyDisk = HandleSystemConfigPhyDisk"
| "sys_handler Sys_LogDisk = HandleSystemConfigLogDisk"
| "sys_handler Sys_Services = HandleSystemConfigServices"

fun perf_handler :: "perf_event \<Rightarrow> 'e etw_lib \<Rightarrow> 'e \<Rightarrow> perf_state \<Rightarrow> perf_state handled" where
  "perf_handler P_ISR = PerfHandleISREventRaw"
| "perf_handler P_DPC = PerfHandleDPCEventRaw"
| "perf_handler P_CSwitch = PerfHandleContextSwitchRaw"
| "perf_handler P_Sample = (\<lambda>_. HandleSampleProfileEventRaw)"

text \<open>One scrape: aggregate, let every collector send its metrics, clean up.\<close>

definition collect_thread :: "world \<Rightarrow> metric list \<times> world" where
  "collect_thread w =
     (case th_collector (W_thread w) of
        None \<Rightarrow> ([], w)
      | Some c \<Rightarrow> (case thread_Collect c (W_k w) of (ms, c') \<Rightarrow>
          (ms, w\<lparr>W_thread := (W_thread w)\<lparr>th_collector := Some c'\<rparr>\<rparr>)))"

definition collect_perf :: "world \<Rightarrow> metric list \<times> world" where
  "collect_perf w =
     (case W_perf w of
        None \<Rightarrow> ([], w)
      | Some c \<Rightarrow> (case perf_Collect (Images (W_k w)) c of (ms, c') \<Rightarrow> (ms, w\<lparr>W_perf := Some c'\<rparr>)))"

definition collect_all :: "world \<Rightarrow> metric list \<times> world" where
  "collect_all w =
     (case collect_thread w of (thread_ms, w1) \<Rightarrow>
       (case collect_perf w1 of (perf_ms, w2) \<Rightarrow>
         ((case W_disk w of Some c \<Rightarrow> disk_Collect c (W_k w) | None \<Rightarrow> [])
          @ (case W_net w of Some c \<Rightarrow> network_Collect c (W_k w) | None \<Rightarrow> [])
          @ (case W_mem w of Some c \<Rightarrow> memory_Collect c (W_k w) | None \<Rightarrow> [])
          @ (case W_reg w of Some c \<Rightarrow> registry_Collect c (W_k w) | None \<Rightarrow> [])
          @ thread_ms @ perf_ms
          @ (if registered (W_sys w) then sysconf_Collect (W_sys w) else [])
          @ (if W_process w then process_Collect (W_k w) else []), w2)))"

definition metricsHandler :: "(u32 \<times> string) list option \<Rightarrow> (u32 \<Rightarrow> u32 \<Rightarrow> string option) \<Rightarrow> go_time \<Rightarrow>
    world \<Rightarrow> (metric list \<times> world) option" where
  "metricsHandler snapshot query now w =
     (case AggregateMetrics snapshot query (W_k w) of
        None \<Rightarrow> None
      | Some k1 \<Rightarrow>
          (case collect_all (w\<lparr>W_k := k1\<rparr>) of (ms, w1) \<Rightarrow>
             map_option (\<lambda>k2. (ms, w1\<lparr>W_k := k2\<rparr>)) (PostScrapeCleanup now (W_k w1))))"

definition via :: "('s handled) \<Rightarrow> ('s \<Rightarrow> world) \<Rightarrow> world option" where
  "via r f = map_option (\<lambda>(s, _). f s) r"

fun act :: "'e etw_lib \<Rightarrow> u64 \<Rightarrow> 'e action \<Rightarrow> world \<Rightarrow> world option" where
  "act lib boot (On_Kernel ev choice e) w = via (kernel_handler boot choice ev lib e (W_k w)) (\<lambda>k. w\<lparr>W_k := k\<rparr>)"
| "act lib boot (On_Disk ev e) w =
     via (disk_handler ev lib e (W_disk w, W_k w)) (\<lambda>(c, k). w\<lparr>W_disk := c, W_k := k\<rparr>)"
| "act lib boot (On_Net manifest ev e) w =
     via (net_handler manifest ev lib e (W_net w, W_k w)) (\<lambda>(c, k). w\<lparr>W_net := c, W_k := k\<rparr>)"
| "act lib boot (On_Memory e) w =
     via (HandleMofHardPageFaultRawEvent lib e (W_mem w, W_k w)) (\<lambda>(c, k). w\<lparr>W_mem := c, W_k := k\<rparr>)"
| "act lib boot (On_Registry raw e) w =
     via ((if raw then HandleRegistryEventRaw else HandleRegistryEvent) lib e (W_reg w, W_k w))
       (\<lambda>(c, k). w\<lparr>W_reg := c, W_k := k\<rparr>)"
| "act lib boot (On_Thread ev e) w =
     via (thread_handler_of ev lib e (W_thread w, W_k w)) (\<lambda>(h, k). w\<lparr>W_thread := h, W_k := k\<rparr>)"
| "act lib boot (On_Sys ev e) w =
     via (sys_handler ev lib e (W_sys w, W_k w)) (\<lambda>(c, k). w\<lparr>W_sys := c, W_k := k\<rparr>)"
| "act lib boot (On_Perf ev e) w =
     via (perf_handler ev lib e (W_perf w, Images (W_k w)))
       (\<lambda>(c, im). w\<lparr>W_perf := c, W_k := (W_k w)\<lparr>Images := im\<rparr>\<rparr>)"
| "act lib boot (Lookup_Image a) w =
     Some (w\<lparr>W_k := (W_k w)\<lparr>Images := snd (GetImageForAddress a (Images (W_k w)))\<rparr>\<rparr>)"
| "act lib boot (Scrape_Metrics snapshot query now) w = map_option snd (metricsHandler snapshot query now w)"
| "act lib boot (Watchdog now) w = map_option (\<lambda>k. w\<lparr>W_k := k\<rparr>) (watchdog_tick now (W_k w))"

text \<open>The world of an exporter on \<open>n\<close> CPUs with every collector enabled.\<close>

definition start_world :: "nat \<Rightarrow> network_config \<Rightarrow> bool \<Rightarrow> bool \<Rightarrow> go_time \<Rightarrow> world" where
  "start_world n net_cfg mem_pp reg_pp now = \<lparr>W_k = GetGlobalStateManager now,
     W_disk = Some NewDiskIOCustomCollector, W_net = Some (NewNetworkCollector net_cfg),
     W_mem = Some (NewMemoryCollector mem_pp), W_reg = Some (NewRegistryCollector reg_pp),
     W_thread = (NewThreadHandler n)\<lparr>th_collector := Some (NewThreadCSCollector n)\<rparr>,
     W_sys = NewSystemConfigCollector, W_perf = Some (NewPerfInfoCollector True True False),
     W_process = True\<rparr>"

text \<open>The runs: any action that returns leads to the next state.\<close>

inductive reaches :: "'e etw_lib \<Rightarrow> u64 \<Rightarrow> world \<Rightarrow> 'e action list \<Rightarrow> world \<Rightarrow> bool"
  for lib boot where
  start: "reaches lib boot w [] w"
| step: "reaches lib boot w as v \<Longrightarrow> act lib boot a v = Some u \<Longrightarrow> reaches lib boot w (as @ [a]) u"

inductive_cases reaches_NilE [elim!]: "reaches lib boot w [] v"
inductive_simps reaches_simps: "reaches lib boot w as v"

definition world_inv :: "nat \<Rightarrow> world \<Rightarrow> bool" where
  "world_inv n w \<longleftrightarrow> disk_state_ok (W_disk w, W_k w) \<and> net_state_ok (W_net w, W_k w)
     \<and> W_mem w \<noteq> None \<and> reg_state_ok (W_reg w, W_k w) \<and> thread_state_ok n (W_thread w, W_k w)"

lemma world_inv_ksm: "world_inv n w \<Longrightarrow> ksm_inv (W_k w)"
  by (simp add: world_inv_def disk_state_ok_def)

lemma world_inv_W_k [simp]: "world_inv n w \<Longrightarrow> ksm_inv k \<Longrightarrow> world_inv n (w\<lparr>W_k := k\<rparr>)"
  by (simp add: world_inv_def disk_state_ok_def net_state_ok_def reg_state_ok_def thread_state_ok_def)

lemma world_inv_perf: "world_inv n w \<Longrightarrow> ksm_inv k \<Longrightarrow> world_inv n (w\<lparr>W_perf := p, W_k := k\<rparr>)"
  by (simp add: world_inv_def disk_state_ok_def net_state_ok_def reg_state_ok_def thread_state_ok_def)

lemma world_inv_start: "world_inv n (start_world n net_cfg mem_pp reg_pp now)"
  using collector_ok_new [of n]
  by (simp add: world_inv_def start_world_def disk_state_ok_def net_state_ok_def reg_state_ok_def
      thread_state_ok_def NewNetworkCollector_def NewRegistryCollector_def NewThreadHandler_def)

text \<open>An action whose event comes from a CPU the handler knows.\<close>

fun cpu_in_range :: "nat \<Rightarrow> 'e etw_lib \<Rightarrow> 'e action \<Rightarrow> bool" where
  "cpu_in_range n lib (On_Thread T_Switch e) \<longleftrightarrow> unat (lib_Processor lib e) < n"
| "cpu_in_range n lib _ \<longleftrightarrow> True"

lemma via_ok: "handled_ok r P \<Longrightarrow> (\<And>s. P s \<Longrightarrow> Q (f s)) \<Longrightarrow> \<exists>w. via r f = Some w \<and> Q w"
  by (auto simp: handled_ok_def via_def)

lemma PostScrape_inv: "ksm_inv s \<Longrightarrow> \<exists>t. PostScrapeCleanup now s = Some t \<and> ksm_inv t"
  using PostScrapeCleanup_spec by blast

lemma watchdog_inv: "ksm_inv s \<Longrightarrow> \<exists>t. watchdog_tick now s = Some t \<and> ksm_inv t"
  by (simp add: watchdog_tick_def PostScrape_inv)

lemma collect_all_frame:
  assumes "world_inv n w"
  shows "world_inv n (snd (collect_all w))" and "W_k (snd (collect_all w)) = W_k w"
proof -
  have "collector_ok n (collect_intervals c)" if c: "collector_ok n c" for c
  proof -
    have "wf_stats (merge_stats (cumulativeIntervals c ! i) (contextSwitchIntervals c ! i))" if "i < n" for i
      using c that by (intro interval_buffer.wf_merge) (simp_all add: collector_ok_def)
    then show ?thesis using c by (simp add: collect_intervals_def collector_ok_def)
  qed
  then have step: "collector_ok n c'" if "thread_Collect c k = (ms, c')" "collector_ok n c" for c c' k ms
    using that by (auto simp: thread_Collect_def Let_def)
  have thread: "world_inv n (snd (collect_thread w))" "W_k (snd (collect_thread w)) = W_k w"
  proof -
    show "world_inv n (snd (collect_thread w))"
    proof (cases "th_collector (W_thread w)")
      case (Some c)
      obtain ms c' where c': "thread_Collect c (W_k w) = (ms, c')" by force
      have "collector_ok n c'" using step [OF c'] assms Some by (simp add: world_inv_def thread_state_ok_def)
      then show ?thesis using assms Some c' by (simp add: collect_thread_def world_inv_def thread_state_ok_def)
    qed (use assms in \<open>simp add: collect_thread_def\<close>)
    show "W_k (snd (collect_thread w)) = W_k w"
      by (simp add: collect_thread_def split: option.split prod.split)
  qed
  have "world_inv n (snd (collect_perf v)) \<and> W_k (snd (collect_perf v)) = W_k v" if "world_inv n v" for v
    using that by (simp add: collect_perf_def world_inv_def split: option.split prod.split)
  from this [OF thread(1)] show "world_inv n (snd (collect_all w))" and "W_k (snd (collect_all w)) = W_k w"
    using thread(2) by (simp_all add: collect_all_def case_prod_unfold)
qed

lemma metricsHandler_inv:
  assumes "world_inv n w"
  shows "\<exists>ms w'. metricsHandler snapshot query now w = Some (ms, w') \<and> world_inv n w'"
proof -
  obtain k1 where k1: "AggregateMetrics snapshot query (W_k w) = Some k1" "ksm_inv k1"
    using AggregateMetrics_inv [OF world_inv_ksm [OF assms]] by blast
  obtain ms w1 where w1: "collect_all (w\<lparr>W_k := k1\<rparr>) = (ms, w1)" by force
  have "world_inv n w1" "W_k w1 = k1"
    using collect_all_frame [OF world_inv_W_k [OF assms k1(2)]] w1 by simp_all
  then show ?thesis using PostScrape_inv [OF k1(2), of now] k1(1) w1
    by (auto simp: metricsHandler_def)
qed

lemma sys_handler_ok:
  "ksm_inv (snd st) \<Longrightarrow> handled_ok (sys_handler ev lib e st) (\<lambda>st. ksm_inv (snd st))"
  by (cases ev)
    (auto simp: HandleSystemConfigPhyDisk_def HandleSystemConfigLogDisk_def HandleSystemConfigServices_def Let_def
      intro!: handled_ok_bind handled_ok_ok RegisterServiceTag_inv_all)

lemma memory_ok:
  "ksm_inv (snd st) \<Longrightarrow> fst st \<noteq> None \<Longrightarrow>
   handled_ok (HandleMofHardPageFaultRawEvent lib e st) (\<lambda>st. fst st \<noteq> None \<and> ksm_inv (snd st))"
  using HandleMofHardPageFault_effect [of "snd st" lib e] by (cases st) (fastforce simp: handled_ok_def)

lemma act_inv:
  assumes "world_inv n w" and "cpu_in_range n lib a"
  shows "\<exists>w'. act lib boot a w = Some w' \<and> world_inv n w'"
proof -
  have W: "disk_state_ok (W_disk w, W_k w)" "net_state_ok (W_net w, W_k w)" "W_mem w \<noteq> None"
    "reg_state_ok (W_reg w, W_k w)" "thread_state_ok n (W_thread w, W_k w)" "ksm_inv (W_k w)"
    using assms(1) world_inv_ksm by (simp_all add: world_inv_def)
  note parts = world_inv_def disk_state_ok_def net_state_ok_def reg_state_ok_def thread_state_ok_def
  show ?thesis
  proof (cases a)
    case (On_Kernel ev choice e)
    show ?thesis unfolding On_Kernel act.simps
      by (rule via_ok [OF kernel_handlers_safe [OF W(6)]]) (simp add: assms(1))
  next
    case (On_Disk ev e)
    have "handled_ok (disk_handler ev lib e (W_disk w, W_k w)) disk_state_ok"
      using disk_handlers_safe [OF W(1)]
      by (cases ev) (simp_all add: HandleDiskReadMofRaw_def HandleDiskWriteMofRaw_def HandleDiskFlushMofRaw_def
          HandleDiskRead_def HandleDiskWrite_def HandleDiskFlush_def)
    then show ?thesis unfolding On_Disk act.simps
      by (rule via_ok) (use W in \<open>auto simp: parts\<close>)
  next
    case (On_Net manifest ev e)
    show ?thesis unfolding On_Net act.simps
      by (rule via_ok [OF network_handlers_safe [OF W(2)]]) (use W in \<open>auto simp: parts\<close>)
  next
    case (On_Memory e)
    show ?thesis unfolding On_Memory act.simps
      by (rule via_ok [OF memory_ok]) (use W in \<open>auto simp: parts\<close>)
  next
    case (On_Registry raw e)
    have "handled_ok ((if raw then HandleRegistryEventRaw else HandleRegistryEvent) lib e (W_reg w, W_k w)) reg_state_ok"
      by (simp add: HandleRegistryEventRaw_def HandleRegistryEvent_def registry_event_safe [OF W(4)])
    then show ?thesis unfolding On_Registry act.simps
      by (rule via_ok) (use W in \<open>auto simp: parts\<close>)
  next
    case (On_Thread ev e)
    have "handled_ok (thread_handler_of ev lib e (W_thread w, W_k w)) (thread_state_ok n)"
      using thread_lifecycle_safe [OF W(5)] HandleContextSwitchRaw_in_range [OF W(5)] assms(2) On_Thread
      by (cases ev) simp_all
    then show ?thesis unfolding On_Thread act.simps
      by (rule via_ok) (use W in \<open>auto simp: parts\<close>)
  next
    case (On_Sys ev e)
    show ?thesis unfolding On_Sys act.simps
      by (rule via_ok [OF sys_handler_ok]) (use W in \<open>auto simp: parts\<close>)
  next
    case (On_Perf ev e)
    have "handled_ok (perf_handler ev lib e (W_perf w, Images (W_k w))) (\<lambda>st. image_inv (snd st))"
      using perf_handlers_safe [of "(W_perf w, Images (W_k w))"] ksm_invD(3) [OF W(6)] by (cases ev) auto
    then show ?thesis unfolding On_Perf act.simps
      by (rule via_ok) (use assms(1) W(6) in \<open>auto simp: world_inv_perf ksm_inv_Images\<close>)
  next
    case (Lookup_Image a)
    have "ksm_inv ((W_k w)\<lparr>Images := snd (GetImageForAddress a (Images (W_k w)))\<rparr>)"
      using W(6) by (intro ksm_inv_Images GetImageForAddress_inv ksm_invD(3))
    then show ?thesis using assms(1) by (simp add: Lookup_Image)
  next
    case (Scrape_Metrics snapshot query now)
    then show ?thesis using metricsHandler_inv [OF assms(1), of snapshot query now] by auto
  next
    case (Watchdog now)
    then show ?thesis using watchdog_inv [OF W(6), of now] assms(1) by auto
  qed
qed

lemma reaches_inv:
  "reaches lib boot w as v \<Longrightarrow> world_inv n w \<Longrightarrow> (\<forall>a \<in> set as. cpu_in_range n lib a) \<Longrightarrow> world_inv n v"
proof (induction rule: reaches.induct)
  case (step w as v a u)
  then obtain w' where "act lib boot a v = Some w'" "world_inv n w'"
    using act_inv [of n v lib a boot] by auto
  then show ?case using step(2) by simp
qed simp

lemma runs_on:
  assumes "world_inv n w" and "\<And>a. a \<in> set as \<Longrightarrow> cpu_in_range n lib a"
  shows "\<exists>v. reaches lib boot w as v \<and> world_inv n v"
  using assms(2)
proof (induction as rule: rev_induct)
  case Nil
  then show ?case using assms(1) reaches.start by blast
next
  case (snoc a as)
  then obtain v where v: "reaches lib boot w as v" "world_inv n v" by auto
  then obtain u where "act lib boot a v = Some u" "world_inv n u"
    using act_inv [OF v(2), of lib a] snoc.prems by auto
  then show ?case using reaches.step [OF v(1)] by blast
qed


section \<open>Properties\<close>



end
