(* ===== verification/Kernel_Races.thy ===== *)
theory Kernel_Races
  imports Exporter
begin

text \<open>
  What the invariants do not cover: interleavings inside an operation, and sequences of
  operations on which the code keeps its invariants but loses or misplaces information.

  \<^item> \<open>MarkThreadForDeletion\<close> reads the thread map and writes the mark in two steps; a clean-up in
    between leaves a mark for a thread that is gone, and the next clean-up turns it into a nil
    pointer that later operations dereference.
  \<^item> \<open>AddThread\<close> between the two halves of \<open>PostScrapeCleanup\<close> links a thread to an object that
    goes back to the pool.
  \<^item> Clean-up of two instances with one process id leaves a mapping to start key 0.
  \<^item> An image that is loaded again before the clean-up keeps its mark.
\<close>

section \<open>A mark that comes after the clean-up\<close>

lemma cleanup_thread_list_gen:
  assumes "distinct (map fst ts)" and "\<And>j. j \<in> fst ` set ts \<Longrightarrow> thread_ptr s j \<noteq> Some None"
  shows "\<exists>t. cleanup_thread_list ts s = Some t \<and> only_threads s t
    \<and> (\<forall>j. thread_ptr t j = (case map_of ts j of
          None \<Rightarrow> thread_ptr s j
        | Some sk \<Rightarrow> (case thread_ptr s j of
            Some (Some r) \<Rightarrow> if start_key s r = sk then None else Some (Some r)
          | _ \<Rightarrow> Some None)))"
  using assms
proof (induction ts arbitrary: s)
  case Nil
  then show ?case by simp
next
  case (Cons x ts)
  obtain tid sk where x: "x = (tid, sk)" by force
  define u where "u = s\<lparr>Threads := (Threads s)\<lparr>tidToCurrentProcessData :=
          cm_update tid
            (\<lambda>cur. case cur of
               Some (Some r) \<Rightarrow> if StartKey (Info (heap s r)) = sk then None else Some (Some r)
             | _ \<Rightarrow> Some None)
            (tidToCurrentProcessData (Threads s))\<rparr>\<rparr>"
  have u: "cleanup_thread tid sk s = Some u"
    using Cons.prems(2) [of tid] x by (auto simp: cleanup_thread_def u_def split: option.split)
  have s: "only_threads s u" by (simp add: u_def)
  have ptr: "thread_ptr u j = (if j = tid then (case thread_ptr s j of
            Some (Some r) \<Rightarrow> if start_key s r = sk then None else Some (Some r)
          | _ \<Rightarrow> Some None) else thread_ptr s j)" for j
    by (simp add: u_def start_key_def split: option.split)
  have tid: "tid \<notin> fst ` set ts" and d: "distinct (map fst ts)" using Cons.prems(1) x by simp_all
  have nn: "thread_ptr u j \<noteq> Some None" if "j \<in> fst ` set ts" for j
    using that tid Cons.prems(2) [of j] x by (auto simp: ptr)
  obtain t where t: "cleanup_thread_list ts u = Some t" "only_threads u t"
    "\<forall>j. thread_ptr t j = (case map_of ts j of
          None \<Rightarrow> thread_ptr u j
        | Some sk \<Rightarrow> (case thread_ptr u j of
            Some (Some r) \<Rightarrow> if start_key u r = sk then None else Some (Some r)
          | _ \<Rightarrow> Some None))"
    using Cons.IH [OF d] nn by blast
  have "map_of ts tid = None" using tid by (simp add: map_of_eq_None_iff)
  then have "thread_ptr t j = (case map_of (x # ts) j of
          None \<Rightarrow> thread_ptr s j
        | Some sk \<Rightarrow> (case thread_ptr s j of
            Some (Some r) \<Rightarrow> if start_key s r = sk then None else Some (Some r)
          | _ \<Rightarrow> Some None))" for j
    unfolding t(3) [rule_format] ptr x only_threadsD(7) [OF s]
    by (cases "j = tid") (auto split: option.split)
  then show ?case using u t(1) only_threads_trans [OF s t(2)] x by auto
qed

lemma tids_of_dead_nil: "(tid, None) \<in> set xs \<Longrightarrow> tids_of_dead procs s xs = None"
  by (induction procs s xs rule: tids_of_dead.induct) auto

lemma nil_pointer_panics:
  assumes "thread_ptr t tid = Some None"
  shows "MarkThreadForDeletion tid t = None" and "RecordHardPageFaultForThread tid pid t = None"
    and "record_switch tid t = None" and "cleanupThreadsForTerminatedProcesses procs t = None"
proof -
  show "MarkThreadForDeletion tid t = None" and "RecordHardPageFaultForThread tid pid t = None"
    and "record_switch tid t = None"
    using assms by (simp_all add: MarkThreadForDeletion_def mark_load_def RecordHardPageFaultForThread_def
        GetCurrentProcessDataByThread_def record_switch_def)
  show "cleanupThreadsForTerminatedProcesses procs t = None"
    using tids_of_dead_nil [OF cm_load_Some_entry [OF assms], of procs t]
    by (simp add: cleanupThreadsForTerminatedProcesses_def cm_entries_def)
qed

lemma late_mark_nil:
  assumes "thread_inv s" and "thread_ptr s tid = None" and "gen < th"
  shows "\<exists>n t. TM_cleanupTerminated th (mark_store tid gen sk s) = Some (n, t) \<and> thread_ptr t tid = Some None"
proof -
  let ?s = "mark_store tid gen sk s"
  let ?P = "\<lambda>rec. TerminatedAtGeneration rec < th"
  have m: "cm_invar (terminatedThreads (Threads ?s))"
    using thread_invD(2) [OF assms(1)] by (simp add: mark_store_def)
  obtain hit rest where hr: "cm_sweep ?P (terminatedThreads (Threads ?s)) = (hit, rest)" by force
  let ?ts = "map (\<lambda>(tid, rec). (tid, TR_StartKey rec)) hit"
  let ?s1 = "?s\<lparr>Threads := (Threads ?s)\<lparr>terminatedThreads := rest\<rparr>\<rparr>"
  have d: "distinct (map fst ?ts)"
    using cm_sweep_hits(2) [OF m, of ?P] hr by (simp add: comp_def case_prod_unfold)
  have ptr: "thread_ptr ?s1 j = thread_ptr s j" for j by (simp add: mark_store_def)
  have nn: "thread_ptr ?s1 j \<noteq> Some None" for j
    unfolding ptr using thread_invD(3) [OF assms(1), of j None] by blast
  have "(tid, \<lparr>TerminatedAtGeneration = gen, TR_StartKey = sk\<rparr>) \<in> set hit"
    using cm_sweep_hits(1) [OF m, where P = ?P] hr assms(3) by (simp add: mark_store_def)
  then have "tid \<in> fst ` set ?ts" by (force simp: image_iff)
  then have mo: "map_of ?ts tid \<noteq> None" by (simp add: map_of_eq_None_iff del: set_map)
  obtain t where t: "cleanup_thread_list ?ts ?s1 = Some t"
    "\<forall>j. thread_ptr t j = (case map_of ?ts j of
          None \<Rightarrow> thread_ptr ?s1 j
        | Some sk \<Rightarrow> (case thread_ptr ?s1 j of
            Some (Some r) \<Rightarrow> if start_key ?s1 r = sk then None else Some (Some r)
          | _ \<Rightarrow> Some None))"
    using cleanup_thread_list_gen [OF d nn] by blast
  have "thread_ptr t tid = Some None"
    unfolding t(2) [rule_format] ptr assms(2) using mo by (auto split: option.split)
  then show ?thesis using t(1) hr by (simp add: TM_cleanupTerminated_def Let_def)
qed


section \<open>A thread that arrives during the clean-up\<close>

lemma cleanup_process_pool_mono:
  "set (processDataPool (Processes s)) \<subseteq> set (processDataPool (Processes (cleanup_process sk s)))"
  by (auto simp: cleanup_process_def Let_def cm_load_and_delete_eq split: option.split)

lemma fold_cleanup_pool_mono:
  "set (processDataPool (Processes s)) \<subseteq> set (processDataPool (Processes (fold cleanup_process sks s)))"
  using cleanup_process_pool_mono by (induction sks arbitrary: s) (simp, fastforce)

lemma fold_cleanup_pools:
  "sk \<in> set sks \<Longrightarrow> cm_load sk (instanceData (Processes s)) = Some r \<Longrightarrow>
   r \<in> set (processDataPool (Processes (fold cleanup_process sks s)))"
proof (induction sks arbitrary: s)
  case (Cons k sks)
  show ?case
  proof (cases "k = sk")
    case True
    then have "r \<in> set (processDataPool (Processes (cleanup_process k s)))"
      using Cons.prems by (simp add: cleanup_process_def Let_def cm_load_and_delete_eq)
    then show ?thesis using fold_cleanup_pool_mono by fastforce
  qed (use Cons in simp)
qed simp

lemma thread_during_cleanup:
  assumes "ksm_inv s"
    and pid: "cm_load pid (pidToCurrentProcessData (Processes s)) = Some (Some r)"
    and dead: "start_key s r \<in> set procs"
    and time: "time_After time (CreateTime (Info (heap s r)) - millisecond)"
  shows "\<exists>u v. cleanupThreadsForTerminatedProcesses procs s = Some u \<and> AddThread tid pid time tag u = Some v
    \<and> (let t = snd (cleanupProcesses procs v) in thread_ptr t tid = Some (Some r)
         \<and> r \<in> set (processDataPool (Processes t)) \<and> \<not> ref_live t r)"
proof -
  obtain u where u: "cleanupThreadsForTerminatedProcesses procs s = Some u" "only_threads s u"
    using cleanupThreadsForTerminatedProcesses_spec [OF ksm_invD(2) [OF assms(1)]] by blast
  note U = only_threadsD [OF u(2)]
  let ?v = "resolveAndApplyServiceName r tag
    ((store_thread tid (Some r) u)\<lparr>Diag := RecordThreadAdded (Diag (store_thread tid (Some r) u))\<rparr>)"
  have v: "AddThread tid pid time tag u = Some ?v"
    using pid time by (simp add: AddThread_def GetCurrentProcessDataByPID_def U(1,2) Let_def)
  let ?t = "fold cleanup_process procs ?v"
  have live: "cm_load (start_key s r) (instanceData (Processes s)) = Some r"
    using proc_inv_pid [OF ksm_invD(1) [OF assms(1)] pid] by (auto simp: ref_live_def)
  then have "r \<in> set (processDataPool (Processes ?t))"
    using fold_cleanup_pools [OF dead, of ?v r] U(1) by simp
  moreover have "thread_ptr ?t tid = Some (Some r)" by (simp add: store_thread_def)
  moreover have "start_key ?v r = start_key s r" 
    using U(7) [of r] by (simp add: start_key_def store_thread_def resolveAndApplyServiceName_def)
  then have "\<not> ref_live ?t r" using dead by (simp add: fold_cleanup_live)
  ultimately show ?thesis using u(1) v by (simp add: cleanupProcesses_eq Let_def)
qed


section \<open>Two instances with one process id\<close>

lemma cleanup_spurious_mapping:
  assumes "cm_load sk (instanceData (Processes s)) = Some r"
    and "cm_load (PID (Info (heap s r))) (pidToCurrentStartKey (Processes s)) = None"
  shows "cm_load (PID (Info (heap s r))) (pidToCurrentStartKey (Processes (cleanup_process sk s))) = Some 0"
  using assms by (simp add: cleanup_process_def Let_def cm_load_and_delete_eq)


section \<open>An image that is loaded again\<close>

lemma reload_keeps_mark:
  assumes "image_inv im" and "cm_load b (images im) = Some r" and "cm_load b (terminatedImages im) = Some g"
    and "b \<noteq> 0" and "sz \<noteq> 0" and "g < gen"
  shows "RefCount (image_heap (store_image choice b sz name im) r) = RefCount (image_heap im r) + 1"
    and "cm_load b (images (snd (IM_cleanupTerminated gen (store_image choice b sz name im)))) = None"
proof -
  have s: "store_image choice b sz name im = upd_image r (\<lambda>i. i\<lparr>RefCount := RefCount i + 1\<rparr>) im"
    using assms by (simp add: store_image_def)
  show "RefCount (image_heap (store_image choice b sz name im) r) = RefCount (image_heap im r) + 1"
    unfolding s by (simp add: upd_image_def)
  have t: "terminatedImages (store_image choice b sz name im) = terminatedImages im"
    unfolding s by (simp add: upd_image_def)
  show "cm_load b (images (snd (IM_cleanupTerminated gen (store_image choice b sz name im)))) = None"
    unfolding IM_cleanupTerminated_load [OF store_image_inv [OF assms(1)]] t using assms(3,6) by simp
qed


section \<open>Properties\<close>

text \<open>C31. A thread end that races with a clean-up poisons the thread map: when the handler has read
  the thread's process (\<open>mark_load\<close>), a clean-up removes that process with its threads, and
  then the handler stores its mark, the next clean-up puts a nil pointer into the thread
  map. From then on the next thread end, page fault or context switch of that thread id
  panics, and so does every clean-up of a terminated process.\<close>

theorem late_mark_poisons_map:
  assumes "ksm_inv s" and "mark_load tid s = Some (Some r)" and "start_key s r \<in> set procs" and "gen < th"
  shows "\<exists>u n t. cleanupThreadsForTerminatedProcesses procs s = Some u
    \<and> TM_cleanupTerminated th (mark_store tid gen (start_key s r) u) = Some (n, t)
    \<and> MarkThreadForDeletion tid t = None \<and> RecordHardPageFaultForThread tid pid t = None
    \<and> record_switch tid t = None \<and> cleanupThreadsForTerminatedProcesses procs' t = None"
proof -
  obtain u where u: "cleanupThreadsForTerminatedProcesses procs s = Some u" "thread_inv u"
    "\<forall>tid. thread_ptr u tid = (if (\<exists>r. thread_ptr s tid = Some (Some r) \<and> start_key s r \<in> set procs)
      then None else thread_ptr s tid)"
    using cleanupThreadsForTerminatedProcesses_spec [OF ksm_invD(2) [OF assms(1)], of procs] by blast
  have "thread_ptr u tid = None" using u(3) assms(2,3) by (auto simp: mark_load_def)
  then obtain n t where t: "TM_cleanupTerminated th (mark_store tid gen (start_key s r) u) = Some (n, t)"
    "thread_ptr t tid = Some None"
    using late_mark_nil [OF u(2) _ assms(4)] by blast
  then show ?thesis using u(1) nil_pointer_panics [OF t(2)] by blast
qed

text \<open>\<open>sample_thread_state\<close>: the sample state with thread 11 of process 500.\<close>

definition sample_thread_state :: ksm where
  "sample_thread_state = store_thread 11 (Some 1) sample_state"

lemma sample_thread_state_facts:
  "ksm_inv sample_thread_state" "mark_load 11 sample_thread_state = Some (Some 1)"
  "start_key sample_thread_state 1 = 7"
proof -
  have "AddThread 11 500 (3 * second) 0 sample_state \<noteq> None" using AddThread_inv_all [OF sample_state_inv] by fastforce
  have live: "ref_live sample_state 1" by (simp add: ref_live_def start_key_def sample_state_simps)
  have "clock_same sample_state sample_thread_state"
    by (simp add: clock_same_def sample_thread_state_def store_thread_def)
  then show "ksm_inv sample_thread_state"
    using ksm_invD [OF sample_state_inv] live clock_same_inv [of sample_state sample_thread_state]
    by (simp add: ksm_inv_def sample_thread_state_def thread_inv_store)
  show "mark_load 11 sample_thread_state = Some (Some 1)"
    by (simp add: mark_load_def sample_thread_state_def store_thread_def)
  show "start_key sample_thread_state 1 = 7"
    by (simp add: start_key_def sample_thread_state_def sample_state_simps)
qed

theorem late_mark_poisons_map_witness:
  "\<exists>u n t. cleanupThreadsForTerminatedProcesses [7] sample_thread_state = Some u
    \<and> TM_cleanupTerminated 2 (mark_store 11 1 7 u) = Some (n, t) \<and> MarkThreadForDeletion 11 t = None"
proof -
  have "start_key sample_thread_state 1 \<in> set [7]" "(1 :: u64) < 2" using sample_thread_state_facts(3) by simp_all
  from late_mark_poisons_map [OF sample_thread_state_facts(1,2) this]
  show ?thesis unfolding sample_thread_state_facts(3) by blast
qed

text \<open>A thread that arrives between the two halves of a clean-up is linked to a recycled object:
  the scrape has already removed the threads of the dead process, the start event still
  finds the process by its pid, and then the process goes back to the pool while the
  thread map keeps pointing to it.\<close>

theorem thread_start_during_cleanup:
  assumes "ksm_inv s"
    and "GetCurrentProcessDataByPID pid s = Some (Some r)"
    and "start_key s r \<in> set procs"
    and "time_After time (CreateTime (Info (heap s r)) - millisecond)"
  shows "\<exists>u v. cleanupThreadsForTerminatedProcesses procs s = Some u \<and> AddThread tid pid time tag u = Some v
    \<and> GetCurrentProcessDataByThread tid (snd (cleanupProcesses procs v)) = Some (Some r)
    \<and> r \<in> set (processDataPool (Processes (snd (cleanupProcesses procs v))))
    \<and> GetProcessDataBySK (start_key s r) (snd (cleanupProcesses procs v)) = None"
proof -
  obtain u v where v: "cleanupThreadsForTerminatedProcesses procs s = Some u" "AddThread tid pid time tag u = Some v"
    "thread_ptr (snd (cleanupProcesses procs v)) tid = Some (Some r)"
    "r \<in> set (processDataPool (Processes (snd (cleanupProcesses procs v))))"
    using thread_during_cleanup [OF assms(1) _ assms(3,4), of pid tid tag] assms(2)
    by (auto simp: Let_def GetCurrentProcessDataByPID_def)
  moreover have "GetProcessDataBySK (start_key s r) (snd (cleanupProcesses procs v)) = None"
    using assms(3) by (simp add: cleanupProcesses_eq GetProcessDataBySK_def fold_cleanup_load)
  ultimately show ?thesis unfolding GetCurrentProcessDataByThread_def by blast
qed

theorem thread_start_during_cleanup_witness:
  "\<exists>u v. cleanupThreadsForTerminatedProcesses [7] sample_state = Some u \<and> AddThread 12 500 (3 * second) 0 u = Some v
     \<and> 1 \<in> set (processDataPool (Processes (snd (cleanupProcesses [7] v))))"
proof -
  have s: "GetCurrentProcessDataByPID 500 sample_state = Some (Some 1)" "start_key sample_state 1 \<in> set [7]"
    by (simp_all add: GetCurrentProcessDataByPID_def start_key_def sample_state_simps)
  have "time_After (3 * second) (CreateTime (Info (heap sample_state 1)) - millisecond)"
    by (simp add: sample_state_simps time_After_def second_def millisecond_def)
  from thread_start_during_cleanup [OF sample_state_inv s this] show ?thesis by blast
qed

text \<open>Cleaning up two instances of one process id can leave a mapping from that id to start key
  0: the clean-up of the second one finds no entry for the id and its callback asks to keep
  the zero value. It happens whenever the current instance goes first.\<close>

theorem cleanup_leaves_zero_key:
  assumes "GetProcessDataBySK sk s = Some r" and "GetProcessCurrentStartKey (PID (Info (heap s r))) s = None"
  shows "GetProcessCurrentStartKey (PID (Info (heap s r))) (cleanup_process sk s) = Some 0"
  using assms cleanup_spurious_mapping [of sk s r] by (simp add: GetProcessDataBySK_def GetProcessCurrentStartKey_def)

theorem cleanup_leaves_zero_key_witness:
  "GetProcessCurrentStartKey 500 (cleanup_process 7 (cleanup_process 9
     (AddProcess None 500 9 ''b.exe'' 4 1 (3 * second) sample_state))) = Some 0"
proof -
  let ?s = "cleanup_process 9 (AddProcess None 500 9 ''b.exe'' 4 1 (3 * second) sample_state)"
  have "GetProcessDataBySK 7 ?s = Some 1" "GetProcessCurrentStartKey 500 ?s = None" "PID (Info (heap ?s 1)) = 500"
    by (simp_all add: GetProcessDataBySK_def GetProcessCurrentStartKey_def sample_state_simps cleanup_process_def
        cm_load_and_delete_eq Let_def)
  then show ?thesis using cleanup_leaves_zero_key [of 7 ?s 1] by simp
qed

text \<open>An image that is loaded again before the clean-up is lost: the second load counts one more
  reference but keeps the termination mark, so the next clean-up past the mark's generation
  removes the image although it is loaded.\<close>

theorem reloaded_image_removed:
  assumes "image_inv im" and "cm_load b (images im) = Some r" and "cm_load b (terminatedImages im) = Some g"
    and "b \<noteq> 0" and "sz \<noteq> 0" and "g < gen"
  shows "RefCount (image_heap (store_image choice b sz name im) r) = RefCount (image_heap im r) + 1
    \<and> cm_load b (images (snd (IM_cleanupTerminated gen (store_image choice b sz name im)))) = None"
  using reload_keeps_mark [OF assms] by blast

theorem reloaded_image_removed_witness:
  "cm_load 4096 (images (snd (IM_cleanupTerminated 5 (store_image None 4096 256 ''a.dll''
     (unload_image 4096 3 (store_image None 4096 256 ''a.dll'' newImageManager)))))) = None"
proof -
  let ?im = "unload_image 4096 3 (store_image None 4096 256 ''a.dll'' newImageManager)"
  have inv: "image_inv ?im" by (intro unload_image_inv store_image_inv image_inv_new)
  have "cm_load 4096 (images ?im) = Some 0" "cm_load 4096 (terminatedImages ?im) = Some 3"
    by (simp_all add: unload_image_def store_image_def newImageManager_def image_pool_Get_def internImageName_def
        cm_load_or_store_def upd_image_def Let_def)
  from reloaded_image_removed [OF inv this, of 256 5 None "''a.dll''"] show ?thesis by simp
qed

end
