(* ===== verification/Config.thy ===== *)
theory Config
  imports Network_Collector
begin

text \<open>
  The configuration (\<open>internal/config\<close>): its data, the defaults, validation, loading from a
  file with command line flags on top, and what \<open>main\<close> does with the result.

  The TOML package and the file system are parameters, gathered in \<open>config_env\<close>: decoding
  gets the defaults and returns the decoded configuration, or \<^const>\<open>None\<close> on an error.
  \<open>Validate\<close> walks over the collector settings with the \<open>reflect\<close> package, whose
  \<open>FieldByName\<close> panics on a value that is not a struct; a panic is \<^const>\<open>None\<close> as elsewhere.
\<close>

section \<open>Collectors\<close>

record process_filter_config =
  PF_Enabled :: bool
  PF_IncludeNames :: "string list"

record perf_info_config =
  Perf_Enabled :: bool
  Cfg_EnablePerDriver :: bool
  Cfg_EnablePerCPU :: bool
  Cfg_EnableSMIDetection :: bool

record memory_config =
  MemCfg_Enabled :: bool
  MemCfg_EnablePerProcess :: bool

record registry_config =
  RegCfg_Enabled :: bool
  RegCfg_EnablePerProcess :: bool

record collector_config =
  ProcessFilter :: process_filter_config
  Process_Enabled :: bool
  DiskIO_Enabled :: bool
  ThreadCS_Enabled :: bool
  Cfg_PerfInfo :: perf_info_config
  Cfg_Network :: network_config
  Cfg_Memory :: memory_config
  Cfg_Registry :: registry_config
  RequiresProcessManager :: bool

record server_config =
  ListenAddress :: string
  MetricsPath :: string
  PprofEnabled :: bool
  DebugEnabled :: bool

record session_watcher_config =
  Watcher_Enabled :: bool
  RestartKernelSession :: string
  RestartExporterSession :: bool


section \<open>Logging\<close>

record log_defaults =
  Log_Level :: string
  Log_Caller :: int
  Log_TimeField :: string
  Log_TimeFormat :: string
  Log_TimeLocation :: string

record console_config =
  Con_FastIO :: bool
  Con_Format :: string
  Con_ColorOutput :: bool
  Con_QuoteString :: bool
  Con_Writer :: string
  Con_Async :: bool

record file_config =
  File_Filename :: string
  File_MaxSize :: int
  File_MaxBackups :: int
  File_TimeFormat :: string
  File_LocalTime :: bool
  File_HostName :: bool
  File_ProcessID :: bool
  File_EnsureFolder :: bool
  File_Async :: bool

record syslog_config =
  Sys_Network :: string
  Sys_Address :: string
  Sys_Hostname :: string
  Sys_Tag :: string
  Sys_Marker :: string
  Sys_Async :: bool

record eventlog_config =
  Evl_Source :: string
  Evl_ID :: int
  Evl_Host :: string
  Evl_Async :: bool

record log_output =
  Out_Type :: string
  Out_Enabled :: bool
  Out_Console :: "console_config option"
  Out_File :: "file_config option"
  Out_Syslog :: "syslog_config option"
  Out_Eventlog :: "eventlog_config option"

record logging_config =
  Log_Defaults :: log_defaults
  Log_Outputs :: "log_output list"
  Log_LibLevel :: string

record app_config =
  Server :: server_config
  Collectors :: collector_config
  SessionWatcher :: session_watcher_config
  Logging :: logging_config


section \<open>Defaults\<close>

definition default_server :: server_config where
  "default_server = \<lparr>ListenAddress = ''localhost:9189'', MetricsPath = ''/metrics'',
     PprofEnabled = True, DebugEnabled = True\<rparr>"

definition default_collectors :: collector_config where
  "default_collectors = \<lparr>
     ProcessFilter = \<lparr>PF_Enabled = False, PF_IncludeNames = []\<rparr>,
     Process_Enabled = True, DiskIO_Enabled = True, ThreadCS_Enabled = False,
     Cfg_PerfInfo = \<lparr>Perf_Enabled = False, Cfg_EnablePerDriver = False, Cfg_EnablePerCPU = False,
       Cfg_EnableSMIDetection = False\<rparr>,
     Cfg_Network = \<lparr>Net_Enabled = False, Net_ConnectionHealth = False, Net_ByProtocol = False,
       Net_RetransmissionRate = False\<rparr>,
     Cfg_Memory = \<lparr>MemCfg_Enabled = True, MemCfg_EnablePerProcess = True\<rparr>,
     Cfg_Registry = \<lparr>RegCfg_Enabled = False, RegCfg_EnablePerProcess = True\<rparr>,
     RequiresProcessManager = False\<rparr>"

definition default_outputs :: "log_output list" where
  "default_outputs =
     [\<lparr>Out_Type = ''console'', Out_Enabled = True,
       Out_Console = Some \<lparr>Con_FastIO = False, Con_Format = ''auto'', Con_ColorOutput = True,
         Con_QuoteString = True, Con_Writer = ''stderr'', Con_Async = False\<rparr>,
       Out_File = None, Out_Syslog = None, Out_Eventlog = None\<rparr>,
      \<lparr>Out_Type = ''file'', Out_Enabled = False, Out_Console = None,
       Out_File = Some \<lparr>File_Filename = ''logs/app.log'', File_MaxSize = 10, File_MaxBackups = 7,
         File_TimeFormat = ''2006-01-02T15-04-05'', File_LocalTime = True, File_HostName = True,
         File_ProcessID = True, File_EnsureFolder = True, File_Async = True\<rparr>,
       Out_Syslog = None, Out_Eventlog = None\<rparr>,
      \<lparr>Out_Type = ''syslog'', Out_Enabled = False, Out_Console = None, Out_File = None,
       Out_Syslog = Some \<lparr>Sys_Network = ''udp'', Sys_Address = ''localhost:514'', Sys_Hostname = '''',
         Sys_Tag = ''etw_exporter'', Sys_Marker = ''@cee:'', Sys_Async = True\<rparr>,
       Out_Eventlog = None\<rparr>,
      \<lparr>Out_Type = ''eventlog'', Out_Enabled = False, Out_Console = None, Out_File = None, Out_Syslog = None,
       Out_Eventlog = Some \<lparr>Evl_Source = ''ETW Exporter'', Evl_ID = 1000, Evl_Host = '''', Evl_Async = False\<rparr>\<rparr>]"

definition DefaultConfig :: app_config where
  "DefaultConfig = \<lparr>Server = default_server, Collectors = default_collectors,
     SessionWatcher = \<lparr>Watcher_Enabled = True, RestartKernelSession = ''forced'', RestartExporterSession = True\<rparr>,
     Logging = \<lparr>Log_Defaults = \<lparr>Log_Level = ''info'', Log_Caller = 0, Log_TimeField = ''time'',
         Log_TimeFormat = '''', Log_TimeLocation = ''Local''\<rparr>,
       Log_Outputs = default_outputs, Log_LibLevel = ''warn''\<rparr>\<rparr>"


section \<open>Validation\<close>

datatype config_error =
    EmptyListenAddress | EmptyMetricsPath | NoCollectorEnabled | NoOutputEnabled
  | BadRestartPolicy string
  | ConfigNotFound string | ConfigParseFailed string | GenerateFailed string | SaveFailed string
  | InvalidConfiguration config_error

text \<open>What reflection sees of one field of \<open>CollectorConfig\<close>: a struct with its \<open>Enabled\<close>
  field, or a plain bool.\<close>

datatype reflected = StructField bool | BoolField bool

definition collector_fields :: "collector_config \<Rightarrow> reflected list" where
  "collector_fields c = [StructField (PF_Enabled (ProcessFilter c)), StructField (Process_Enabled c),
     StructField (DiskIO_Enabled c), StructField (ThreadCS_Enabled c),
     StructField (Perf_Enabled (Cfg_PerfInfo c)), StructField (Net_Enabled (Cfg_Network c)),
     StructField (MemCfg_Enabled (Cfg_Memory c)), StructField (RegCfg_Enabled (Cfg_Registry c)),
     BoolField (RequiresProcessManager c)]"

fun one_enabled :: "reflected list \<Rightarrow> bool option" where
  "one_enabled [] = Some False"
| "one_enabled (StructField enabled # fs) = (if enabled then Some True else one_enabled fs)"
| "one_enabled (BoolField b # fs) = None"

definition restart_policies :: "string list" where
  "restart_policies = [''off'', ''enabled'', ''forced'']"

definition Validate :: "app_config \<Rightarrow> config_error option option" where
  "Validate c =
     (if ListenAddress (Server c) = '''' then Some (Some EmptyListenAddress)
      else if MetricsPath (Server c) = '''' then Some (Some EmptyMetricsPath)
      else case one_enabled (collector_fields (Collectors c)) of
          None \<Rightarrow> None
        | Some oneCollectorEnabled \<Rightarrow>
            if \<not> oneCollectorEnabled then Some (Some NoCollectorEnabled)
            else if \<not> list_ex Out_Enabled (Log_Outputs (Logging c)) then Some (Some NoOutputEnabled)
            else if RestartKernelSession (SessionWatcher c) \<notin> set restart_policies
            then Some (Some (BadRestartPolicy (RestartKernelSession (SessionWatcher c))))
            else Some None)"


section \<open>Loading\<close>

record config_env =
  env_exists :: "string \<Rightarrow> bool"
  env_decode :: "string \<Rightarrow> app_config \<Rightarrow> app_config option"
  env_mkdir_parent :: "string \<Rightarrow> bool"
  env_create :: "string \<Rightarrow> bool"
  env_write_header :: "string \<Rightarrow> bool"
  env_encode :: "string \<Rightarrow> app_config \<Rightarrow> bool"

definition LoadConfig :: "config_env \<Rightarrow> string \<Rightarrow> app_config option \<times> config_error option" where
  "LoadConfig env configPath =
     (if configPath = '''' then (Some DefaultConfig, None)
      else if \<not> env_exists env configPath then (Some DefaultConfig, Some (ConfigNotFound configPath))
      else case env_decode env configPath DefaultConfig of
          None \<Rightarrow> (None, Some (ConfigParseFailed configPath))
        | Some config \<Rightarrow> (Some config, None))"

definition SaveConfig :: "config_env \<Rightarrow> string \<Rightarrow> app_config \<Rightarrow> config_error option" where
  "SaveConfig env configPath config =
     (if env_mkdir_parent env configPath \<and> env_create env configPath \<and> env_encode env configPath config
      then None else Some (SaveFailed configPath))"

definition GenerateExampleConfig :: "config_env \<Rightarrow> string \<Rightarrow> config_error option" where
  "GenerateExampleConfig env outputPath =
     (if env_create env outputPath \<and> env_write_header env outputPath \<and> env_encode env outputPath DefaultConfig
      then None else Some (GenerateFailed outputPath))"

text \<open>A flag is \<^const>\<open>None\<close> when the user did not pass it.\<close>

record flags =
  Flag_ListenAddress :: "string option"
  Flag_MetricsPath :: "string option"
  Flag_ConfigPath :: "string option"
  Flag_GenerateConfig :: "string option"

definition flag_value :: "string \<Rightarrow> string option \<Rightarrow> string" where
  "flag_value dflt x = (case x of Some v \<Rightarrow> v | None \<Rightarrow> dflt)"

definition apply_flags :: "flags \<Rightarrow> app_config \<Rightarrow> app_config" where
  "apply_flags fl config =
     config\<lparr>Server := (Server config)
       \<lparr>ListenAddress := flag_value (ListenAddress (Server config)) (Flag_ListenAddress fl),
        MetricsPath := flag_value (MetricsPath (Server config)) (Flag_MetricsPath fl)\<rparr>\<rparr>"

definition NewConfig :: "config_env \<Rightarrow> flags \<Rightarrow> (app_config option \<times> config_error option) option" where
  "NewConfig env fl =
     (if flag_value '''' (Flag_GenerateConfig fl) \<noteq> ''''
      then Some (None, GenerateExampleConfig env (flag_value '''' (Flag_GenerateConfig fl)))
      else let path = flag_value '''' (Flag_ConfigPath fl);
               loaded = (if path \<noteq> '''' then LoadConfig env path else (Some DefaultConfig, None))
           in case loaded of
                (_, Some err) \<Rightarrow> Some (None, Some err)
              | (None, None) \<Rightarrow> None
              | (Some config, None) \<Rightarrow>
                  let config' = apply_flags fl config
                  in (case Validate config' of
                        None \<Rightarrow> None
                      | Some (Some err) \<Rightarrow> Some (None, Some (InvalidConfiguration err))
                      | Some None \<Rightarrow> Some (Some config', None)))"


section \<open>The start of the program\<close>

datatype main_outcome = Exits nat | Runs app_config

text \<open>\<open>configure_logging\<close> is \<open>logger.ConfigureLogging\<close>, true when it returns no error.\<close>

definition main_config :: "(logging_config \<Rightarrow> bool) \<Rightarrow> config_env \<Rightarrow> flags \<Rightarrow> main_outcome option" where
  "main_config configure_logging env fl =
     (case NewConfig env fl of
        None \<Rightarrow> None
      | Some (None, _) \<Rightarrow> Some (Exits 0)
      | Some (Some config, _) \<Rightarrow>
          if \<not> configure_logging (Logging config) then Some (Exits 1) else Some (Runs config))"

section \<open>What validation accepts\<close>

definition any_collector :: "collector_config \<Rightarrow> bool" where
  "any_collector c \<longleftrightarrow> PF_Enabled (ProcessFilter c) \<or> Process_Enabled c \<or> DiskIO_Enabled c \<or> ThreadCS_Enabled c
     \<or> Perf_Enabled (Cfg_PerfInfo c) \<or> Net_Enabled (Cfg_Network c) \<or> MemCfg_Enabled (Cfg_Memory c)
     \<or> RegCfg_Enabled (Cfg_Registry c)"

lemma one_enabled_collectors:
  "one_enabled (collector_fields c) = (if any_collector c then Some True else None)"
  by (simp add: collector_fields_def any_collector_def)

text \<open>Validation accepts exactly the configurations with a listen address, a metrics path, an
  enabled section, an enabled log output and a known restart policy. With no section enabled
  it does not report an error: the walk reaches the plain flag at the end of the collector
  settings and panics. A process filter alone counts as an enabled collector.\<close>

theorem validation_exact:
  "(Validate c = Some None) =
     (ListenAddress (Server c) \<noteq> '''' \<and> MetricsPath (Server c) \<noteq> '''' \<and> any_collector (Collectors c)
      \<and> (\<exists>out \<in> set (Log_Outputs (Logging c)). Out_Enabled out)
      \<and> RestartKernelSession (SessionWatcher c) \<in> {''off'', ''enabled'', ''forced''})
   \<and> (Validate c = None) =
     (ListenAddress (Server c) \<noteq> '''' \<and> MetricsPath (Server c) \<noteq> '''' \<and> \<not> any_collector (Collectors c))
   \<and> Validate c \<noteq> Some (Some NoCollectorEnabled)"
  by (auto simp: Validate_def one_enabled_collectors restart_policies_def list_ex_iff)

lemma default_valid: "Validate DefaultConfig = Some None"
  by (simp add: Validate_def DefaultConfig_def default_server_def default_collectors_def default_outputs_def
      collector_fields_def restart_policies_def)

lemma LoadConfig_result:
  "LoadConfig env path = (r, e) \<Longrightarrow> r = None \<Longrightarrow> e = Some (ConfigParseFailed path)"
  by (auto simp: LoadConfig_def split: if_splits option.splits)

lemma NewConfig_cases:
  assumes "NewConfig env fl = Some (r, e)"
  shows "(\<exists>config. r = Some config \<and> e = None \<and> Validate config = Some None) \<or> r = None"
  using assms by (auto simp: NewConfig_def Let_def split: if_splits option.splits prod.splits)

text \<open>The program only runs with a configuration that validation accepted, and whose listen
  address and metrics path are the ones of the command line when given there. Every other
  configuration error ends \<open>main\<close> with status 0, as for a requested example file.\<close>

theorem main_runs_valid_config:
  assumes "main_config configure_logging env fl = Some result"
  shows "case result of
      Runs config \<Rightarrow> Validate config = Some None
        \<and> (case Flag_ListenAddress fl of Some a \<Rightarrow> ListenAddress (Server config) = a | None \<Rightarrow> True)
        \<and> (case Flag_MetricsPath fl of Some a \<Rightarrow> MetricsPath (Server config) = a | None \<Rightarrow> True)
    | Exits n \<Rightarrow> n = (if \<exists>config. NewConfig env fl = Some (Some config, None) then 1 else 0)"
proof -
  have flags: "case Flag_ListenAddress fl of Some a \<Rightarrow> ListenAddress (Server config) = a | None \<Rightarrow> True"
    "case Flag_MetricsPath fl of Some a \<Rightarrow> MetricsPath (Server config) = a | None \<Rightarrow> True"
    if "NewConfig env fl = Some (Some config, e)" for config e
    using that by (auto simp: NewConfig_def Let_def apply_flags_def flag_value_def
        split: if_splits option.splits prod.splits)
  obtain r e where re: "NewConfig env fl = Some (r, e)"
    using assms by (auto simp: main_config_def split: option.splits prod.splits)
  show ?thesis
  proof (cases r)
    case None
    then show ?thesis using assms re by (auto simp: main_config_def)
  next
    case (Some config)
    then have v: "e = None" "Validate config = Some None" using NewConfig_cases [OF re] by auto
    show ?thesis using assms re Some v flags [of config e] by (auto simp: main_config_def split: if_splits)
  qed
qed

definition no_files :: config_env where
  "no_files = \<lparr>env_exists = (\<lambda>_. False), env_decode = (\<lambda>_ _. None), env_mkdir_parent = (\<lambda>_. False),
     env_create = (\<lambda>_. False), env_write_header = (\<lambda>_. False), env_encode = (\<lambda>_ _. False)\<rparr>"

theorem main_runs_valid_config_witness:
  "main_config (\<lambda>_. True) no_files \<lparr>Flag_ListenAddress = Some '':1'', Flag_MetricsPath = None,
     Flag_ConfigPath = None, Flag_GenerateConfig = None\<rparr> =
   Some (Runs (DefaultConfig\<lparr>Server := default_server\<lparr>ListenAddress := '':1''\<rparr>\<rparr>))
   \<and> Validate (DefaultConfig\<lparr>Server := default_server\<lparr>ListenAddress := '':1''\<rparr>\<rparr>) = Some None"
proof -
  have r: "main_config (\<lambda>_. True) no_files \<lparr>Flag_ListenAddress = Some '':1'', Flag_MetricsPath = None,
      Flag_ConfigPath = None, Flag_GenerateConfig = None\<rparr> =
    Some (Runs (DefaultConfig\<lparr>Server := default_server\<lparr>ListenAddress := '':1''\<rparr>\<rparr>))"
    by (simp add: main_config_def NewConfig_def flag_value_def apply_flags_def Validate_def DefaultConfig_def
        default_server_def default_collectors_def default_outputs_def collector_fields_def restart_policies_def)
  show ?thesis using main_runs_valid_config [OF r] r by simp
qed

end
