(* ===== verification/Provider_Groups.thy ===== *)
theory Provider_Groups
  imports Config
begin

text \<open>
  Which ETW providers the exporter asks for (\<open>internal/etw/provider_groups.go\<close> and the GUIDs of
  \<open>internal/etw/guids\<close>). Each group of providers belongs to one collector; the enabled ones
  are combined into one set of kernel flags (Windows 10) or one list of system providers
  (Windows 11), and one list of manifest providers.

  The constants of the ETW library (\<open>github.com/tekert/goetw/etw\<close>: GUIDs of the system
  providers, kernel flags, keywords, event types) are not part of the repository; they are the fields of
  \<open>etw_consts\<close>, an argument of the definitions. \<open>sample_etw\<close> is one instance, for concrete
  inputs: GUIDs and event types of the Windows SDK, and keywords that differ from each other. A GUID is its 128 bits as a number.
\<close>

section \<open>GUIDs\<close>

type_synonym guid = nat

definition MicrosoftWindowsKernelEventTracingGUID :: guid where
  "MicrosoftWindowsKernelEventTracingGUID = 0xb675ec37bdb64648bc92f3fdc74d3ca2"

definition MicrosoftWindowsKernelDiskGUID :: guid where
  "MicrosoftWindowsKernelDiskGUID = 0xc7bde69ae1e04177b6ef283ad1525271"

definition MicrosoftWindowsKernelProcessGUID :: guid where
  "MicrosoftWindowsKernelProcessGUID = 0x22fb2cd60e7b422ba0c72fad1fd0e716"

definition MicrosoftWindowsKernelFileGUID :: guid where
  "MicrosoftWindowsKernelFileGUID = 0xedd089279cc44e65b970c2560fb5c289"

definition MicrosoftWindowsKernelNetworkGUID :: guid where
  "MicrosoftWindowsKernelNetworkGUID = 0x7dd42a49532948328dfd43d979153a88"

definition ProcessKernelGUID :: guid where "ProcessKernelGUID = 0x3d6fa8d0fe0511d09dda00c04fd7ba7c"
definition SystemConfigGUID :: guid where "SystemConfigGUID = 0x01853a65418f4f36aefcdc0f1d2fd235"
definition ThreadKernelGUID :: guid where "ThreadKernelGUID = 0x3d6fa8d1fe0511d09dda00c04fd7ba7c"
definition DiskIOKernelGUID :: guid where "DiskIOKernelGUID = 0x3d6fa8d4fe0511d09dda00c04fd7ba7c"
definition PerfInfoKernelGUID :: guid where "PerfInfoKernelGUID = 0xce1dbfb4137e4da687b03f59aa102cbc"
definition ImageKernelGUID :: guid where "ImageKernelGUID = 0x2cb15d1d5fc111d2abe100a0c911f518"
definition PageFaultKernelGUID :: guid where "PageFaultKernelGUID = 0x3d6fa8d3fe0511d09dda00c04fd7ba7c"
definition RegistryKernelGUID :: guid where "RegistryKernelGUID = 0xae53722ec86311d2865900c04fa321a1"
definition SystemRegistryProviderGuid :: guid where "SystemRegistryProviderGuid = 0x16156bd9fab44cfaa23289d1099058e3"

record etw_consts =
  SystemProcessProviderGuid :: guid
  SystemSchedulerProviderGuid :: guid
  SystemInterruptProviderGuid :: guid
  SystemMemoryProviderGuid :: guid
  SystemIoProviderGuid :: guid
  SystemConfigProviderGuid :: guid
  etw_SystemRegistryProviderGuid :: guid
  DiskIoKernelGuid :: guid
  ProcessKernelGuid :: guid
  TcpIpKernelGuid :: guid
  UdpIpKernelGuid :: guid
  SystemTraceControlGuid :: guid
  FLAG_PROCESS :: u32
  FLAG_THREAD :: u32
  FLAG_IMAGE_LOAD :: u32
  FLAG_DISK_IO :: u32
  FLAG_CSWITCH :: u32
  FLAG_DISPATCHER :: u32
  FLAG_INTERRUPT :: u32
  FLAG_DPC :: u32
  FLAG_NETWORK_TCPIP :: u32
  FLAG_MEMORY_HARD_FAULTS :: u32
  FLAG_REGISTRY :: u32
  FLAG_PROFILE :: u32
  PROCESS_KW_GENERAL :: u64
  PROCESS_KW_THREAD :: u64
  PROCESS_KW_LOADER :: u64
  IO_KW_DISK :: u64
  IO_KW_NETWORK :: u64
  CONFIG_KW_STORAGE :: u64
  SCHEDULER_KW_CONTEXT_SWITCH :: u64
  SCHEDULER_KW_DISPATCHER :: u64
  INTERRUPT_KW_GENERAL :: u64
  INTERRUPT_KW_DPC :: u64
  MEMORY_KW_HARD_FAULTS :: u64
  REGISTRY_KW_GENERAL :: u64
  TYPE_START :: u8
  TYPE_END :: u8
  TYPE_DC_START :: u8
  TYPE_DC_END :: u8
  TYPE_LOAD :: u8
  TYPE_IO_READ :: u8
  TYPE_IO_WRITE :: u8
  TYPE_IO_FLUSH :: u8
  TYPE_CONFIG_PHYSICALDISK :: u8
  TYPE_CONFIG_LOGICALDISK :: u8
  TYPE_CONFIG_SERVICES :: u8

definition sample_etw :: etw_consts where
  "sample_etw = \<lparr>
     SystemProcessProviderGuid = 0x151f55dc467d471f83b55f889d46ff66,
     SystemSchedulerProviderGuid = 0x599a2a764d9149109ac77d33f2e97a6c,
     SystemInterruptProviderGuid = 0xd4bbee17b5454888858b744169015b25,
     SystemMemoryProviderGuid = 0x82958ca9b6cd47f8a3a803ae85a4bc24,
     SystemIoProviderGuid = 0x3d5c43e30f1c4202b817174c0070dc79,
     SystemConfigProviderGuid = 0xfef3a8b6318d4b67a96a3b0f6b8f18fe,
     etw_SystemRegistryProviderGuid = 0x16156bd9fab44cfaa23289d1099058e3,
     DiskIoKernelGuid = 0x3d6fa8d4fe0511d09dda00c04fd7ba7c,
     ProcessKernelGuid = 0x3d6fa8d0fe0511d09dda00c04fd7ba7c,
     TcpIpKernelGuid = 0x9a280ac0c8e011d184e200c04fb998a2,
     UdpIpKernelGuid = 0xbf3a50c5a9c94988a0052df0b7c80f80,
     SystemTraceControlGuid = 0x9e814aad320411d29a82006008a86939,
     FLAG_PROCESS = 0x1, FLAG_THREAD = 0x2, FLAG_IMAGE_LOAD = 0x4, FLAG_DISK_IO = 0x100,
     FLAG_CSWITCH = 0x10, FLAG_DISPATCHER = 0x800, FLAG_INTERRUPT = 0x40, FLAG_DPC = 0x20,
     FLAG_NETWORK_TCPIP = 0x10000, FLAG_MEMORY_HARD_FAULTS = 0x2000, FLAG_REGISTRY = 0x20000,
     FLAG_PROFILE = 0x1000000,
     PROCESS_KW_GENERAL = 0x1, PROCESS_KW_THREAD = 0x800, PROCESS_KW_LOADER = 0x1000,
     IO_KW_DISK = 0x1, IO_KW_NETWORK = 0x10, CONFIG_KW_STORAGE = 0x8,
     SCHEDULER_KW_CONTEXT_SWITCH = 0x400, SCHEDULER_KW_DISPATCHER = 0x2,
     INTERRUPT_KW_GENERAL = 0x1, INTERRUPT_KW_DPC = 0x4, MEMORY_KW_HARD_FAULTS = 0x2, REGISTRY_KW_GENERAL = 0x1,
     TYPE_START = 1, TYPE_END = 2, TYPE_DC_START = 3, TYPE_DC_END = 4, TYPE_LOAD = 10,
     TYPE_IO_READ = 10, TYPE_IO_WRITE = 11, TYPE_IO_FLUSH = 14,
     TYPE_CONFIG_PHYSICALDISK = 11, TYPE_CONFIG_LOGICALDISK = 12, TYPE_CONFIG_SERVICES = 15\<rparr>"


section \<open>Groups\<close>

record etw_provider =
  Prov_Name :: string
  Prov_GUID :: guid
  Prov_EnableLevel :: u8
  Prov_MatchAnyKeyword :: u64
  Prov_MatchAllKeyword :: u64
  Prov_EnableProperties :: u32
  Prov_EventIds :: "u16 list"

text \<open>The zero value of the library's struct, and one with a name, a GUID and keywords.\<close>

definition newProcessCorrelationProvider :: etw_provider where
  "newProcessCorrelationProvider = \<lparr>Prov_Name = '''', Prov_GUID = 0, Prov_EnableLevel = 0, Prov_MatchAnyKeyword = 0,
     Prov_MatchAllKeyword = 0, Prov_EnableProperties = 0, Prov_EventIds = []\<rparr>"

definition system_provider :: "string \<Rightarrow> guid \<Rightarrow> u64 \<Rightarrow> etw_provider" where
  "system_provider name g kw = newProcessCorrelationProvider
     \<lparr>Prov_Name := name, Prov_GUID := g, Prov_MatchAnyKeyword := kw\<rparr>"

definition newKernelProcessCorrelationProvider :: "etw_consts \<Rightarrow> u32" where
  "newKernelProcessCorrelationProvider c = FLAG_PROCESS c OR FLAG_IMAGE_LOAD c"

text \<open>\<open>InitFunc\<close> is nil in every group.\<close>

record provider_group =
  PG_Name :: string
  PG_KernelFlags :: u32
  PG_ManifestProviders :: "etw_provider list"
  PG_SystemProviders :: "etw_provider list"
  PG_IsEnabled :: "collector_config \<Rightarrow> bool"

definition disk_io_group :: "etw_consts \<Rightarrow> provider_group" where
  "disk_io_group c = \<lparr>PG_Name = ''disk_io'',
     PG_KernelFlags = FLAG_DISK_IO c OR FLAG_THREAD c OR newKernelProcessCorrelationProvider c,
     PG_ManifestProviders = [],
     PG_SystemProviders =
       [system_provider ''SystemProcessProvider'' (SystemProcessProviderGuid c) (PROCESS_KW_THREAD c OR PROCESS_KW_GENERAL c),
        system_provider ''SystemIoProvider'' (SystemIoProviderGuid c) (IO_KW_DISK c),
        system_provider ''SystemConfigProvider'' (SystemConfigProviderGuid c) (CONFIG_KW_STORAGE c)],
     PG_IsEnabled = DiskIO_Enabled\<rparr>"

definition threadcs_group :: "etw_consts \<Rightarrow> provider_group" where
  "threadcs_group c = \<lparr>PG_Name = ''threadcs'',
     PG_KernelFlags = FLAG_CSWITCH c OR FLAG_THREAD c OR FLAG_DISPATCHER c OR newKernelProcessCorrelationProvider c,
     PG_ManifestProviders = [newProcessCorrelationProvider],
     PG_SystemProviders =
       [system_provider ''SystemSchedulerProvider'' (SystemSchedulerProviderGuid c)
          (SCHEDULER_KW_CONTEXT_SWITCH c OR SCHEDULER_KW_DISPATCHER c),
        system_provider ''SystemProcessProvider'' (SystemProcessProviderGuid c) (PROCESS_KW_THREAD c OR PROCESS_KW_GENERAL c)],
     PG_IsEnabled = ThreadCS_Enabled\<rparr>"

definition perfinfo_group :: "etw_consts \<Rightarrow> provider_group" where
  "perfinfo_group c = \<lparr>PG_Name = ''perfinfo'',
     PG_KernelFlags = FLAG_INTERRUPT c OR FLAG_DPC c OR FLAG_IMAGE_LOAD c OR FLAG_CSWITCH c,
     PG_ManifestProviders = [],
     PG_SystemProviders =
       [system_provider ''SystemInterruptProvider'' (SystemInterruptProviderGuid c)
          (INTERRUPT_KW_GENERAL c OR INTERRUPT_KW_DPC c),
        system_provider ''SystemSchedulerProvider'' (SystemSchedulerProviderGuid c) (SCHEDULER_KW_CONTEXT_SWITCH c),
        system_provider ''SystemProcessProvider'' (SystemProcessProviderGuid c) (PROCESS_KW_LOADER c)],
     PG_IsEnabled = (\<lambda>cfg. Perf_Enabled (Cfg_PerfInfo cfg))\<rparr>"

definition network_group :: "etw_consts \<Rightarrow> provider_group" where
  "network_group c = \<lparr>PG_Name = ''network'',
     PG_KernelFlags = FLAG_NETWORK_TCPIP c OR newKernelProcessCorrelationProvider c,
     PG_ManifestProviders = [newProcessCorrelationProvider],
     PG_SystemProviders =
       [system_provider ''SystemProcessProvider'' (SystemProcessProviderGuid c) (PROCESS_KW_GENERAL c),
        system_provider ''SystemIoProvider'' (SystemIoProviderGuid c) (IO_KW_NETWORK c)],
     PG_IsEnabled = (\<lambda>cfg. Net_Enabled (Cfg_Network cfg))\<rparr>"

definition memory_group :: "etw_consts \<Rightarrow> provider_group" where
  "memory_group c = \<lparr>PG_Name = ''memory'',
     PG_KernelFlags = FLAG_MEMORY_HARD_FAULTS c OR FLAG_THREAD c OR newKernelProcessCorrelationProvider c,
     PG_ManifestProviders = [newProcessCorrelationProvider],
     PG_SystemProviders =
       [system_provider ''SystemMemoryProvider'' (SystemMemoryProviderGuid c) (MEMORY_KW_HARD_FAULTS c),
        system_provider ''SystemProcessProvider'' (SystemProcessProviderGuid c) (PROCESS_KW_THREAD c OR PROCESS_KW_GENERAL c)],
     PG_IsEnabled = (\<lambda>cfg. MemCfg_Enabled (Cfg_Memory cfg))\<rparr>"

definition registry_group :: "etw_consts \<Rightarrow> provider_group" where
  "registry_group c = \<lparr>PG_Name = ''registry'',
     PG_KernelFlags = FLAG_REGISTRY c OR newKernelProcessCorrelationProvider c,
     PG_ManifestProviders = [newProcessCorrelationProvider],
     PG_SystemProviders =
       [system_provider ''SystemRegistryProvider'' SystemRegistryProviderGuid (REGISTRY_KW_GENERAL c),
        system_provider ''SystemProcessProvider'' (SystemProcessProviderGuid c) (PROCESS_KW_GENERAL c)],
     PG_IsEnabled = (\<lambda>cfg. RegCfg_Enabled (Cfg_Registry cfg))\<rparr>"

definition AllProviderGroups :: "etw_consts \<Rightarrow> provider_group list" where
  "AllProviderGroups c = [disk_io_group c, threadcs_group c, perfinfo_group c, network_group c,
     memory_group c, registry_group c]"


section \<open>Combination\<close>

definition GetEnabledProviders :: "etw_consts \<Rightarrow> collector_config \<Rightarrow> provider_group list" where
  "GetEnabledProviders c cfg = filter (\<lambda>g. PG_IsEnabled g cfg) (AllProviderGroups c)"

definition IsProcessManagerNeeded :: "etw_consts \<Rightarrow> collector_config \<Rightarrow> bool" where
  "IsProcessManagerNeeded c cfg = list_ex (\<lambda>g.
     PG_KernelFlags g AND FLAG_PROCESS c \<noteq> 0
     \<or> list_ex (\<lambda>p. Prov_GUID p = MicrosoftWindowsKernelProcessGUID) (PG_ManifestProviders g)
     \<or> list_ex (\<lambda>p. Prov_GUID p = SystemProcessProviderGuid c
          \<and> Prov_MatchAnyKeyword p AND PROCESS_KW_GENERAL c \<noteq> 0) (PG_SystemProviders g))
     (GetEnabledProviders c cfg)"

definition or_flags :: "provider_group list \<Rightarrow> u32" where
  "or_flags gs = fold (\<lambda>g flags. flags OR PG_KernelFlags g) gs 0"

definition GetEnabledKernelFlags :: "etw_consts \<Rightarrow> collector_config \<Rightarrow> u32" where
  "GetEnabledKernelFlags c cfg = or_flags (filter (\<lambda>g. PG_IsEnabled g cfg) (AllProviderGroups c))"

definition merge_provider :: "etw_provider \<Rightarrow> etw_provider \<Rightarrow> etw_provider" where
  "merge_provider p existing = existing
     \<lparr>Prov_MatchAnyKeyword := Prov_MatchAnyKeyword existing OR Prov_MatchAnyKeyword p,
      Prov_MatchAllKeyword := Prov_MatchAllKeyword existing OR Prov_MatchAllKeyword p,
      Prov_EnableProperties := Prov_EnableProperties existing OR Prov_EnableProperties p,
      Prov_EnableLevel := (if Prov_EnableLevel p > Prov_EnableLevel existing
                           then Prov_EnableLevel p else Prov_EnableLevel existing)\<rparr>"

definition add_provider :: "etw_provider \<Rightarrow> (guid, etw_provider) cmap \<Rightarrow> (guid, etw_provider) cmap" where
  "add_provider p m = cm_store (Prov_GUID p)
     (case cm_load (Prov_GUID p) m of Some existing \<Rightarrow> merge_provider p existing | None \<Rightarrow> p) m"

definition combine_providers :: "etw_provider list \<Rightarrow> etw_provider list" where
  "combine_providers ps = map snd (cm_entries (fold add_provider ps cm_empty))"

definition GetEnabledManifestProviders :: "etw_consts \<Rightarrow> collector_config \<Rightarrow> etw_provider list" where
  "GetEnabledManifestProviders c cfg = combine_providers
     (concat (map PG_ManifestProviders (filter (\<lambda>g. PG_IsEnabled g cfg) (AllProviderGroups c))))"

definition GetEnabledSystemProviders :: "etw_consts \<Rightarrow> collector_config \<Rightarrow> etw_provider list" where
  "GetEnabledSystemProviders c cfg = combine_providers
     (concat (map PG_SystemProviders (filter (\<lambda>g. PG_IsEnabled g cfg) (AllProviderGroups c))))"

section \<open>What is combined\<close>

lemma merge_provider_GUID [simp]: "Prov_GUID (merge_provider p e) = Prov_GUID e"
  by (simp add: merge_provider_def)

lemma add_provider_invar: "cm_invar m \<Longrightarrow> cm_invar (add_provider p m)"
  by (simp add: add_provider_def cm_invar_store)

text \<open>The map built from a list: one entry per GUID, whose keywords are those of all its providers.\<close>

lemma fold_add_provider:
  fixes ps :: "etw_provider list"
  defines "m \<equiv> fold add_provider ps cm_empty"
  shows "cm_invar m \<and> (\<forall>g r. cm_load g m = Some r \<longrightarrow> Prov_GUID r = g
      \<and> (\<forall>n. bit (Prov_MatchAnyKeyword r) n \<longleftrightarrow> (\<exists>p \<in> set ps. Prov_GUID p = g \<and> bit (Prov_MatchAnyKeyword p) n)))
    \<and> (\<forall>g. cm_load g m \<noteq> None \<longleftrightarrow> g \<in> Prov_GUID ` set ps)"
  unfolding m_def
proof (induction ps rule: rev_induct)
  case (snoc p ps)
  let ?m = "fold add_provider ps cm_empty"
  have inv: "cm_invar (add_provider p ?m)" using snoc by (simp add: add_provider_invar)
  moreover have "Prov_GUID r = g \<and> (\<forall>n. bit (Prov_MatchAnyKeyword r) n \<longleftrightarrow>
      (\<exists>q \<in> set (ps @ [p]). Prov_GUID q = g \<and> bit (Prov_MatchAnyKeyword q) n))"
    if r: "cm_load g (add_provider p ?m) = Some r" for g r
  proof (cases "g = Prov_GUID p")
    case True
    show ?thesis
    proof (cases "cm_load g ?m")
      case None
      then have "\<forall>q \<in> set ps. Prov_GUID q \<noteq> g" using snoc by (metis image_eqI)
      then show ?thesis using r None True by (auto simp: add_provider_def)
    next
      case (Some e)
      then have e: "Prov_GUID e = g" "\<And>n. bit (Prov_MatchAnyKeyword e) n \<longleftrightarrow>
          (\<exists>q \<in> set ps. Prov_GUID q = g \<and> bit (Prov_MatchAnyKeyword q) n)" using snoc by blast+
      have "r = merge_provider p e" using r Some True by (simp add: add_provider_def)
      then have "Prov_GUID r = g" and b: "bit (Prov_MatchAnyKeyword r) n \<longleftrightarrow>
          bit (Prov_MatchAnyKeyword e) n \<or> bit (Prov_MatchAnyKeyword p) n" for n
        using e(1) by (simp_all add: merge_provider_def bit_or_iff)
      moreover have "bit (Prov_MatchAnyKeyword r) n \<longleftrightarrow>
          (\<exists>q \<in> set (ps @ [p]). Prov_GUID q = g \<and> bit (Prov_MatchAnyKeyword q) n)" for n
        using b [of n] e(2) [of n] True by simp blast
      ultimately show ?thesis by blast
    qed
  next
    case False
    then have "cm_load g ?m = Some r" using r by (simp add: add_provider_def)
    then show ?thesis using snoc False by auto
  qed
  moreover have "cm_load g (add_provider p ?m) \<noteq> None \<longleftrightarrow> g \<in> Prov_GUID ` set (ps @ [p])" for g
  proof -
    have "cm_load g ?m \<noteq> None \<longleftrightarrow> g \<in> Prov_GUID ` set ps" using snoc by blast
    then show ?thesis by (simp add: add_provider_def)
  qed
  moreover have "fold add_provider (ps @ [p]) cm_empty = add_provider p ?m" by simp
  ultimately show ?case unfolding \<open>fold add_provider (ps @ [p]) cm_empty = add_provider p ?m\<close> by blast
qed simp

lemma combine_providers_exact:
  "distinct (map Prov_GUID (combine_providers ps))"
  "Prov_GUID ` set (combine_providers ps) = Prov_GUID ` set ps"
  "{(Prov_GUID r, n) | r n. r \<in> set (combine_providers ps) \<and> bit (Prov_MatchAnyKeyword r) n} =
   {(Prov_GUID p, n) | p n. p \<in> set ps \<and> bit (Prov_MatchAnyKeyword p) n}"
proof -
  define m where "m = fold add_provider ps cm_empty"
  have m: "cm_invar m" "\<And>g r. (g, r) \<in> set m \<Longrightarrow> Prov_GUID r = g"
    "\<And>g r n. (g, r) \<in> set m \<Longrightarrow> bit (Prov_MatchAnyKeyword r) n \<longleftrightarrow>
       (\<exists>p \<in> set ps. Prov_GUID p = g \<and> bit (Prov_MatchAnyKeyword p) n)"
    "\<And>g. (\<exists>r. (g, r) \<in> set m) \<longleftrightarrow> g \<in> Prov_GUID ` set ps"
  proof -
    note f = fold_add_provider [of ps, folded m_def]
    show inv: "cm_invar m" using f by blast
    note e = cm_entries_load [OF inv]
    show "Prov_GUID r = g" if "(g, r) \<in> set m" for g r using f that unfolding e by blast
    show "bit (Prov_MatchAnyKeyword r) n \<longleftrightarrow> (\<exists>p \<in> set ps. Prov_GUID p = g \<and> bit (Prov_MatchAnyKeyword p) n)"
      if "(g, r) \<in> set m" for g r n using f that unfolding e by blast
    show "(\<exists>r. (g, r) \<in> set m) \<longleftrightarrow> g \<in> Prov_GUID ` set ps" for g using f unfolding e by blast
  qed
  have rs: "combine_providers ps = map snd m" by (simp add: combine_providers_def m_def cm_entries_def)
  have keys: "map Prov_GUID (map snd m) = map fst m" using m(2) by auto
  show "distinct (map Prov_GUID (combine_providers ps))"
    unfolding rs keys using m(1) by (simp add: cm_invar_def)
  have "Prov_GUID ` set (map snd m) = fst ` set m" using keys by (metis list.set_map)
  also have "fst ` set m = {g. \<exists>r. (g, r) \<in> set m}" by force
  finally show "Prov_GUID ` set (combine_providers ps) = Prov_GUID ` set ps"
    unfolding rs m(4) by simp
  show "{(Prov_GUID r, n) | r n. r \<in> set (combine_providers ps) \<and> bit (Prov_MatchAnyKeyword r) n} =
     {(Prov_GUID p, n) | p n. p \<in> set ps \<and> bit (Prov_MatchAnyKeyword p) n}" (is "?L = ?R")
  proof
    show "?L \<subseteq> ?R"
    proof clarify
      fix r n assume r: "r \<in> set (combine_providers ps)" "bit (Prov_MatchAnyKeyword r) n"
      then obtain g where g: "(g, r) \<in> set m" unfolding rs by auto
      then obtain p where "p \<in> set ps" "Prov_GUID p = g" "bit (Prov_MatchAnyKeyword p) n"
        using r m(3) by blast
      then show "\<exists>p n'. (Prov_GUID r, n) = (Prov_GUID p, n') \<and> p \<in> set ps \<and> bit (Prov_MatchAnyKeyword p) n'"
        using m(2) [OF g] by blast
    qed
    show "?R \<subseteq> ?L"
    proof clarify
      fix p n assume p: "p \<in> set ps" "bit (Prov_MatchAnyKeyword p) n"
      then obtain r where r: "(Prov_GUID p, r) \<in> set m" using m(4) by blast
      have "bit (Prov_MatchAnyKeyword r) n" using m(3) [OF r] p by blast
      then show "\<exists>r n'. (Prov_GUID p, n) = (Prov_GUID r, n') \<and> r \<in> set (combine_providers ps)
          \<and> bit (Prov_MatchAnyKeyword r) n'"
        unfolding rs using r m(2) [OF r] by (intro exI [of _ r] exI [of _ n]) force
    qed
  qed
qed

lemma bit_or_flags: "bit (or_flags gs) n \<longleftrightarrow> (\<exists>g \<in> set gs. bit (PG_KernelFlags g) n)"
proof -
  have "bit (fold (\<lambda>g flags. flags OR PG_KernelFlags g) gs w) n \<longleftrightarrow> bit w n \<or> (\<exists>g \<in> set gs. bit (PG_KernelFlags g) n)"
    for w by (induction gs arbitrary: w) (auto simp: bit_or_iff)
  then show ?thesis by (simp add: or_flags_def)
qed

text \<open>C39. The exporter asks Windows for what the enabled collectors need and for nothing else: a
  kernel flag is set iff an enabled group sets it, each system provider is enabled once, and a
  keyword of a provider is requested iff an enabled group requests it there.\<close>

theorem enabled_providers_exact:
  "let gs = set (GetEnabledProviders c cfg);
       rs = GetEnabledSystemProviders c cfg;
       req = (\<Union>g \<in> gs. set (PG_SystemProviders g))
   in {n. bit (GetEnabledKernelFlags c cfg) n} = (\<Union>g \<in> gs. {n. bit (PG_KernelFlags g) n})
    \<and> distinct (map Prov_GUID rs) \<and> Prov_GUID ` set rs = Prov_GUID ` req
    \<and> {(Prov_GUID r, n) | r n. r \<in> set rs \<and> bit (Prov_MatchAnyKeyword r) n} =
      {(Prov_GUID p, n) | p n. p \<in> req \<and> bit (Prov_MatchAnyKeyword p) n}"
  using combine_providers_exact [of "concat (map PG_SystemProviders (GetEnabledProviders c cfg))"]
  by (auto simp: Let_def GetEnabledKernelFlags_def bit_or_flags GetEnabledSystemProviders_def
      GetEnabledProviders_def [symmetric])

text \<open>Every manifest provider is the empty one: zero GUID, no keyword.\<close>

lemma combine_empty: "combine_providers (replicate (Suc n) newProcessCorrelationProvider) = [newProcessCorrelationProvider]"
proof -
  let ?e = newProcessCorrelationProvider
  have "merge_provider ?e ?e = ?e" by (simp add: merge_provider_def newProcessCorrelationProvider_def)
  then have "add_provider ?e [(0, ?e)] = [(0, ?e)]"
    by (simp add: add_provider_def cm_load_def cm_store_def newProcessCorrelationProvider_def)
  then have "fold add_provider (replicate n ?e) [(0, ?e)] = [(0, ?e)]" by (induction n) auto
  moreover have "add_provider ?e cm_empty = [(0, ?e)]"
    by (simp add: add_provider_def cm_store_def cm_empty_def cm_load_def newProcessCorrelationProvider_def)
  ultimately show ?thesis by (simp add: combine_providers_def cm_entries_def)
qed

definition wants_correlation :: "collector_config \<Rightarrow> bool" where
  "wants_correlation cfg \<longleftrightarrow> ThreadCS_Enabled cfg \<or> Net_Enabled (Cfg_Network cfg)
     \<or> MemCfg_Enabled (Cfg_Memory cfg) \<or> RegCfg_Enabled (Cfg_Registry cfg)"

lemmas group_defs = AllProviderGroups_def disk_io_group_def threadcs_group_def perfinfo_group_def
  network_group_def memory_group_def registry_group_def

lemma manifest_providers_empty:
  "GetEnabledManifestProviders c cfg = (if wants_correlation cfg then [newProcessCorrelationProvider] else [])"
proof -
  define ps where "ps = concat (map PG_ManifestProviders (filter (\<lambda>g. PG_IsEnabled g cfg) (AllProviderGroups c)))"
  have "\<forall>p \<in> set ps. p = newProcessCorrelationProvider" by (auto simp: ps_def group_defs)
  then have r: "ps = replicate (length ps) newProcessCorrelationProvider" by (simp add: replicate_length_same)
  have len: "ps \<noteq> [] \<longleftrightarrow> wants_correlation cfg" by (auto simp: ps_def group_defs wants_correlation_def)
  show ?thesis
  proof (cases "length ps")
    case 0
    then show ?thesis using len
      by (simp add: GetEnabledManifestProviders_def ps_def [symmetric] combine_providers_def cm_entries_def cm_empty_def)
  next
    case (Suc n)
    then have "combine_providers ps = [newProcessCorrelationProvider]" using r combine_empty by metis
    then show ?thesis using len Suc by (auto simp: GetEnabledManifestProviders_def ps_def [symmetric])
  qed
qed

text \<open>Interrupt metrics alone do not need the process manager, everything else does.\<close>

lemma process_manager_needed:
  assumes "FLAG_PROCESS c \<noteq> 0" "PROCESS_KW_LOADER c AND PROCESS_KW_GENERAL c = 0"
    and "(FLAG_INTERRUPT c OR FLAG_DPC c OR FLAG_IMAGE_LOAD c OR FLAG_CSWITCH c) AND FLAG_PROCESS c = 0"
    and "SystemProcessProviderGuid c \<notin> {SystemInterruptProviderGuid c, SystemSchedulerProviderGuid c}"
  shows "IsProcessManagerNeeded c cfg \<longleftrightarrow> DiskIO_Enabled cfg \<or> wants_correlation cfg"
proof -
  have f: "(x OR newKernelProcessCorrelationProvider c) AND FLAG_PROCESS c \<noteq> 0" for x
  proof -
    have "FLAG_PROCESS c AND (x OR newKernelProcessCorrelationProvider c) = FLAG_PROCESS c"
      by (rule bit_eqI) (auto simp: bit_simps newKernelProcessCorrelationProvider_def)
    then show ?thesis using assms(1) by (simp add: and.commute)
  qed
  show ?thesis
    using assms f [of "FLAG_DISK_IO c OR FLAG_THREAD c"] f [of "FLAG_CSWITCH c OR FLAG_THREAD c OR FLAG_DISPATCHER c"]
      f [of "FLAG_NETWORK_TCPIP c"] f [of "FLAG_MEMORY_HARD_FAULTS c OR FLAG_THREAD c"] f [of "FLAG_REGISTRY c"]
    by (auto simp: IsProcessManagerNeeded_def GetEnabledProviders_def group_defs system_provider_def
        wants_correlation_def or.assoc)
qed

end
