(* ===== verification/Event_Router.thy ===== *)
theory Event_Router
  imports Exporter Provider_Groups
begin

text \<open>
  The event handler (\<open>internal/etw/event_handler.go\<close>): routing tables from provider GUID and
  event id to handlers, the registrations of every handler (their \<open>RegisterRoutes\<close>), the two
  stages an event goes through, the per-provider event counters, and the construction of the
  exporter's handlers and collectors from the configuration.

  A handler function is a value of \<open>handler_name\<close>; \<open>run_handler\<close> says which action of
  \<open>Exporter\<close> it performs. Go iterates over the route maps in any order; the lists here are one
  order, and \<open>register_any_order\<close> says that it does not matter.
\<close>

section \<open>Handlers and tables\<close>

datatype handler_name =
    H_Kernel kernel_event | H_Disk disk_event | H_Net bool net_event | H_Memory | H_Registry bool
  | H_Thread thread_event | H_Sys sys_event | H_Perf perf_event | H_SessionStop

record handler_union =
  preparedHandler :: "handler_name option"
  rawHandler :: "handler_name option"

definition no_handler :: handler_union where
  "no_handler = \<lparr>preparedHandler = None, rawHandler = None\<rparr>"

definition prepared :: "handler_name \<Rightarrow> handler_union" where
  "prepared h = \<lparr>preparedHandler = Some h, rawHandler = None\<rparr>"

definition raw :: "handler_name \<Rightarrow> handler_union" where
  "raw h = \<lparr>preparedHandler = None, rawHandler = Some h\<rparr>"

record provider_handlers =
  ph_slice :: "handler_union list"
  ph_overflowMap :: "(u16, handler_union) cmap option"
  ph_maxSliceEventID :: u16

definition newProviderHandlers :: provider_handlers where
  "newProviderHandlers = \<lparr>ph_slice = [], ph_overflowMap = None, ph_maxSliceEventID = 256\<rparr>"

definition ph_get :: "provider_handlers \<Rightarrow> u16 \<Rightarrow> handler_union" where
  "ph_get pr eventID =
     (if eventID < ph_maxSliceEventID pr
      then if unat eventID < length (ph_slice pr) then ph_slice pr ! unat eventID else no_handler
      else case ph_overflowMap pr of Some m \<Rightarrow> get_or no_handler eventID m | None \<Rightarrow> no_handler)"

datatype event_counter = C_Disk | C_Process | C_Thread | C_File | C_PerfInfo | C_SystemConfig | C_Image
  | C_PageFault | C_Network | C_Registry | C_SessionWatcher

record event_handler =
  routeMap :: "(guid, provider_handlers) cmap"
  guidToCounter :: "(guid, event_counter) cmap"
  eventCounts :: "event_counter \<Rightarrow> u64"

text \<open>
  The slice grows to \<open>eventID + 1\<close> elements when the id does not fit. Ids of the slice are below
  256, so neither the sum nor the index can go out of range, see \<open>grow_slice_length\<close>.
\<close>

definition grow_slice :: "u16 \<Rightarrow> handler_union list \<Rightarrow> handler_union list" where
  "grow_slice eventID xs = (if unat eventID \<ge> length xs
     then xs @ replicate (Suc (unat eventID) - length xs) no_handler else xs)"

definition add_handler :: "u16 \<Rightarrow> handler_union \<Rightarrow> provider_handlers \<Rightarrow> provider_handlers" where
  "add_handler eventID h routes =
     (if eventID < ph_maxSliceEventID routes
      then routes\<lparr>ph_slice := (grow_slice eventID (ph_slice routes))[unat eventID := h]\<rparr>
      else routes\<lparr>ph_overflowMap :=
        Some (cm_store eventID h (case ph_overflowMap routes of Some m \<Rightarrow> m | None \<Rightarrow> cm_empty))\<rparr>)"

definition addRoute :: "guid \<Rightarrow> u16 \<Rightarrow> handler_union \<Rightarrow> event_handler \<Rightarrow> event_handler" where
  "addRoute g eventID h eh = eh\<lparr>routeMap :=
     cm_store g (add_handler eventID h (get_or newProviderHandlers g (routeMap eh))) (routeMap eh)\<rparr>"

definition AddRoute :: "guid \<Rightarrow> u16 \<Rightarrow> handler_name \<Rightarrow> event_handler \<Rightarrow> event_handler" where
  "AddRoute g eventID h = addRoute g eventID (prepared h)"

definition AddRawRoute :: "guid \<Rightarrow> u16 \<Rightarrow> handler_name \<Rightarrow> event_handler \<Rightarrow> event_handler" where
  "AddRawRoute g eventID h = addRoute g eventID (raw h)"


section \<open>Registrations\<close>

datatype route = Prepared guid u16 handler_name | Raw guid u16 handler_name

fun add_one :: "route \<Rightarrow> event_handler \<Rightarrow> event_handler" where
  "add_one (Prepared g i h) = AddRoute g i h"
| "add_one (Raw g i h) = AddRawRoute g i h"

definition register :: "route list \<Rightarrow> event_handler \<Rightarrow> event_handler" where
  "register rs eh = fold add_one rs eh"

definition RegisterRoutesForGUID :: "guid \<Rightarrow> (u8 \<times> handler_name) list \<Rightarrow> route list" where
  "RegisterRoutesForGUID g routes = map (\<lambda>(eventType, h). Prepared g (ucast eventType) h) routes"

definition RegisterRawRoutesForGUID :: "guid \<Rightarrow> (u8 \<times> handler_name) list \<Rightarrow> route list" where
  "RegisterRawRoutesForGUID g routes = map (\<lambda>(eventType, h). Raw g (ucast eventType) h) routes"

definition process_mof_routes :: "etw_consts \<Rightarrow> route list" where
  "process_mof_routes c = RegisterRoutesForGUID ProcessKernelGUID
     [(TYPE_START c, H_Kernel Proc_Start_Mof), (TYPE_DC_START c, H_Kernel Proc_Start_Mof),
      (TYPE_END c, H_Kernel Proc_End_Mof)]"

definition process_manifest_routes :: "route list" where
  "process_manifest_routes =
     [Prepared MicrosoftWindowsKernelProcessGUID 1 (H_Kernel Proc_Start),
      Prepared MicrosoftWindowsKernelProcessGUID 15 (H_Kernel Proc_Start),
      Prepared MicrosoftWindowsKernelProcessGUID 2 (H_Kernel Proc_End),
      Raw MicrosoftWindowsKernelProcessGUID 3 (H_Kernel Thread_Start),
      Raw MicrosoftWindowsKernelProcessGUID 4 (H_Kernel Thread_End),
      Prepared MicrosoftWindowsKernelProcessGUID 5 (H_Kernel Image_Load),
      Prepared MicrosoftWindowsKernelProcessGUID 6 (H_Kernel Image_Unload)]"

definition image_routes :: "etw_consts \<Rightarrow> route list" where
  "image_routes c =
     (let imageRoutes = [(TYPE_LOAD c, H_Kernel Image_Load_Mof), (TYPE_DC_START c, H_Kernel Image_Load_Mof),
            (TYPE_DC_END c, H_Kernel Image_Load_Mof), (TYPE_END c, H_Kernel Image_Unload_Mof)]
      in RegisterRoutesForGUID ImageKernelGUID imageRoutes
         @ RegisterRoutesForGUID (SystemProcessProviderGuid c) imageRoutes)"

definition sysconfig_routes :: "etw_consts \<Rightarrow> route list" where
  "sysconfig_routes c =
     (let configRoutes = [(TYPE_CONFIG_PHYSICALDISK c, H_Sys Sys_PhyDisk),
            (TYPE_CONFIG_LOGICALDISK c, H_Sys Sys_LogDisk), (TYPE_CONFIG_SERVICES c, H_Sys Sys_Services)]
      in RegisterRoutesForGUID SystemConfigGUID configRoutes
         @ RegisterRoutesForGUID (SystemConfigProviderGuid c) configRoutes)"

definition thread_routes :: "etw_consts \<Rightarrow> route list" where
  "thread_routes c =
     (let threadRoutes = [(TYPE_START c, H_Thread T_Start), (TYPE_DC_START c, H_Thread T_Start),
            (TYPE_DC_END c, H_Thread T_Start), (TYPE_END c, H_Thread T_End),
            (50, H_Thread T_Ready), (36, H_Thread T_Switch)]
      in RegisterRawRoutesForGUID ThreadKernelGUID threadRoutes
         @ RegisterRawRoutesForGUID (SystemSchedulerProviderGuid c) threadRoutes)"

definition disk_mof_routes :: "etw_consts \<Rightarrow> route list" where
  "disk_mof_routes c =
     (let diskIoRoutesRaw = [(TYPE_IO_READ c, H_Disk Disk_Read), (TYPE_IO_WRITE c, H_Disk Disk_Write),
            (TYPE_IO_FLUSH c, H_Disk Disk_Flush)]
      in RegisterRawRoutesForGUID (DiskIoKernelGuid c) diskIoRoutesRaw
         @ RegisterRawRoutesForGUID (SystemIoProviderGuid c) diskIoRoutesRaw)"

definition disk_manifest_routes :: "etw_consts \<Rightarrow> route list" where
  "disk_manifest_routes c = RegisterRoutesForGUID MicrosoftWindowsKernelDiskGUID
     [(TYPE_IO_READ c, H_Disk Disk_Read_Manifest), (TYPE_IO_WRITE c, H_Disk Disk_Write_Manifest),
      (TYPE_IO_FLUSH c, H_Disk Disk_Flush_Manifest)]"

definition perf_routes :: "etw_consts \<Rightarrow> route list" where
  "perf_routes c =
     (let perfInfoRoutes = [(67, H_Perf P_ISR), (66, H_Perf P_DPC), (68, H_Perf P_DPC), (69, H_Perf P_DPC),
            (46, H_Perf P_Sample)]
      in RegisterRawRoutesForGUID PerfInfoKernelGUID perfInfoRoutes
         @ RegisterRawRoutesForGUID (SystemInterruptProviderGuid c) perfInfoRoutes)"

definition networkRoutesTCP :: "(u8 \<times> handler_name) list" where
  "networkRoutesTCP = [(10, H_Net False TCP_Sent), (26, H_Net False TCP_Sent),
     (11, H_Net False TCP_Received), (27, H_Net False TCP_Received),
     (12, H_Net False TCP_Attempted), (28, H_Net False TCP_Attempted),
     (15, H_Net False TCP_Accepted), (31, H_Net False TCP_Accepted),
     (14, H_Net False TCP_Retransmitted), (30, H_Net False TCP_Retransmitted),
     (17, H_Net False TCP_Failed)]"

definition networkRoutesUDP :: "(u8 \<times> handler_name) list" where
  "networkRoutesUDP = [(42, H_Net False UDP_Sent), (58, H_Net False UDP_Sent),
     (43, H_Net False UDP_Received), (59, H_Net False UDP_Received), (49, H_Net False UDP_Failed)]"

definition network_mof_routes :: "etw_consts \<Rightarrow> route list" where
  "network_mof_routes c =
     RegisterRawRoutesForGUID (TcpIpKernelGuid c) networkRoutesTCP
     @ RegisterRawRoutesForGUID (SystemIoProviderGuid c) networkRoutesTCP
     @ RegisterRawRoutesForGUID (UdpIpKernelGuid c) networkRoutesUDP
     @ RegisterRawRoutesForGUID (SystemIoProviderGuid c) networkRoutesUDP"

definition network_manifest_routes :: "route list" where
  "network_manifest_routes = map (\<lambda>(i, ev). Prepared MicrosoftWindowsKernelNetworkGUID i (H_Net True ev))
     [(10, TCP_Sent), (26, TCP_Sent), (11, TCP_Received), (27, TCP_Received), (12, TCP_Attempted),
      (28, TCP_Attempted), (15, TCP_Accepted), (31, TCP_Accepted), (14, TCP_Retransmitted),
      (30, TCP_Retransmitted), (17, TCP_Failed), (42, UDP_Sent), (58, UDP_Sent), (43, UDP_Received),
      (59, UDP_Received), (49, UDP_Failed)]"

definition memory_routes :: "etw_consts \<Rightarrow> route list" where
  "memory_routes c =
     RegisterRawRoutesForGUID PageFaultKernelGUID [(32, H_Memory)]
     @ RegisterRawRoutesForGUID (SystemMemoryProviderGuid c) [(32, H_Memory)]"

definition registry_routes :: "route list" where
  "registry_routes = concat (map (\<lambda>i.
     [Prepared RegistryKernelGUID (of_nat i) (H_Registry False),
      Prepared SystemRegistryProviderGuid (of_nat i) (H_Registry False)]) [10..<51])"

definition RegisterWatcherRoutes :: "event_handler \<Rightarrow> event_handler" where
  "RegisterWatcherRoutes = AddRoute MicrosoftWindowsKernelEventTracingGUID 11 H_SessionStop"

text \<open>What \<open>NewEventHandler\<close> registers, in its order.\<close>

definition all_routes :: "etw_consts \<Rightarrow> route list" where
  "all_routes c = process_mof_routes c @ image_routes c @ sysconfig_routes c @ thread_routes c
     @ disk_mof_routes c @ perf_routes c @ network_mof_routes c @ memory_routes c"

definition counter_table :: "etw_consts \<Rightarrow> (guid \<times> event_counter) list" where
  "counter_table c =
     [(SystemConfigGUID, C_SystemConfig),
      (MicrosoftWindowsKernelDiskGUID, C_Disk), (DiskIoKernelGuid c, C_Disk),
      (MicrosoftWindowsKernelProcessGUID, C_Process), (ProcessKernelGuid c, C_Process),
      (MicrosoftWindowsKernelNetworkGUID, C_Network), (TcpIpKernelGuid c, C_Network), (UdpIpKernelGuid c, C_Network),
      (MicrosoftWindowsKernelFileGUID, C_File), (ThreadKernelGUID, C_Thread),
      (PerfInfoKernelGUID, C_PerfInfo), (ImageKernelGUID, C_Image), (PageFaultKernelGUID, C_PageFault),
      (RegistryKernelGUID, C_Registry), (MicrosoftWindowsKernelEventTracingGUID, C_SessionWatcher)]"

definition empty_event_handler :: "etw_consts \<Rightarrow> event_handler" where
  "empty_event_handler c = \<lparr>routeMap = cm_empty,
     guidToCounter = fold (\<lambda>(g, k). cm_store g k) (counter_table c) cm_empty, eventCounts = (\<lambda>_. 0)\<rparr>"

text \<open>The exporter's collectors, as the configuration enables them.\<close>

definition NewEventHandler :: "etw_consts \<Rightarrow> nat \<Rightarrow> collector_config \<Rightarrow> ksm \<Rightarrow> event_handler \<times> world" where
  "NewEventHandler c numCPU cfg sm =
     (register (all_routes c) (empty_event_handler c),
      \<lparr>W_k = sm,
       W_disk = (if DiskIO_Enabled cfg then Some NewDiskIOCustomCollector else None),
       W_net = (if Net_Enabled (Cfg_Network cfg) then Some (NewNetworkCollector (Cfg_Network cfg)) else None),
       W_mem = (if MemCfg_Enabled (Cfg_Memory cfg)
                then Some (NewMemoryCollector (MemCfg_EnablePerProcess (Cfg_Memory cfg))) else None),
       W_reg = (if RegCfg_Enabled (Cfg_Registry cfg)
                then Some (NewRegistryCollector (RegCfg_EnablePerProcess (Cfg_Registry cfg))) else None),
       W_thread = (NewThreadHandler numCPU)\<lparr>th_collector :=
                (if ThreadCS_Enabled cfg then Some (NewThreadCSCollector numCPU) else None)\<rparr>,
       W_sys = (if DiskIO_Enabled cfg
                then RequestMetrics [PhysicalDiskInfoMetricName, LogicalDiskInfoMetricName] NewSystemConfigCollector
                else NewSystemConfigCollector),
       W_perf = (if Perf_Enabled (Cfg_PerfInfo cfg)
                then Some (NewPerfInfoCollector (Cfg_EnablePerDriver (Cfg_PerfInfo cfg))
                  (Cfg_EnablePerCPU (Cfg_PerfInfo cfg)) (Cfg_EnableSMIDetection (Cfg_PerfInfo cfg)))
                else None),
       W_process = Process_Enabled cfg\<rparr>)"


section \<open>Dispatch\<close>

text \<open>The session watcher's handler works on the session manager, see \<open>Session_Manager\<close>; it does
  not touch the state here.\<close>

fun handler_action :: "nat option \<Rightarrow> 'e \<Rightarrow> handler_name \<Rightarrow> 'e action option" where
  "handler_action choice er (H_Kernel ev) = Some (On_Kernel ev choice er)"
| "handler_action choice er (H_Disk ev) = Some (On_Disk ev er)"
| "handler_action choice er (H_Net manifest ev) = Some (On_Net manifest ev er)"
| "handler_action choice er H_Memory = Some (On_Memory er)"
| "handler_action choice er (H_Registry is_raw) = Some (On_Registry is_raw er)"
| "handler_action choice er (H_Thread ev) = Some (On_Thread ev er)"
| "handler_action choice er (H_Sys ev) = Some (On_Sys ev er)"
| "handler_action choice er (H_Perf ev) = Some (On_Perf ev er)"
| "handler_action choice er H_SessionStop = None"

definition run_handler :: "'e etw_lib \<Rightarrow> u64 \<Rightarrow> nat option \<Rightarrow> 'e \<Rightarrow> handler_name \<Rightarrow> world \<Rightarrow> world option" where
  "run_handler lib boot choice er h w =
     (case handler_action choice er h of Some a \<Rightarrow> act lib boot a w | None \<Rightarrow> Some w)"

definition bump :: "event_counter \<Rightarrow> event_handler \<Rightarrow> event_handler" where
  "bump k eh = eh\<lparr>eventCounts := (eventCounts eh)(k := eventCounts eh k + 1)\<rparr>"

definition bump_provider :: "guid \<Rightarrow> event_handler \<Rightarrow> event_handler" where
  "bump_provider g eh = (case cm_load g (guidToCounter eh) of Some k \<Rightarrow> bump k eh | None \<Rightarrow> eh)"

definition route_of :: "event_handler \<Rightarrow> guid \<Rightarrow> u16 \<Rightarrow> handler_union" where
  "route_of eh g eventID = (case cm_load g (routeMap eh) of Some routes \<Rightarrow> ph_get routes eventID | None \<Rightarrow> no_handler)"

definition is_cswitch :: "etw_consts \<Rightarrow> 'e etw_lib \<Rightarrow> 'e \<Rightarrow> bool" where
  "is_cswitch c lib er \<longleftrightarrow> (lib_ProviderId lib er = ThreadKernelGUID
     \<or> lib_ProviderId lib er = SystemSchedulerProviderGuid c) \<and> lib_Opcode lib er = 36"

definition is_registry :: "etw_consts \<Rightarrow> 'e etw_lib \<Rightarrow> 'e \<Rightarrow> bool" where
  "is_registry c lib er \<longleftrightarrow> lib_ProviderId lib er = RegistryKernelGUID
     \<or> lib_ProviderId lib er = etw_SystemRegistryProviderGuid c"

text \<open>The first stage. The result says whether processing goes on.\<close>

definition EventRecordCallback :: "etw_consts \<Rightarrow> 'e etw_lib \<Rightarrow> u64 \<Rightarrow> nat option \<Rightarrow> 'e \<Rightarrow>
    event_handler \<times> world \<Rightarrow> (bool \<times> event_handler \<times> world) option" where
  "EventRecordCallback c lib boot choice er st =
     (case st of (eh, w) \<Rightarrow>
        if is_cswitch c lib er
        then (case run_handler lib boot choice er (H_Thread T_Switch) w of
                None \<Rightarrow> None
              | Some w1 \<Rightarrow> map_option (\<lambda>w2. (False, bump C_Thread eh, w2))
                             (run_handler lib boot choice er (H_Perf P_CSwitch) w1))
        else if is_registry c lib er
        then map_option (\<lambda>w1. (False, bump C_Registry eh, w1)) (run_handler lib boot choice er (H_Registry True) w)
        else case rawHandler (route_of eh (lib_ProviderId lib er) (lib_EventId lib er)) of
               Some h \<Rightarrow> map_option (\<lambda>w1. (False, bump_provider (lib_ProviderId lib er) eh, w1))
                           (run_handler lib boot choice er h w)
             | None \<Rightarrow> Some (True, eh, w))"

definition RouteEvent :: "'e etw_lib \<Rightarrow> u64 \<Rightarrow> nat option \<Rightarrow> 'e \<Rightarrow>
    event_handler \<times> world \<Rightarrow> (event_handler \<times> world) option" where
  "RouteEvent lib boot choice er st =
     (case st of (eh, w) \<Rightarrow>
        let eh' = bump_provider (lib_ProviderId lib er) eh
        in case preparedHandler (route_of eh (lib_ProviderId lib er) (lib_EventId lib er)) of
             Some h \<Rightarrow> map_option (\<lambda>w1. (eh', w1)) (run_handler lib boot choice er h w)
           | None \<Rightarrow> Some (eh', w))"

text \<open>The consumer calls the second stage when the first returns true.\<close>

definition deliver :: "etw_consts \<Rightarrow> 'e etw_lib \<Rightarrow> u64 \<Rightarrow> nat option \<Rightarrow> 'e \<Rightarrow>
    event_handler \<times> world \<Rightarrow> (event_handler \<times> world) option" where
  "deliver c lib boot choice er st =
     (case EventRecordCallback c lib boot choice er st of
        None \<Rightarrow> None
      | Some (go, st') \<Rightarrow> if go then RouteEvent lib boot choice er st' else Some st')"

section \<open>Routing tables as maps\<close>

text \<open>The contract of a routing table: a registration changes one route and nothing else.\<close>

locale routing_table =
  fixes lookup :: "'t \<Rightarrow> 'k \<Rightarrow> 'h"
    and ok_table :: "'t \<Rightarrow> bool"
    and add :: "'k \<times> 'h \<Rightarrow> 't \<Rightarrow> 't"
  assumes add_ok: "ok_table t \<Longrightarrow> ok_table (add r t)"
    and lookup_add: "ok_table t \<Longrightarrow> lookup (add r t) k = (if k = fst r then snd r else lookup t k)"
begin

lemma lookup_fold:
  "ok_table t \<Longrightarrow> lookup (fold add rs t) k = (case map_of (rev rs) k of Some h \<Rightarrow> h | None \<Rightarrow> lookup t k)"
proof (induction rs arbitrary: t)
  case (Cons r rs)
  show ?case using Cons.IH [OF add_ok [OF Cons.prems]] Cons.prems
    by (cases r) (simp add: lookup_add map_add_def split: option.split)
qed simp

lemma ok_fold: "ok_table t \<Longrightarrow> ok_table (fold add rs t)"
  by (induction rs arbitrary: t) (auto simp: add_ok)

lemma any_order:
  assumes "ok_table t" and "mset rs = mset rs'" and "distinct (map fst rs)"
  shows "lookup (fold add rs t) k = lookup (fold add rs' t) k"
proof -
  have d: "distinct (map fst rs')" using assms(2,3) by (metis mset_eq_imp_distinct_iff mset_map)
  have "map_of (rev rs) = map_of (rev rs')"
  proof (rule map_of_eqI)
    have s: "set rs = set rs'" using assms(2) by (rule mset_eq_setD)
    then show "set (map fst (rev rs)) = set (map fst (rev rs'))" by simp
    have r: "distinct (map fst (rev rs))" "distinct (map fst (rev rs'))"
      using assms(3) d by (simp_all flip: rev_map)
    then show "\<forall>k \<in> set (map fst (rev rs)). map_of (rev rs) k = map_of (rev rs') k"
      using s by (auto simp: map_of_eq_Some_iff [OF r(1)] map_of_eq_Some_iff [OF r(2)] intro!: sym [OF map_of_is_SomeI])
  qed
  then show ?thesis using assms(1) by (simp add: lookup_fold)
qed

end

definition ph_ok :: "provider_handlers \<Rightarrow> bool" where
  "ph_ok pr \<longleftrightarrow> ph_maxSliceEventID pr = 256"

definition eh_ok :: "event_handler \<Rightarrow> bool" where
  "eh_ok eh \<longleftrightarrow> (\<forall>g pr. cm_load g (routeMap eh) = Some pr \<longrightarrow> ph_ok pr)"

lemma grow_slice_length: "unat i < length (grow_slice i xs)"
  by (simp add: grow_slice_def)

lemma grow_slice_nth:
  "j < length xs \<Longrightarrow> grow_slice i xs ! j = xs ! j"
  "length xs \<le> j \<Longrightarrow> j < length (grow_slice i xs) \<Longrightarrow> grow_slice i xs ! j = no_handler"
  by (auto simp: grow_slice_def nth_append split: if_splits)

lemma ph_get_add:
  assumes "ph_ok pr"
  shows "ph_get (add_handler i h pr) j = (if j = i then h else ph_get pr j)"
proof (cases "i < 256")
  case True
  let ?ys = "(grow_slice i (ph_slice pr))[unat i := h]"
  have get: "ph_get (add_handler i h pr) j = (if j < 256 then (if unat j < length ?ys then ?ys ! unat j else no_handler)
      else ph_get pr j)"
    using True assms by (auto simp: add_handler_def ph_get_def ph_ok_def)
  have old: "length (ph_slice pr) \<le> length ?ys" by (simp add: grow_slice_def)
  show ?thesis
  proof (cases "j = i")
    case False
    then have "unat j \<noteq> unat i" by (simp add: unsigned_word_eqI word_unat_eq_iff)
    then have "(if unat j < length ?ys then ?ys ! unat j else no_handler) =
        (if unat j < length (ph_slice pr) then ph_slice pr ! unat j else no_handler)"
      using old grow_slice_nth(1) [of "unat j" "ph_slice pr" i] grow_slice_nth(2) [of "ph_slice pr" "unat j" i] by auto
    then show ?thesis using False assms get by (simp add: ph_get_def ph_ok_def)
  qed (use True get grow_slice_length [of i "ph_slice pr"] in simp)
next
  case False
  then show ?thesis using assms
    by (auto simp: add_handler_def ph_get_def ph_ok_def split: option.split)
qed

lemma add_handler_ok: "ph_ok pr \<Longrightarrow> ph_ok (add_handler i h pr)"
  by (simp add: ph_ok_def add_handler_def)

lemma new_ph_ok [simp]: "ph_ok newProviderHandlers" "ph_get newProviderHandlers i = no_handler"
  by (simp_all add: ph_ok_def newProviderHandlers_def ph_get_def)

lemma eh_ok_get: "eh_ok eh \<Longrightarrow> ph_ok (get_or newProviderHandlers g (routeMap eh))"
  by (auto simp: eh_ok_def get_or_def split: option.split)

lemma addRoute_ok: "eh_ok eh \<Longrightarrow> eh_ok (addRoute g i h eh)"
  using add_handler_ok [OF eh_ok_get] by (auto simp: eh_ok_def addRoute_def)

lemma route_of_addRoute:
  assumes "eh_ok eh"
  shows "route_of (addRoute g i h eh) g' j = (if g' = g \<and> j = i then h else route_of eh g' j)"
  using ph_get_add [OF eh_ok_get [OF assms], of i h g j]
  by (auto simp: route_of_def addRoute_def get_or_def split: option.split)

interpretation routes: routing_table "\<lambda>eh (g, i). route_of eh g i" eh_ok "\<lambda>((g, i), h). addRoute g i h"
  by unfold_locales (auto simp: addRoute_ok route_of_addRoute)

fun entry_of :: "route \<Rightarrow> (guid \<times> u16) \<times> handler_union" where
  "entry_of (Prepared g i h) = ((g, i), prepared h)"
| "entry_of (Raw g i h) = ((g, i), raw h)"

lemma register_fold: "register rs eh = fold (\<lambda>((g, i), h). addRoute g i h) (map entry_of rs) eh"
proof -
  have "add_one r = (\<lambda>((g, i), h). addRoute g i h) (entry_of r)" for r
    by (cases r) (simp_all add: AddRoute_def AddRawRoute_def fun_eq_iff)
  then have "add_one = (\<lambda>((g, i), h). addRoute g i h) \<circ> entry_of" by (simp add: fun_eq_iff)
  then show ?thesis by (simp add: register_def fold_map)
qed

lemma empty_event_handler_ok [simp]: "eh_ok (empty_event_handler c)" "route_of (empty_event_handler c) g i = no_handler"
  by (simp_all add: eh_ok_def empty_event_handler_def route_of_def)

lemma register_any_order:
  assumes "mset rs = mset rs'" and "distinct (map fst (map entry_of rs))" and "eh_ok eh"
  shows "route_of (register rs eh) g i = route_of (register rs' eh) g i"
  using routes.any_order [of eh "map entry_of rs" "map entry_of rs'" "(g, i)"] assms
  by (simp add: register_fold)

text \<open>C40. The routing tables, a slice for low event ids and a map for the others, behave as one
  map from provider and event id: a look-up finds the handler registered last for that pair,
  and nothing when there was none.\<close>

theorem routing_refines_map:
  "route_of (register rs (empty_event_handler c)) g i =
     (case map_of (rev (map entry_of rs)) (g, i) of Some h \<Rightarrow> h | None \<Rightarrow> no_handler)"
  using routes.lookup_fold [of "empty_event_handler c" "map entry_of rs" "(g, i)"]
  by (simp add: register_fold split: option.splits)

section \<open>Delivery\<close>

lemma run_handler_inv:
  assumes "world_inv n w" and "unat (lib_Processor lib er) < n"
  shows "\<exists>w'. run_handler lib boot choice er h w = Some w' \<and> world_inv n w'"
proof (cases "handler_action choice er h")
  case (Some a)
  have "cpu_in_range n lib a"
  proof (cases h)
    case (H_Thread ev)
    then show ?thesis using Some assms(2) by (cases ev) auto
  qed (use Some in auto)
  then show ?thesis using act_inv [OF assms(1), of lib a boot] Some by (simp add: run_handler_def)
qed (use assms in \<open>simp add: run_handler_def\<close>)

lemma bump_frame [simp]:
  "routeMap (bump k eh) = routeMap eh" "routeMap (bump_provider g eh) = routeMap eh"
  "eventCounts (bump k eh) = (eventCounts eh)(k := eventCounts eh k + 1)"
  by (simp_all add: bump_def bump_provider_def split: option.split)

lemma bump_provider_counts:
  "eventCounts (bump_provider g eh) = (case cm_load g (guidToCounter eh) of
     Some k \<Rightarrow> (eventCounts eh)(k := eventCounts eh k + 1) | None \<Rightarrow> eventCounts eh)"
  by (simp add: bump_provider_def split: option.split)

definition event_counter_of :: "etw_consts \<Rightarrow> 'e etw_lib \<Rightarrow> event_handler \<Rightarrow> 'e \<Rightarrow> event_counter option" where
  "event_counter_of c lib eh er =
     (if is_cswitch c lib er then Some C_Thread
      else if is_registry c lib er then Some C_Registry
      else cm_load (lib_ProviderId lib er) (guidToCounter eh))"

text \<open>The first stage handles an event and counts it, or leaves everything to the second one.\<close>

definition counted :: "event_counter option \<Rightarrow> event_handler \<Rightarrow> event_handler \<Rightarrow> bool" where
  "counted k eh eh' \<longleftrightarrow> routeMap eh' = routeMap eh \<and> eventCounts eh' =
     (case k of Some k \<Rightarrow> (eventCounts eh)(k := eventCounts eh k + 1) | None \<Rightarrow> eventCounts eh)"

lemma counted_bump:
  "counted (Some k) eh (bump k eh)" "counted (cm_load g (guidToCounter eh)) eh (bump_provider g eh)"
  by (simp_all add: counted_def bump_provider_counts)

lemma EventRecordCallback_total:
  assumes "world_inv n w" and "unat (lib_Processor lib er) < n"
  shows "\<exists>go eh' w'. EventRecordCallback c lib boot choice er (eh, w) = Some (go, eh', w') \<and> world_inv n w'
    \<and> (if go then eh' = eh \<and> event_counter_of c lib eh er = cm_load (lib_ProviderId lib er) (guidToCounter eh)
       else counted (event_counter_of c lib eh er) eh eh')"
proof -
  note run = run_handler_inv [OF _ assms(2), of _ boot choice]
  consider (switch) "is_cswitch c lib er"
    | (registry) "\<not> is_cswitch c lib er" "is_registry c lib er"
    | (routed) "\<not> is_cswitch c lib er" "\<not> is_registry c lib er" by blast
  then show ?thesis
  proof cases
    case switch
    obtain w1 where w1: "run_handler lib boot choice er (H_Thread T_Switch) w = Some w1" "world_inv n w1"
      using run [OF assms(1)] by blast
    obtain w2 where "run_handler lib boot choice er (H_Perf P_CSwitch) w1 = Some w2" "world_inv n w2"
      using run [OF w1(2)] by blast
    then show ?thesis using switch w1 by (auto simp: EventRecordCallback_def event_counter_of_def counted_bump)
  next
    case registry
    obtain w1 where "run_handler lib boot choice er (H_Registry True) w = Some w1" "world_inv n w1"
      using run [OF assms(1)] by blast
    then show ?thesis using registry by (auto simp: EventRecordCallback_def event_counter_of_def counted_bump)
  next
    case routed
    show ?thesis
    proof (cases "rawHandler (route_of eh (lib_ProviderId lib er) (lib_EventId lib er))")
      case (Some h)
      obtain w1 where "run_handler lib boot choice er h w = Some w1" "world_inv n w1"
        using run [OF assms(1)] by blast
      then show ?thesis using routed Some
        by (auto simp: EventRecordCallback_def event_counter_of_def counted_bump)
    qed (use routed assms(1) in \<open>auto simp: EventRecordCallback_def event_counter_of_def\<close>)
  qed
qed

lemma RouteEvent_total:
  assumes "world_inv n w" and "unat (lib_Processor lib er) < n"
  shows "\<exists>eh' w'. RouteEvent lib boot choice er (eh, w) = Some (eh', w') \<and> world_inv n w'
    \<and> counted (cm_load (lib_ProviderId lib er) (guidToCounter eh)) eh eh'"
proof (cases "preparedHandler (route_of eh (lib_ProviderId lib er) (lib_EventId lib er))")
  case (Some h)
  obtain w1 where "run_handler lib boot choice er h w = Some w1" "world_inv n w1"
    using run_handler_inv [OF assms] by blast
  then show ?thesis using Some by (simp add: RouteEvent_def Let_def counted_bump)
qed (use assms(1) in \<open>simp add: RouteEvent_def Let_def counted_bump\<close>)

lemma deliver_total:
  assumes "world_inv n w" and "unat (lib_Processor lib er) < n"
  shows "\<exists>eh' w'. deliver c lib boot choice er (eh, w) = Some (eh', w') \<and> world_inv n w'
    \<and> routeMap eh' = routeMap eh
    \<and> eventCounts eh' = (case event_counter_of c lib eh er of
        Some k \<Rightarrow> (eventCounts eh)(k := eventCounts eh k + 1) | None \<Rightarrow> eventCounts eh)"
proof -
  obtain go eh1 w1 where first: "EventRecordCallback c lib boot choice er (eh, w) = Some (go, eh1, w1)" "world_inv n w1"
    "if go then eh1 = eh \<and> event_counter_of c lib eh er = cm_load (lib_ProviderId lib er) (guidToCounter eh)
     else counted (event_counter_of c lib eh er) eh eh1"
    using EventRecordCallback_total [OF assms] by blast
  show ?thesis
  proof (cases go)
    case True
    obtain eh2 w2 where "RouteEvent lib boot choice er (eh1, w1) = Some (eh2, w2)" "world_inv n w2"
      "counted (cm_load (lib_ProviderId lib er) (guidToCounter eh1)) eh1 eh2"
      using RouteEvent_total [OF first(2) assms(2)] by blast
    then show ?thesis using True first by (simp add: deliver_def counted_def)
  qed (use first in \<open>simp add: deliver_def counted_def\<close>)
qed


definition default_router :: event_handler where
  "default_router = register (all_routes sample_etw) (empty_event_handler sample_etw)"


text \<open>The world that \<open>NewEventHandler\<close> builds, when the handlers that need a collector have one.\<close>

lemma NewEventHandler_inv:
  assumes "Net_Enabled (Cfg_Network cfg)" and "MemCfg_Enabled (Cfg_Memory cfg)" and "ksm_inv sm"
  shows "world_inv n (snd (NewEventHandler c n cfg sm))"
  using assms collector_ok_new [of n]
  by (simp add: NewEventHandler_def world_inv_def disk_state_ok_def net_state_ok_def reg_state_ok_def
      thread_state_ok_def NewNetworkCollector_def NewRegistryCollector_def NewThreadHandler_def)


section \<open>The system I/O provider of Windows 11\<close>

lemma register_lookup_in:
  assumes "route_of (register rs (empty_event_handler c)) g i = h" and "h \<noteq> no_handler"
  shows "((g, i), h) \<in> entry_of ` set rs"
proof -
  have "map_of (rev (map entry_of rs)) (g, i) = Some h"
    using assms routes.lookup_fold [of "empty_event_handler c" "map entry_of rs" "(g, i)"]
    by (simp add: register_fold split: option.splits)
  then show ?thesis by (auto dest!: map_of_SomeD)
qed

lemmas route_lists = all_routes_def process_mof_routes_def image_routes_def sysconfig_routes_def
  thread_routes_def disk_mof_routes_def perf_routes_def network_mof_routes_def memory_routes_def
  networkRoutesTCP_def networkRoutesUDP_def RegisterRoutesForGUID_def RegisterRawRoutesForGUID_def Let_def

lemma network_lookup:
  "map_of (rev (map entry_of (network_mof_routes c))) (SystemIoProviderGuid c, 10) = Some (raw (H_Net False TCP_Sent))"
  "map_of (rev (map entry_of (network_mof_routes c))) (SystemIoProviderGuid c, 11) = Some (raw (H_Net False TCP_Received))"
  "map_of (rev (map entry_of (network_mof_routes c))) (SystemIoProviderGuid c, 14) = Some (raw (H_Net False TCP_Retransmitted))"
  by (simp_all add: network_mof_routes_def networkRoutesTCP_def networkRoutesUDP_def RegisterRawRoutesForGUID_def)

lemma memory_lookup: "i \<noteq> 32 \<Longrightarrow> map_of (rev (map entry_of (memory_routes c))) (g, i) = None"
  by (simp add: memory_routes_def RegisterRawRoutesForGUID_def)

lemma last_registration:
  assumes "map_of (rev (map entry_of (network_mof_routes c))) (g, i) = Some h" and "i \<noteq> 32"
  shows "route_of (register (all_routes c) (empty_event_handler c)) g i = h"
proof -
  have "map_of (rev (map entry_of (all_routes c))) (g, i) = Some h"
    using assms memory_lookup [OF assms(2)] by (simp add: all_routes_def map_add_def)
  then show ?thesis using routes.lookup_fold [of "empty_event_handler c" "map entry_of (all_routes c)" "(g, i)"]
    by (simp add: register_fold)
qed

lemma system_io_routes:
  "route_of (register (all_routes c) (empty_event_handler c)) (SystemIoProviderGuid c) 10 = raw (H_Net False TCP_Sent)"
  "route_of (register (all_routes c) (empty_event_handler c)) (SystemIoProviderGuid c) 11 = raw (H_Net False TCP_Received)"
  "route_of (register (all_routes c) (empty_event_handler c)) (SystemIoProviderGuid c) 14 = raw (H_Net False TCP_Retransmitted)"
  by (rule last_registration, rule network_lookup, simp)+

lemma disk_routes:
  "Prepared g i (H_Disk d) \<notin> set (all_routes c)"
  "Raw g i (H_Disk d) \<in> set (all_routes c) \<Longrightarrow> i \<in> {ucast (TYPE_IO_READ c), ucast (TYPE_IO_WRITE c), ucast (TYPE_IO_FLUSH c)}"
  by (auto simp: route_lists)

text \<open>C9. On Windows 11 disk events never reach the disk handler: the system I/O provider carries
  both disk and network events, the network handler registers its ids after the disk handler,
  and its TCP ids 10, 11 and 14 are the disk read, write and flush ids. A disk read is
  handled as TCP data sent.\<close>

theorem system_io_disk_events_lost:
  assumes "TYPE_IO_READ c = 10" and "TYPE_IO_WRITE c = 11" and "TYPE_IO_FLUSH c = 14"
  defines "eh \<equiv> register (all_routes c) (empty_event_handler c)"
  shows "rawHandler (route_of eh (SystemIoProviderGuid c) (ucast (TYPE_IO_READ c))) = Some (H_Net False TCP_Sent)
    \<and> (\<forall>i d. rawHandler (route_of eh (SystemIoProviderGuid c) i) \<noteq> Some (H_Disk d)
         \<and> preparedHandler (route_of eh (SystemIoProviderGuid c) i) \<noteq> Some (H_Disk d))"
proof -
  have "False" if h: "route_of eh (SystemIoProviderGuid c) i = h" "rawHandler h = Some (H_Disk d) \<or> preparedHandler h = Some (H_Disk d)"
    for i d h
  proof -
    have "h \<noteq> no_handler" using h(2) by (auto simp: no_handler_def)
    then have m: "((SystemIoProviderGuid c, i), h) \<in> entry_of ` set (all_routes c)"
      using register_lookup_in h(1) unfolding eh_def by blast
    then obtain r where r: "r \<in> set (all_routes c)" "entry_of r = ((SystemIoProviderGuid c, i), h)" by auto
    have "i \<in> {10, 11, 14}"
    proof (cases r)
      case (Prepared g j x)
      then show ?thesis using r h(2) disk_routes(1) by (auto simp: prepared_def)
    next
      case (Raw g j x)
      then have "Raw g i (H_Disk d) \<in> set (all_routes c)" using r h(2) by (auto simp: raw_def)
      then show ?thesis using disk_routes(2) [of g i d c] assms(1-3) by simp
    qed
    then show False using system_io_routes [of c] h unfolding eh_def by (auto simp: raw_def)
  qed
  then show ?thesis using system_io_routes(1) [of c] assms(1) unfolding eh_def by (auto simp: raw_def)
qed

theorem system_io_disk_events_lost_witness:
  "rawHandler (route_of default_router (SystemIoProviderGuid sample_etw) 10) = Some (H_Net False TCP_Sent)"
proof -
  have "TYPE_IO_READ sample_etw = 10" "TYPE_IO_WRITE sample_etw = 11" "TYPE_IO_FLUSH sample_etw = 14"
    by (simp_all add: sample_etw_def)
  from system_io_disk_events_lost [OF this] this show ?thesis by (simp add: default_router_def)
qed

end
