(* ===== verification/Session_Manager.thy ===== *)
theory Session_Manager
  imports Event_Router
begin

text \<open>
  The session manager (\<open>internal/etw/etw_session.go\<close>) and the session watcher's handler
  (\<open>internal/etw/watcher\<close>): which sessions are started and with which providers, how they
  are stopped, when a stopped session is restarted and how often that is tried.

  The sessions, the consumer and Windows are not part of the repository: \<open>session_env\<close> gives
  the results of the calls (true when a call returns no error), and the calls made are recorded
  in \<open>SM_calls\<close>, the latest one first. Goroutines that restart sessions run concurrently with everything else; their
  interleavings are the step relation \<open>rstep\<close>.
\<close>

section \<open>State\<close>

definition EtwExporterGuid :: guid where
  "EtwExporterGuid = 0xc47d5c0689e711f0bbb76045cb9e9a44"

datatype session_call =
    StartKernel u32 | EnableProvider etw_provider | GetRundownEvents guid | NewConsumer "bool list"
  | ConsumerStart | ConsumerStop | StopManifest | StopKernel | RestartNtKernelProvider u32
  | EnableProfilingPrivileges | TempKernelStart | TempConsumerStart | TempKernelStop | TempConsumerStop | CancelContext

record session_env =
  env_MajorVersion :: nat
  env_BuildNumber :: nat
  env_kernel_start :: "u32 \<Rightarrow> bool"
  env_enable :: "etw_provider \<Rightarrow> bool"
  env_consumer_start :: bool
  env_consumer_stop :: bool
  env_manifest_stop :: bool
  env_kernel_stop :: bool
  env_restart_nt :: bool
  env_rundown :: "guid \<Rightarrow> bool"
  env_temp_kernel_start :: bool
  env_temp_consumer_start :: bool
  env_temp_kernel_stop :: bool
  env_temp_consumer_stop :: bool
  env_in_use :: "u32 option \<Rightarrow> bool option"
  env_kernel_name :: string

text \<open>A kernel session is known by its flags, the manifest session by being a system trace
  session and by the providers enabled on it. \<open>SM_consumer\<close> lists the sessions the consumer reads;
  false stands for a nil session.\<close>

record manifest_session =
  MS_system :: bool
  MS_providers :: "etw_provider list"

record session_manager =
  SM_config :: app_config
  kernelSession :: "u32 option"
  manifestSession :: "manifest_session option"
  SM_consumer :: "bool list option"
  SM_running :: bool
  isStopping :: bool
  SM_cancelled :: bool
  enabledProviderGroups :: "provider_group list"
  SM_calls :: "session_call list"

datatype session_error = AlreadyRunning | KernelStartFailed | EnableFailed string | ConsumerStartFailed
  | ConsumerStopFailed | ManifestStopFailed | KernelStopFailed | NotRunning | RundownFailed | NoProcessProvider
  | TempKernelStartFailed | TempConsumerStartFailed | TempKernelStopFailed | TempConsumerStopFailed

definition calls :: "session_call list \<Rightarrow> session_manager \<Rightarrow> session_manager" where
  "calls cs sm = sm\<lparr>SM_calls := rev cs @ SM_calls sm\<rparr>"

text \<open>The profiling privilege is enabled at most once; every group's \<open>InitFunc\<close> is nil.\<close>

definition needs_profiling :: "etw_consts \<Rightarrow> provider_group list \<Rightarrow> bool" where
  "needs_profiling c gs = list_ex (\<lambda>g. PG_KernelFlags g AND FLAG_PROFILE c \<noteq> 0) gs"

definition initProviders :: "etw_consts \<Rightarrow> session_manager \<Rightarrow> session_manager" where
  "initProviders c sm =
     (let gs = GetEnabledProviders c (Collectors (SM_config sm))
      in calls (if needs_profiling c gs then [EnableProfilingPrivileges] else []) (sm\<lparr>enabledProviderGroups := gs\<rparr>))"

definition NewSessionManager :: "etw_consts \<Rightarrow> app_config \<Rightarrow> session_manager" where
  "NewSessionManager c cfg = initProviders c \<lparr>SM_config = cfg, kernelSession = None, manifestSession = None,
     SM_consumer = None, SM_running = False, isStopping = False, SM_cancelled = False,
     enabledProviderGroups = [], SM_calls = []\<rparr>"

definition GetEnabledProviderGroups :: "session_manager \<Rightarrow> string list" where
  "GetEnabledProviderGroups sm = map PG_Name (enabledProviderGroups sm)"


section \<open>Starting\<close>

definition IsSystemProviderSupported :: "session_env \<Rightarrow> bool" where
  "IsSystemProviderSupported env \<longleftrightarrow> env_MajorVersion env \<ge> 10 \<and> env_BuildNumber env \<ge> 20348"

definition watcherProvider :: etw_provider where
  "watcherProvider = newProcessCorrelationProvider
     \<lparr>Prov_Name := ''Microsoft-Windows-Kernel-EventTracing'', Prov_GUID := MicrosoftWindowsKernelEventTracingGUID,
      Prov_MatchAnyKeyword := 0x10, Prov_EventIds := [10, 11]\<rparr>"

definition manifest_providers :: "etw_consts \<Rightarrow> app_config \<Rightarrow> etw_provider list" where
  "manifest_providers c cfg = GetEnabledManifestProviders c (Collectors cfg)
     @ (if Watcher_Enabled (SessionWatcher cfg) then [watcherProvider] else [])"

text \<open>The loop over the providers; the first failing call ends it with an error.\<close>

fun enable_loop :: "session_env \<Rightarrow> etw_provider list \<Rightarrow> session_manager \<Rightarrow> session_error option \<times> session_manager" where
  "enable_loop env [] sm = (None, sm)"
| "enable_loop env (p # ps) sm =
     (if env_enable env p
      then enable_loop env ps (calls [EnableProvider p, GetRundownEvents (Prov_GUID p)]
        (sm\<lparr>manifestSession := map_option (\<lambda>m. m\<lparr>MS_providers := MS_providers m @ [p]\<rparr>) (manifestSession sm)\<rparr>))
      else (Some (EnableFailed (Prov_Name p)), calls [EnableProvider p] sm))"

text \<open>On Windows 11 the inner \<open>manifestProviders\<close> is a variable of its own: the list with the
  system providers is only tested for emptiness, and the loop at the end runs over the outer
  one.\<close>

definition setup_kernel :: "etw_consts \<Rightarrow> session_env \<Rightarrow> session_manager \<Rightarrow> session_error option \<times> bool list \<times> session_manager" where
  "setup_kernel c env sm =
     (let kernelFlags = GetEnabledKernelFlags c (Collectors (SM_config sm))
      in if kernelFlags = 0 then (None, [], sm)
         else let sm1 = calls [StartKernel kernelFlags] (sm\<lparr>kernelSession := Some kernelFlags\<rparr>)
              in if env_kernel_start env kernelFlags then (None, [True], sm1)
                 else (Some KernelStartFailed, [], sm1))"

definition setupSessions :: "etw_consts \<Rightarrow> session_env \<Rightarrow> session_manager \<Rightarrow> session_error option \<times> session_manager" where
  "setupSessions c env sm =
     (let manifestProviders = manifest_providers c (SM_config sm);
          create = (\<lambda>is_system sm. sm\<lparr>manifestSession := Some \<lparr>MS_system = is_system, MS_providers = []\<rparr>\<rparr>);
          (err, sessions, sm1) =
            (if IsSystemProviderSupported env
             then let inner = manifestProviders @ GetEnabledSystemProviders c (Collectors (SM_config sm))
                  in (None, [], if inner \<noteq> [] then create True sm else sm)
             else setup_kernel c env (if manifestProviders \<noteq> [] then create False sm else sm))
      in case err of
           Some e \<Rightarrow> (Some e, sm1)
         | None \<Rightarrow>
             (case enable_loop env manifestProviders sm1 of
                (Some e, sm2) \<Rightarrow> (Some e, sm2)
              | (None, sm2) \<Rightarrow>
                  let all_sessions = sessions @ [manifestSession sm2 \<noteq> None]
                  in (None, calls [NewConsumer all_sessions] (sm2\<lparr>SM_consumer := Some all_sessions\<rparr>))))"

definition sm_Start :: "etw_consts \<Rightarrow> session_env \<Rightarrow> session_manager \<Rightarrow> session_error option \<times> session_manager" where
  "sm_Start c env sm =
     (if SM_running sm then (Some AlreadyRunning, sm)
      else case setupSessions c env sm of
          (Some e, sm1) \<Rightarrow> (Some e, sm1)
        | (None, sm1) \<Rightarrow>
            let sm2 = calls [ConsumerStart] sm1
            in if env_consumer_start env
               then (None, sm2\<lparr>isStopping := False, SM_running := True\<rparr>)
               else (Some ConsumerStartFailed, sm2))"

definition CaptureNtSystemConfigEvents :: "session_env \<Rightarrow> session_manager \<Rightarrow> session_error option \<times> session_manager" where
  "CaptureNtSystemConfigEvents env sm =
     (let sm1 = calls [TempKernelStart] sm
      in if \<not> env_temp_kernel_start env then (Some TempKernelStartFailed, sm1)
         else let sm2 = calls [TempConsumerStart] sm1
              in if \<not> env_temp_consumer_start env then (Some TempConsumerStartFailed, calls [TempKernelStop] sm2)
                 else let sm3 = calls [TempKernelStop] sm2
                      in if \<not> env_temp_kernel_stop env then (Some TempKernelStopFailed, calls [TempConsumerStop] sm3)
                         else (if env_temp_consumer_stop env then None else Some TempConsumerStopFailed,
                               calls [TempConsumerStop] sm3))"


section \<open>Stopping\<close>

definition stopSessions :: "session_env \<Rightarrow> session_manager \<Rightarrow> session_error option \<times> session_manager" where
  "stopSessions env sm =
     (let sm1 = (if manifestSession sm \<noteq> None then calls [StopManifest] sm else sm)
      in if manifestSession sm \<noteq> None \<and> \<not> env_manifest_stop env then (Some ManifestStopFailed, sm1)
         else if kernelSession sm \<noteq> None
         then (if env_kernel_stop env then None else Some KernelStopFailed, calls [StopKernel] sm1)
         else (None, sm1))"

definition sm_Stop :: "session_env \<Rightarrow> session_manager \<Rightarrow> session_error option \<times> session_manager" where
  "sm_Stop env sm =
     (if \<not> SM_running sm then (None, sm)
      else let sm1 = sm\<lparr>isStopping := True, SM_running := False\<rparr>;
               sm2 = (if SM_consumer sm1 \<noteq> None then calls [ConsumerStop] sm1 else sm1)
           in if SM_consumer sm1 \<noteq> None \<and> \<not> env_consumer_stop env then (Some ConsumerStopFailed, sm2)
              else (None, calls [CancelContext] ((snd (stopSessions env sm2))\<lparr>SM_cancelled := True\<rparr>)))"


section \<open>Rundown\<close>

definition is_process_provider :: "etw_consts \<Rightarrow> etw_provider \<Rightarrow> bool" where
  "is_process_provider c p \<longleftrightarrow> Prov_GUID p = MicrosoftWindowsKernelProcessGUID \<or> Prov_GUID p = SystemProcessProviderGuid c"

text \<open>The two \<open>if\<close>s of the loop body test different GUIDs and do the same.\<close>

definition TriggerProcessRundown :: "etw_consts \<Rightarrow> session_env \<Rightarrow> session_manager \<Rightarrow> session_error option \<times> session_manager" where
  "TriggerProcessRundown c env sm =
     (if \<not> SM_running sm then (Some NotRunning, sm)
      else let nt = (case kernelSession sm of Some fl \<Rightarrow> fl AND FLAG_PROCESS c \<noteq> 0 | None \<Rightarrow> False);
               guids = (case manifestSession sm of
                   Some m \<Rightarrow> map Prov_GUID (filter (is_process_provider c) (MS_providers m)) | None \<Rightarrow> []);
               sm1 = calls ((if nt then [RestartNtKernelProvider (FLAG_PROCESS c)] else []) @ map GetRundownEvents guids) sm;
               rundownTriggered = nt \<and> env_restart_nt env \<or> list_ex (env_rundown env) guids;
               failed = nt \<and> \<not> env_restart_nt env \<or> list_ex (\<lambda>g. \<not> env_rundown env g) guids
           in (if rundownTriggered then None else if failed then Some RundownFailed else Some NoProcessProvider, sm1))"

definition IsRunning :: "session_manager \<Rightarrow> bool" where
  [simp]: "IsRunning sm = SM_running sm"

definition rundown_tick :: "etw_consts \<Rightarrow> session_env \<Rightarrow> session_manager \<Rightarrow> session_manager" where
  "rundown_tick c env sm = (if IsRunning sm then snd (TriggerProcessRundown c env sm) else sm)"


section \<open>When a session stops\<close>

text \<open>The decision to restart: the GUID handed to \<open>restartSession\<close>, if any. \<open>env_in_use\<close> is the
  library's \<open>IsSessionActive\<close>; called on a nil session it may panic, which is \<^const>\<open>None\<close>.\<close>

definition IsNtKernelSessionInUse :: "session_env \<Rightarrow> session_manager \<Rightarrow> bool option" where
  [simp]: "IsNtKernelSessionInUse env sm = env_in_use env (kernelSession sm)"

definition HandleSessionStop :: "etw_consts \<Rightarrow> session_env \<Rightarrow> guid \<Rightarrow> session_manager \<Rightarrow> guid option option" where
  "HandleSessionStop c env sessionGUID sm =
     (let w = SessionWatcher (SM_config sm)
      in if sessionGUID = SystemTraceControlGuid c
         then (if RestartKernelSession w = ''forced'' then Some (Some sessionGUID)
               else if RestartKernelSession w = ''enabled''
               then map_option (\<lambda>in_use. if \<not> in_use then Some sessionGUID else None) (IsNtKernelSessionInUse env sm)
               else Some None)
         else if sessionGUID = EtwExporterGuid \<and> RestartExporterSession w then Some (Some sessionGUID)
         else Some None)"

text \<open>The watcher's handler; \<open>prop_guid\<close> is the library's \<open>GetPropertyPGUID\<close>.\<close>

definition watcher_HandleSessionStop :: "etw_consts \<Rightarrow> session_env \<Rightarrow> u32 \<Rightarrow> ('e \<Rightarrow> string \<Rightarrow> guid option) \<Rightarrow>
    'e etw_lib \<Rightarrow> 'e \<Rightarrow> session_manager option \<Rightarrow> (guid option \<times> handler_error option) option" where
  "watcher_HandleSessionStop c env ownPID prop_guid lib er manager =
     (case manager of
        None \<Rightarrow> Some (None, None)
      | Some sm \<Rightarrow>
          if lib_ProcessId lib er = ownPID then Some (None, None)
          else case prop_guid er ''SessionGuid'' of
              None \<Rightarrow> Some (None, Some ParseError)
            | Some sessionGUID \<Rightarrow> map_option (\<lambda>r. (r, None)) (HandleSessionStop c env sessionGUID sm))"

definition manifest_name :: string where "manifest_name = ''etw_exporter''"

text \<open>One turn of the trace monitor.\<close>

definition on_stopped_trace :: "etw_consts \<Rightarrow> session_env \<Rightarrow> string \<Rightarrow> session_manager \<Rightarrow> guid option option" where
  "on_stopped_trace c env traceName sm =
     (if isStopping sm then Some None
      else if kernelSession sm \<noteq> None \<and> env_kernel_name env = traceName
      then HandleSessionStop c env (SystemTraceControlGuid c) sm
      else if manifestSession sm \<noteq> None \<and> manifest_name = traceName
      then HandleSessionStop c env EtwExporterGuid sm
      else Some None)"

section \<open>Restarting\<close>

text \<open>The retry loop of one restart: at most ten attempts with a wait after each failure, which a
  shutdown cuts short. \<open>succeeds i\<close> and \<open>cancelled i\<close> say how attempt \<open>i\<close> and the wait
  after it end. The result: success, attempts made, time waited.\<close>

definition max_attempts :: nat where "max_attempts = 10"

definition waitTime :: "nat \<Rightarrow> duration" where
  "waitTime i = (if i < 3 then 1 * second else 10 * second)"

function retry :: "(nat \<Rightarrow> bool) \<Rightarrow> (nat \<Rightarrow> bool) \<Rightarrow> nat \<Rightarrow> bool \<times> nat \<times> duration" where
  "retry succeeds cancelled i =
     (if i \<ge> max_attempts then (False, 0, 0)
      else if succeeds i then (True, 1, 0)
      else if cancelled i then (False, 1, 0)
      else case retry succeeds cancelled (Suc i) of (r, n, t) \<Rightarrow> (r, Suc n, waitTime i + t))"
  by pat_completeness auto
termination by (relation "measure (\<lambda>(_, _, i). max_attempts - i)") auto

declare retry.simps [simp del]

text \<open>The goroutine of \<open>restartSession\<close>, one step at a time: the checks at its start, the entry in
  \<open>restartingSessions\<close> that serves as a lock, the wait of a goroutine that finds it taken, and
  the attempts.\<close>

datatype pc = Begin | TryLock | Waiting | Attempt nat | Backoff nat | Finished

record shared =
  S_stopping :: bool
  S_running :: bool
  S_cancelled :: bool
  S_up :: "string \<Rightarrow> bool"
  S_managed :: "string \<Rightarrow> bool"
  restartingSessions :: "string set"
  S_restarts :: "string list"

definition unlock :: "string \<Rightarrow> shared \<Rightarrow> shared" where
  "unlock name sh = sh\<lparr>restartingSessions := restartingSessions sh - {name}\<rparr>"

text \<open>\<open>b\<close> is the choice of the environment: whether an attempt succeeds, and whether the wait after
  a failure ends by the shutdown (only possible once the context is cancelled).\<close>

fun g_step :: "bool \<Rightarrow> string \<Rightarrow> pc \<Rightarrow> shared \<Rightarrow> pc \<times> shared" where
  "g_step b name Begin sh =
     (if S_stopping sh \<or> \<not> S_running sh \<or> \<not> S_managed sh name then (Finished, sh) else (TryLock, sh))"
| "g_step b name TryLock sh =
     (if name \<in> restartingSessions sh then (Waiting, sh)
      else (Attempt 0, sh\<lparr>restartingSessions := insert name (restartingSessions sh)\<rparr>))"
| "g_step b name Waiting sh = (if S_up sh name then (Finished, sh) else (TryLock, sh))"
| "g_step b name (Attempt i) sh =
     (if b then (Finished, unlock name (sh\<lparr>S_up := (S_up sh)(name := True), S_restarts := name # S_restarts sh\<rparr>))
      else (Backoff i, sh))"
| "g_step b name (Backoff i) sh =
     (if b \<and> S_cancelled sh \<or> Suc i \<ge> max_attempts then (Finished, unlock name sh) else (Attempt (Suc i), sh))"
| "g_step b name Finished sh = (Finished, sh)"

type_synonym goroutines = "(string \<times> pc) list"

text \<open>Any goroutine may take the next step; new stop events start new ones, sessions are stopped
  from outside, and a shutdown first marks the manager as stopping and later cancels the context.\<close>

inductive rstep :: "shared \<times> goroutines \<Rightarrow> shared \<times> goroutines \<Rightarrow> bool" where
  goroutine: "i < length gs \<Longrightarrow> gs ! i = (name, p) \<Longrightarrow> g_step b name p sh = (p', sh') \<Longrightarrow>
    rstep (sh, gs) (sh', gs[i := (name, p')])"
| stop_event: "rstep (sh, gs) (sh, gs @ [(name, Begin)])"
| session_stops: "rstep (sh, gs) (sh\<lparr>S_up := (S_up sh)(name := False)\<rparr>, gs)"
| shutdown_begins: "rstep (sh, gs) (sh\<lparr>S_stopping := True, S_running := False\<rparr>, gs)"
| shutdown_cancels: "S_stopping sh \<Longrightarrow> rstep (sh, gs) (sh\<lparr>S_cancelled := True\<rparr>, gs)"

inductive_cases rstepE: "rstep s s'"
inductive_simps rstep_iff: "rstep (sh, gs) s'"

fun holds :: "pc \<Rightarrow> bool" where
  "holds (Attempt i) = True"
| "holds (Backoff i) = True"
| "holds _ = False"

text \<open>The goroutines that work on a restart of a session, and the invariant: at most one, and
  exactly one when the session is marked as restarting.\<close>

definition workers :: "string \<Rightarrow> goroutines \<Rightarrow> nat" where
  "workers name gs = length (filter (\<lambda>(n, p). n = name \<and> holds p) gs)"

definition restart_inv :: "shared \<times> goroutines \<Rightarrow> bool" where
  "restart_inv s \<longleftrightarrow> (\<forall>name. workers name (snd s) = (if name \<in> restartingSessions (fst s) then 1 else 0))
     \<and> (\<forall>(n, p) \<in> set (snd s). \<forall>i. p = Attempt i \<or> p = Backoff i \<longrightarrow> i < max_attempts)"

lemma filter_update:
  assumes "i < length xs"
  shows "length (filter P (xs[i := y])) + (if P (xs ! i) then 1 else 0) = length (filter P xs) + (if P y then 1 else 0)"
proof -
  define ys zs where "ys = take i xs" and "zs = drop (Suc i) xs"
  have "xs = ys @ xs ! i # zs" "xs[i := y] = ys @ y # zs"
    using assms by (simp_all add: ys_def zs_def id_take_nth_drop upd_conv_take_nth_drop)
  then have "filter P xs = filter P (ys @ xs ! i # zs)" "filter P (xs[i := y]) = filter P (ys @ y # zs)" by metis+
  then show ?thesis by simp
qed

lemma workers_update:
  assumes "i < length gs" and "gs ! i = (n, p)"
  shows "workers name (gs[i := (n, p')]) + (if n = name \<and> holds p then 1 else 0) =
    workers name gs + (if n = name \<and> holds p' then 1 else 0)"
  using filter_update [OF assms(1), of "\<lambda>(m, q). m = name \<and> holds q" "(n, p')"] assms(2)
  by (simp add: workers_def)

lemma workers_pos: "(n, p) \<in> set gs \<Longrightarrow> holds p \<Longrightarrow> workers n gs > 0"
  by (auto simp: workers_def filter_empty_conv intro!: Nat.gr0I)

lemma g_step_locks:
  assumes "g_step b n p sh = (p', sh')"
  shows "holds p \<Longrightarrow> holds p' \<Longrightarrow> restartingSessions sh' = restartingSessions sh"
    and "holds p \<Longrightarrow> \<not> holds p' \<Longrightarrow> restartingSessions sh' = restartingSessions sh - {n}"
    and "\<not> holds p \<Longrightarrow> holds p' \<Longrightarrow> n \<notin> restartingSessions sh \<and> restartingSessions sh' = insert n (restartingSessions sh)"
    and "\<not> holds p \<Longrightarrow> \<not> holds p' \<Longrightarrow> restartingSessions sh' = restartingSessions sh"
    and "(\<forall>i. p = Attempt i \<or> p = Backoff i \<longrightarrow> i < max_attempts) \<Longrightarrow>
      (\<forall>i. p' = Attempt i \<or> p' = Backoff i \<longrightarrow> i < max_attempts)"
  using assms by (cases p; auto simp: unlock_def max_attempts_def split: if_splits)+

lemma restart_inv_step:
  assumes "rstep s s'" and "restart_inv s"
  shows "restart_inv s'"
  using assms(1)
proof cases
  case (goroutine i gs name p b sh p' sh')
  have w: "workers m gs = (if m \<in> restartingSessions sh then 1 else 0)" for m
    using assms(2) goroutine(1) by (simp add: restart_inv_def)
  have bound: "\<forall>i. p = Attempt i \<or> p = Backoff i \<longrightarrow> i < max_attempts"
    using assms(2) goroutine(1,3,4) nth_mem [of i gs] by (fastforce simp: restart_inv_def)
  have mem: "(name, p) \<in> set gs" using goroutine(3,4) by (metis nth_mem)
  note up = workers_update [OF goroutine(3,4), of _ p']
  have "workers m (gs[i := (name, p')]) = (if m \<in> restartingSessions sh' then 1 else 0)" for m
  proof (cases "m = name")
    case True
    have "holds p \<Longrightarrow> name \<in> restartingSessions sh" using workers_pos [OF mem] w [of name] by (simp split: if_splits)
    then show ?thesis using up [of name] w [of name] g_step_locks(1-4) [OF goroutine(5)] True
      by (cases "holds p"; cases "holds p'") (auto split: if_splits)
  next
    case False
    then have "m \<in> restartingSessions sh' \<longleftrightarrow> m \<in> restartingSessions sh"
      using g_step_locks(1-4) [OF goroutine(5)] by (cases "holds p"; cases "holds p'") auto
    then show ?thesis using up [of m] w [of m] False by simp
  qed
  moreover have "\<forall>(n, q) \<in> set (gs[i := (name, p')]). \<forall>i. q = Attempt i \<or> q = Backoff i \<longrightarrow> i < max_attempts"
  proof -
    have "set (gs[i := (name, p')]) \<subseteq> insert (name, p') (set gs)" by (rule set_update_subset_insert)
    moreover have "\<forall>(n, q) \<in> set gs. \<forall>i. q = Attempt i \<or> q = Backoff i \<longrightarrow> i < max_attempts"
      using assms(2) goroutine(1) by (simp add: restart_inv_def)
    ultimately show ?thesis using g_step_locks(5) [OF goroutine(5) bound] by blast
  qed
  ultimately show ?thesis unfolding goroutine(2) restart_inv_def by simp
qed (use assms(2) in \<open>auto simp: restart_inv_def workers_def\<close>)

lemma restart_inv_reach: "rstep\<^sup>*\<^sup>* s s' \<Longrightarrow> restart_inv s \<Longrightarrow> restart_inv s'"
  by (induction rule: rtranclp_induct) (auto intro: restart_inv_step)

definition shared0 :: "(string \<Rightarrow> bool) \<Rightarrow> shared" where
  "shared0 managed = \<lparr>S_stopping = False, S_running = True, S_cancelled = False, S_up = (\<lambda>_. True),
     S_managed = managed, restartingSessions = {}, S_restarts = []\<rparr>"

text \<open>However stop events, restarts and a shutdown interleave, at most one goroutine works on the
  restart of a session at a time, it does so exactly while the session is marked as restarting,
  and no goroutine gets past its tenth attempt.\<close>

theorem one_restart_at_a_time:
  assumes "rstep\<^sup>*\<^sup>* (shared0 managed, []) (sh, gs)"
  shows "workers name gs = (if name \<in> restartingSessions sh then 1 else 0)
    \<and> (\<forall>i. (name, Attempt i) \<in> set gs \<longrightarrow> i < 10)"
  using restart_inv_reach [OF assms] by (auto simp: restart_inv_def shared0_def workers_def max_attempts_def)

section \<open>Schedules\<close>

text \<open>A schedule names the next step; a choice that is not possible changes nothing.\<close>

datatype sched = Go nat bool | Stop_Event string | Session_Stops string | Shutdown_Begins | Shutdown_Cancels

fun sched_step :: "sched \<Rightarrow> shared \<times> goroutines \<Rightarrow> shared \<times> goroutines" where
  "sched_step (Go i b) (sh, gs) =
     (if i < length gs
      then (case gs ! i of (name, p) \<Rightarrow> case g_step b name p sh of (p', sh') \<Rightarrow> (sh', gs[i := (name, p')]))
      else (sh, gs))"
| "sched_step (Stop_Event name) (sh, gs) = (sh, gs @ [(name, Begin)])"
| "sched_step (Session_Stops name) (sh, gs) = (sh\<lparr>S_up := (S_up sh)(name := False)\<rparr>, gs)"
| "sched_step Shutdown_Begins (sh, gs) = (sh\<lparr>S_stopping := True, S_running := False\<rparr>, gs)"
| "sched_step Shutdown_Cancels (sh, gs) = (if S_stopping sh then sh\<lparr>S_cancelled := True\<rparr> else sh, gs)"

lemma sched_step_rstep: "rstep\<^sup>*\<^sup>* s (sched_step e s)"
proof (cases e)
  case (Go i b)
  then show ?thesis
    by (cases s) (auto split: prod.split intro!: r_into_rtranclp rstep.goroutine)
qed (cases s; auto intro: r_into_rtranclp rstep.intros)+

lemma schedule_reaches: "rstep\<^sup>*\<^sup>* s (fold sched_step es s)"
proof (induction es arbitrary: s)
  case (Cons e es)
  from rtranclp_trans [OF sched_step_rstep Cons.IH] show ?case by simp
qed simp

theorem one_restart_at_a_time_witness:
  "\<exists>sh gs. rstep\<^sup>*\<^sup>* (shared0 (\<lambda>_. True), []) (sh, gs) \<and> length gs = 2
     \<and> workers ''etw_exporter'' gs = 1 \<and> ''etw_exporter'' \<in> restartingSessions sh"
proof -
  let ?n = "''etw_exporter''"
  let ?s = "fold sched_step [Session_Stops ?n, Stop_Event ?n, Stop_Event ?n, Go 0 False, Go 0 False, Go 1 False, Go 1 False]
    (shared0 (\<lambda>_. True), [])"
  have r: "rstep\<^sup>*\<^sup>* (shared0 (\<lambda>_. True), []) (fst ?s, snd ?s)"
    unfolding prod.collapse by (rule schedule_reaches)
  have s: "length (snd ?s) = 2" "?n \<in> restartingSessions (fst ?s)" by (simp_all add: shared0_def)
  have "workers ?n (snd ?s) = 1" using one_restart_at_a_time [OF r, of ?n] s(2) by presburger
  then show ?thesis using r s by blast
qed

text \<open>The lock does not make restarts safe. A goroutine that gets the lock after another one
  has finished restarts a session that is already running, and one that passed its first check
  restarts a session after the shutdown of the manager has begun.\<close>

theorem restart_races:
  "(\<exists>s. rstep\<^sup>*\<^sup>* (shared0 (\<lambda>_. True), []) s \<and> S_up (fst s) name
      \<and> S_restarts (fst (sched_step (Go 1 True) s)) = name # S_restarts (fst s))
   \<and> (\<exists>s. rstep\<^sup>*\<^sup>* (shared0 (\<lambda>_. True), []) s \<and> S_stopping (fst s)
      \<and> S_restarts (fst (sched_step (Go 0 True) s)) = name # S_restarts (fst s))"
proof
  let ?s = "fold sched_step [Session_Stops name, Stop_Event name, Stop_Event name, Go 0 False, Go 0 False, Go 0 True,
    Go 1 False, Go 1 False] (shared0 (\<lambda>_. True), [])"
  have "S_up (fst ?s) name \<and> S_restarts (fst (sched_step (Go 1 True) ?s)) = name # S_restarts (fst ?s)"
    by (simp add: shared0_def unlock_def)
  then show "\<exists>s. rstep\<^sup>*\<^sup>* (shared0 (\<lambda>_. True), []) s \<and> S_up (fst s) name
      \<and> S_restarts (fst (sched_step (Go 1 True) s)) = name # S_restarts (fst s)"
    using schedule_reaches by blast
next
  let ?s = "fold sched_step [Session_Stops name, Stop_Event name, Go 0 False, Go 0 False, Shutdown_Begins]
    (shared0 (\<lambda>_. True), [])"
  have "S_stopping (fst ?s) \<and> S_restarts (fst (sched_step (Go 0 True) ?s)) = name # S_restarts (fst ?s)"
    by (simp add: shared0_def unlock_def)
  then show "\<exists>s. rstep\<^sup>*\<^sup>* (shared0 (\<lambda>_. True), []) s \<and> S_stopping (fst s)
      \<and> S_restarts (fst (sched_step (Go 0 True) s)) = name # S_restarts (fst s)"
    using schedule_reaches by blast
qed


section \<open>The retry loop\<close>

lemma retry_bounds:
  "retry succeeds cancelled i = (r, n, t) \<Longrightarrow> i \<le> max_attempts \<Longrightarrow>
   n \<le> max_attempts - i \<and> 0 \<le> t \<and> t \<le> sum_list (map waitTime [i..<max_attempts])
   \<and> (r \<longleftrightarrow> (\<exists>k < max_attempts. i \<le> k \<and> succeeds k \<and> (\<forall>j. i \<le> j \<and> j < k \<longrightarrow> \<not> succeeds j \<and> \<not> cancelled j)))"
proof (induction succeeds cancelled i arbitrary: r n t rule: retry.induct)
  case (1 succeeds cancelled i)
  have w: "0 \<le> waitTime j" for j by (simp add: waitTime_def second_def)
  then have s: "0 \<le> sum_list (map waitTime xs)" for xs by (induction xs) (simp_all add: add_nonneg_nonneg)
  show ?case
  proof (cases "i < max_attempts \<and> \<not> succeeds i \<and> \<not> cancelled i")
    case True
    then obtain r' n' t' where rec: "retry succeeds cancelled (Suc i) = (r', n', t')"
      "r = r'" "n = Suc n'" "t = waitTime i + t'"
      using "1.prems" by (auto simp: retry.simps [of _ _ i] split: prod.splits)
    have IH: "n' \<le> max_attempts - Suc i \<and> 0 \<le> t' \<and> t' \<le> sum_list (map waitTime [Suc i..<max_attempts])
        \<and> (r' \<longleftrightarrow> (\<exists>k < max_attempts. Suc i \<le> k \<and> succeeds k
            \<and> (\<forall>j. Suc i \<le> j \<and> j < k \<longrightarrow> \<not> succeeds j \<and> \<not> cancelled j)))"
      using "1.IH" True rec(1) by simp
    have "(\<exists>k < max_attempts. Suc i \<le> k \<and> succeeds k \<and> (\<forall>j. Suc i \<le> j \<and> j < k \<longrightarrow> \<not> succeeds j \<and> \<not> cancelled j)) \<longleftrightarrow>
        (\<exists>k < max_attempts. i \<le> k \<and> succeeds k \<and> (\<forall>j. i \<le> j \<and> j < k \<longrightarrow> \<not> succeeds j \<and> \<not> cancelled j))"
      using True by (metis Suc_leD Suc_leI le_eq_less_or_eq)
    then show ?thesis using IH True rec w [of i] by (auto simp: upt_conv_Cons)
  next
    case False
    then consider (last) "i = max_attempts" | (ok) "i < max_attempts" "succeeds i"
      | (cut) "i < max_attempts" "\<not> succeeds i" "cancelled i" using "1.prems"(2) by linarith
    then show ?thesis
    proof cases
      case ok
      then show ?thesis using "1.prems" s by (auto simp: retry.simps [of _ _ i])
    next
      case cut
      then have "\<not> (\<exists>k < max_attempts. i \<le> k \<and> succeeds k \<and> (\<forall>j. i \<le> j \<and> j < k \<longrightarrow> \<not> succeeds j \<and> \<not> cancelled j))"
        by (metis le_eq_less_or_eq order_refl)
      then show ?thesis using cut "1.prems" s by (auto simp: retry.simps [of _ _ i])
    qed (use "1.prems" s in \<open>auto simp: retry.simps [of _ _ max_attempts]\<close>)
  qed
qed




section \<open>Providers of the sessions\<close>

lemma enable_loop_calls:
  "enable_loop env ps sm = (e, sm') \<Longrightarrow>
   {p. EnableProvider p \<in> set (SM_calls sm')} \<subseteq> {p. EnableProvider p \<in> set (SM_calls sm)} \<union> set ps
   \<and> kernelSession sm' = kernelSession sm"
  by (induction ps arbitrary: sm) (fastforce simp: calls_def split: if_splits)+

text \<open>C8. On Windows 11 no kernel event source is enabled at all: the loop that enables providers
  runs over the manifest providers only, because the list with the system providers is a new
  variable inside the branch. The session gets at most the empty provider and the session
  watcher's, and there is no kernel session either.\<close>

theorem system_providers_never_enabled:
  assumes "IsSystemProviderSupported env" and "setupSessions c env (NewSessionManager c cfg) = (err, sm)"
  shows "{p. EnableProvider p \<in> set (SM_calls sm)} \<subseteq> {newProcessCorrelationProvider, watcherProvider}
    \<and> kernelSession sm = None"
proof -
  let ?sm = "NewSessionManager c cfg"
  let ?ps = "manifest_providers c cfg"
  have new: "SM_config ?sm = cfg" "kernelSession ?sm = None" "{p. EnableProvider p \<in> set (SM_calls ?sm)} = {}"
    by (simp_all add: NewSessionManager_def initProviders_def calls_def Let_def)
  obtain sm1 e sm2 where l: "enable_loop env ?ps sm1 = (e, sm2)" "SM_calls sm1 = SM_calls ?sm"
    "kernelSession sm1 = None" "kernelSession sm = kernelSession sm2"
    "{p. EnableProvider p \<in> set (SM_calls sm)} = {p. EnableProvider p \<in> set (SM_calls sm2)}"
    using assms new by (fastforce simp: setupSessions_def Let_def calls_def split: prod.splits option.splits if_splits)
  have "set ?ps \<subseteq> {newProcessCorrelationProvider, watcherProvider}"
    by (auto simp: manifest_providers_def manifest_providers_empty split: if_splits)
  then show ?thesis
    using enable_loop_calls [OF l(1)] l new by auto
qed

definition sample_session_env :: session_env where
  "sample_session_env = \<lparr>env_MajorVersion = 10, env_BuildNumber = 22631, env_kernel_start = (\<lambda>_. True),
     env_enable = (\<lambda>_. True), env_consumer_start = True, env_consumer_stop = True, env_manifest_stop = True,
     env_kernel_stop = True, env_restart_nt = True, env_rundown = (\<lambda>_. True), env_temp_kernel_start = True,
     env_temp_consumer_start = True, env_temp_kernel_stop = True, env_temp_consumer_stop = True,
     env_in_use = map_option (\<lambda>_. False), env_kernel_name = ''NT Kernel Logger''\<rparr>"

lemma two_providers: "f a \<noteq> x \<Longrightarrow> f b \<noteq> x \<Longrightarrow> S \<subseteq> {a, b} \<Longrightarrow> x \<notin> f ` S"
  by auto

text \<open>The default configuration asks for the system process provider and does not get it.\<close>

theorem system_providers_never_enabled_witness:
  "SystemProcessProviderGuid sample_etw \<in> Prov_GUID ` set (GetEnabledSystemProviders sample_etw default_collectors)
   \<and> SystemProcessProviderGuid sample_etw \<notin> Prov_GUID ` {p. EnableProvider p \<in>
        set (SM_calls (snd (setupSessions sample_etw sample_session_env (NewSessionManager sample_etw DefaultConfig))))}"
proof
  have "Prov_GUID ` set (GetEnabledSystemProviders sample_etw default_collectors) =
      Prov_GUID ` set (concat (map PG_SystemProviders (GetEnabledProviders sample_etw default_collectors)))"
    by (simp only: GetEnabledSystemProviders_def GetEnabledProviders_def combine_providers_exact(2))
  then show "SystemProcessProviderGuid sample_etw \<in> Prov_GUID ` set (GetEnabledSystemProviders sample_etw default_collectors)"
    by (simp add: GetEnabledProviders_def group_defs default_collectors_def system_provider_def)
  have w: "IsSystemProviderSupported sample_session_env"
    by (simp add: IsSystemProviderSupported_def sample_session_env_def)
  obtain err sm where r: "setupSessions sample_etw sample_session_env (NewSessionManager sample_etw DefaultConfig) = (err, sm)"
    by force
  have "Prov_GUID newProcessCorrelationProvider \<noteq> SystemProcessProviderGuid sample_etw"
    "Prov_GUID watcherProvider \<noteq> SystemProcessProviderGuid sample_etw"
    by (simp_all add: newProcessCorrelationProvider_def watcherProvider_def sample_etw_def
        MicrosoftWindowsKernelEventTracingGUID_def)
  moreover have "{p. EnableProvider p \<in>
      set (SM_calls (snd (setupSessions sample_etw sample_session_env (NewSessionManager sample_etw DefaultConfig))))} \<subseteq>
      {newProcessCorrelationProvider, watcherProvider}"
    using system_providers_never_enabled [OF w r] r by simp
  ultimately show "SystemProcessProviderGuid sample_etw \<notin> Prov_GUID ` {p. EnableProvider p \<in>
      set (SM_calls (snd (setupSessions sample_etw sample_session_env (NewSessionManager sample_etw DefaultConfig))))}"
    by (intro two_providers)
qed


section \<open>Restart policy and shutdown\<close>

text \<open>The kernel session is never restarted under the policy \<open>off\<close>, and under \<open>enabled\<close> only when
  nobody else uses it; sessions the exporter does not manage are left alone.\<close>

lemma restart_policy:
  assumes "HandleSessionStop c env g sm = Some (Some g')"
  shows "g' = g" and "g = SystemTraceControlGuid c \<or> g = EtwExporterGuid"
    and "g = SystemTraceControlGuid c \<Longrightarrow> RestartKernelSession (SessionWatcher (SM_config sm)) \<noteq> ''off''
      \<and> (RestartKernelSession (SessionWatcher (SM_config sm)) = ''enabled'' \<longrightarrow> env_in_use env (kernelSession sm) = Some False)"
  using assms by (auto simp: HandleSessionStop_def Let_def split: if_splits)

text \<open>A stop event of the exporter's own process never restarts anything.\<close>

lemma own_stop_ignored:
  "lib_ProcessId lib er = ownPID \<Longrightarrow> watcher_HandleSessionStop c env ownPID pg lib er m = Some (None, None)"
  by (simp add: watcher_HandleSessionStop_def split: option.split)

text \<open>A consumer that does not stop in time leaves everything else running: no session is stopped,
  the goroutines are not cancelled, and a second \<open>Stop\<close> does nothing.\<close>

lemma failed_stop_is_final:
  assumes "SM_running sm" and "SM_consumer sm \<noteq> None" and "\<not> env_consumer_stop env"
    and "sm_Stop env sm = (e, sm')"
  shows "e = Some ConsumerStopFailed" and "SM_cancelled sm' = SM_cancelled sm"
    and "SM_calls sm' = ConsumerStop # SM_calls sm" and "sm_Stop env' sm' = (None, sm')"
  using assms by (auto simp: sm_Stop_def calls_def Let_def)

text \<open>With only the disk or the interrupt collector and no session watcher, the consumer of
  Windows 10 is given a nil session.\<close>

lemma nil_session_in_consumer:
  assumes "\<not> IsSystemProviderSupported env" "\<not> wants_correlation (Collectors cfg)"
    "\<not> Watcher_Enabled (SessionWatcher cfg)" "setupSessions c env (NewSessionManager c cfg) = (None, sm)"
  shows "\<exists>ss. SM_consumer sm = Some ss \<and> False \<in> set ss"
  using assms
  by (auto simp: setupSessions_def setup_kernel_def manifest_providers_def manifest_providers_empty Let_def calls_def
      NewSessionManager_def initProviders_def split: if_splits)

end
