(* ===== verification/Stats_Collector.thy ===== *)
theory Stats_Collector
  imports Session_Manager
begin

text \<open>
  The statistics of the event pipeline itself (\<open>internal/etw/etw_stats_collector.go\<close>): the
  descriptors it announces, the metrics it sends on a scrape from the consumer, the two
  sessions and the event counters of the router.

  The counters of the ETW library are the record \<open>etw_stats\<close>. \<open>MustNewConstMetric\<close> panics when
  the number of label values is not that of the descriptor, and a panic is \<^const>\<open>None\<close>.
\<close>

section \<open>Event counters as an enumeration\<close>

lemma UNIV_event_counter: "UNIV = {C_Disk, C_Process, C_Thread, C_File, C_PerfInfo, C_SystemConfig, C_Image,
    C_PageFault, C_Network, C_Registry, C_SessionWatcher}"
  using event_counter.exhaust by auto

instantiation event_counter :: enum
begin

definition enum_event_counter :: "event_counter list" where
  "enum_event_counter = [C_Disk, C_Process, C_Thread, C_File, C_PerfInfo, C_SystemConfig, C_Image,
     C_PageFault, C_Network, C_Registry, C_SessionWatcher]"

definition enum_all_event_counter :: "(event_counter \<Rightarrow> bool) \<Rightarrow> bool" where
  "enum_all_event_counter P \<longleftrightarrow> list_all P enum_class.enum"

definition enum_ex_event_counter :: "(event_counter \<Rightarrow> bool) \<Rightarrow> bool" where
  "enum_ex_event_counter P \<longleftrightarrow> list_ex P enum_class.enum"

instance
  by standard (auto simp: enum_event_counter_def enum_all_event_counter_def enum_ex_event_counter_def
      UNIV_event_counter list_all_iff list_ex_iff)

end


section \<open>Descriptors\<close>

definition consumerEventsLostDesc :: prom_desc where
  "consumerEventsLostDesc = \<lparr>Desc_Name = ''etw_stat_consumer_events_lost_total'', Desc_Labels = []\<rparr>"

definition trace_desc :: "string \<Rightarrow> prom_desc" where
  "trace_desc name = \<lparr>Desc_Name = name, Desc_Labels = [''trace'']\<rparr>"

definition traceRTEventsLostDesc :: prom_desc where
  "traceRTEventsLostDesc = trace_desc ''etw_stat_consumer_rt_events_lost_total''"

definition traceRTBuffersLostDesc :: prom_desc where
  "traceRTBuffersLostDesc = trace_desc ''etw_stat_consumer_rt_buffers_lost_total''"

definition traceParseErrorsDesc :: prom_desc where
  "traceParseErrorsDesc = trace_desc ''etw_stat_consumer_event_parse_errors_total''"

definition tracePropParseErrorsDesc :: prom_desc where
  "tracePropParseErrorsDesc = trace_desc ''etw_stat_consumer_property_parse_errors_total''"

definition sessionBuffersInUseDesc :: prom_desc where
  "sessionBuffersInUseDesc = trace_desc ''etw_stat_session_buffers_in_use''"

definition sessionBuffersFreeDesc :: prom_desc where
  "sessionBuffersFreeDesc = trace_desc ''etw_stat_session_buffers_free''"

definition sessionEventsLostDesc :: prom_desc where
  "sessionEventsLostDesc = trace_desc ''etw_stat_session_events_lost_total''"

definition sessionRTBuffersLostDesc :: prom_desc where
  "sessionRTBuffersLostDesc = trace_desc ''etw_stat_session_realtime_buffers_lost_total''"

definition providerEventsReceivedDesc :: prom_desc where
  "providerEventsReceivedDesc = \<lparr>Desc_Name = ''etw_stat_handler_events_received_total'', Desc_Labels = [''provider'']\<rparr>"

definition stats_Describe :: "prom_desc list" where
  "stats_Describe = [consumerEventsLostDesc, traceRTEventsLostDesc, traceRTBuffersLostDesc, traceParseErrorsDesc,
     tracePropParseErrorsDesc, sessionBuffersInUseDesc, sessionBuffersFreeDesc, sessionEventsLostDesc,
     sessionRTBuffersLostDesc, providerEventsReceivedDesc]"


section \<open>Metrics\<close>

record trace_counters =
  TC_RTLostEvents :: u64
  TC_RTLostBuffer :: u64
  TC_ErrorEvents :: u64
  TC_ErrorPropsParse :: u64

record session_properties =
  SP_TraceName :: string
  SP_NumberOfBuffers :: u32
  SP_FreeBuffers :: u32
  SP_EventsLost :: u32
  SP_RealTimeBuffersLost :: u32

text \<open>A session is started or not, and its query gives its properties or an error.\<close>

record session_status =
  SS_started :: bool
  SS_query :: "session_properties option"

record etw_stats =
  ES_LostEvents :: u64
  ES_traces :: "(string \<times> trace_counters) list"
  ES_manifest :: session_status
  ES_kernel :: session_status

datatype value_type = CounterValue | GaugeValue

definition MustNewConstMetric :: "prom_desc \<Rightarrow> value_type \<Rightarrow> nat \<Rightarrow> string list \<Rightarrow> metric option" where
  "MustNewConstMetric d vt v labels =
     (if length labels = length (Desc_Labels d)
      then Some (case vt of CounterValue \<Rightarrow> CounterMetric (Desc_Name d) v labels
                 | GaugeValue \<Rightarrow> GaugeMetric (Desc_Name d) (int v) labels)
      else None)"

definition collectConsumerStats :: "etw_stats \<Rightarrow> metric option list" where
  "collectConsumerStats es =
     MustNewConstMetric consumerEventsLostDesc CounterValue (unat (ES_LostEvents es)) []
     # concat (map (\<lambda>(traceName, trace).
         [MustNewConstMetric traceRTEventsLostDesc CounterValue (unat (TC_RTLostEvents trace)) [traceName],
          MustNewConstMetric traceRTBuffersLostDesc CounterValue (unat (TC_RTLostBuffer trace)) [traceName],
          MustNewConstMetric traceParseErrorsDesc CounterValue (unat (TC_ErrorEvents trace)) [traceName],
          MustNewConstMetric tracePropParseErrorsDesc CounterValue (unat (TC_ErrorPropsParse trace)) [traceName]])
         (ES_traces es))"

definition collectSessionStats :: "session_status option \<Rightarrow> metric option list" where
  "collectSessionStats session =
     (case session of
        None \<Rightarrow> []
      | Some st \<Rightarrow>
          if \<not> SS_started st then []
          else case SS_query st of
              None \<Rightarrow> []
            | Some prop \<Rightarrow>
                [MustNewConstMetric sessionBuffersInUseDesc GaugeValue (unat (SP_NumberOfBuffers prop)) [SP_TraceName prop],
                 MustNewConstMetric sessionBuffersFreeDesc GaugeValue (unat (SP_FreeBuffers prop)) [SP_TraceName prop],
                 MustNewConstMetric sessionEventsLostDesc CounterValue (unat (SP_EventsLost prop)) [SP_TraceName prop],
                 MustNewConstMetric sessionRTBuffersLostDesc CounterValue (unat (SP_RealTimeBuffersLost prop)) [SP_TraceName prop]])"

definition newProviderMetric :: "string \<Rightarrow> u64 \<Rightarrow> metric option" where
  "newProviderMetric providerName n =
     MustNewConstMetric providerEventsReceivedDesc CounterValue (unat n) [providerName]"

definition provider_names :: "(string \<times> event_counter) list" where
  "provider_names =
     [(''microsoft-windows-kernel-disk'', C_Disk), (''microsoft-windows-kernel-process'', C_Process),
      (''thread-kernel'', C_Thread), (''microsoft-windows-kernel-file'', C_File), (''perfinfo-kernel'', C_PerfInfo),
      (''system-config-kernel'', C_SystemConfig), (''image-kernel'', C_Image), (''pagefault-kernel'', C_PageFault),
      (''microsoft-windows-kernel-network'', C_Network), (''microsoft-windows-kernel-registry'', C_Registry),
      (''microsoft-windows-kernel-eventtracing'', C_SessionWatcher)]"

definition collectProviderEventStats :: "event_handler option \<Rightarrow> metric option list" where
  "collectProviderEventStats eventHandler =
     (case eventHandler of
        None \<Rightarrow> []
      | Some eh \<Rightarrow> map (\<lambda>(name, k). newProviderMetric name (eventCounts eh k)) provider_names)"

text \<open>The metrics of a scrape, or a panic.\<close>

definition stats_Collect :: "etw_stats \<Rightarrow> session_manager \<Rightarrow> event_handler option \<Rightarrow> metric list option" where
  "stats_Collect es sm eventHandler =
     (if \<not> SM_running sm then Some []
      else those
        ((if SM_consumer sm \<noteq> None then collectConsumerStats es else [])
         @ collectSessionStats (map_option (\<lambda>_. ES_manifest es) (manifestSession sm))
         @ collectSessionStats (map_option (\<lambda>_. ES_kernel es) (kernelSession sm))
         @ collectProviderEventStats eventHandler))"

section \<open>Metrics match their descriptors\<close>

fun describes :: "prom_desc \<Rightarrow> metric \<Rightarrow> bool" where
  "describes d (CounterMetric name v labels) \<longleftrightarrow> Desc_Name d = name \<and> length labels = length (Desc_Labels d)"
| "describes d (GaugeMetric name v labels) \<longleftrightarrow> Desc_Name d = name \<and> length labels = length (Desc_Labels d)"
| "describes d (HistogramMetric name n s bs labels) \<longleftrightarrow> False"

definition sendable :: "metric option \<Rightarrow> bool" where
  "sendable m \<longleftrightarrow> (case m of Some m \<Rightarrow> list_ex (\<lambda>d. describes d m) stats_Describe | None \<Rightarrow> False)"

lemma those_sendable:
  "list_all sendable ms \<Longrightarrow> \<exists>xs. those ms = Some xs \<and> list_all (\<lambda>m. list_ex (\<lambda>d. describes d m) stats_Describe) xs"
proof (induction ms)
  case (Cons m ms)
  then show ?case by (cases m) (auto simp: sendable_def)
qed simp

lemma sendable_MustNewConstMetric:
  "d \<in> set stats_Describe \<Longrightarrow> length labels = length (Desc_Labels d) \<Longrightarrow> sendable (MustNewConstMetric d vt v labels)"
  by (cases vt) (auto simp: sendable_def MustNewConstMetric_def list_ex_iff intro!: bexI [of _ d])

lemma described [simp]:
  "consumerEventsLostDesc \<in> set stats_Describe" "providerEventsReceivedDesc \<in> set stats_Describe"
  "traceRTEventsLostDesc \<in> set stats_Describe" "traceRTBuffersLostDesc \<in> set stats_Describe"
  "traceParseErrorsDesc \<in> set stats_Describe" "tracePropParseErrorsDesc \<in> set stats_Describe"
  "sessionBuffersInUseDesc \<in> set stats_Describe" "sessionBuffersFreeDesc \<in> set stats_Describe"
  "sessionEventsLostDesc \<in> set stats_Describe" "sessionRTBuffersLostDesc \<in> set stats_Describe"
  unfolding stats_Describe_def by (simp_all only: list.set insert_iff simp_thms)

lemmas trace_descs = traceRTEventsLostDesc_def traceRTBuffersLostDesc_def traceParseErrorsDesc_def
  tracePropParseErrorsDesc_def sessionBuffersInUseDesc_def sessionBuffersFreeDesc_def sessionEventsLostDesc_def
  sessionRTBuffersLostDesc_def trace_desc_def

lemma described_labels [simp]:
  "length (Desc_Labels consumerEventsLostDesc) = 0" "length (Desc_Labels providerEventsReceivedDesc) = 1"
  "length (Desc_Labels traceRTEventsLostDesc) = 1" "length (Desc_Labels traceRTBuffersLostDesc) = 1"
  "length (Desc_Labels traceParseErrorsDesc) = 1" "length (Desc_Labels tracePropParseErrorsDesc) = 1"
  "length (Desc_Labels sessionBuffersInUseDesc) = 1" "length (Desc_Labels sessionBuffersFreeDesc) = 1"
  "length (Desc_Labels sessionEventsLostDesc) = 1" "length (Desc_Labels sessionRTBuffersLostDesc) = 1"
  by (simp_all add: trace_descs consumerEventsLostDesc_def providerEventsReceivedDesc_def)

lemma parts_sendable:
  "list_all sendable (collectConsumerStats es)" "list_all sendable (collectSessionStats st)"
  "list_all sendable (collectProviderEventStats eh)"
proof -
  note sendable_MustNewConstMetric [simp]
  show "list_all sendable (collectConsumerStats es)"
    by (auto simp: collectConsumerStats_def list_all_iff)
  show "list_all sendable (collectSessionStats st)"
    by (auto simp: collectSessionStats_def list_all_iff split: option.split)
  show "list_all sendable (collectProviderEventStats eh)"
    by (auto simp: collectProviderEventStats_def newProviderMetric_def list_all_iff split: option.split)
qed

text \<open>C28. The statistics never panic and send nothing that was not announced: for any counters of
  the library and any state of the sessions, each metric of a scrape has the name of one of
  the ten descriptors and as many label values as it has labels. Nothing is sent while the
  session manager does not run.\<close>

theorem stats_metrics_typed:
  "\<exists>ms. stats_Collect es sm eventHandler = Some ms
     \<and> list_all (\<lambda>m. list_ex (\<lambda>d. describes d m) stats_Describe) ms \<and> (SM_running sm \<or> ms = [])"
proof (cases "SM_running sm")
  case True
  have "list_all sendable ((if SM_consumer sm \<noteq> None then collectConsumerStats es else [])
         @ collectSessionStats (map_option (\<lambda>_. ES_manifest es) (manifestSession sm))
         @ collectSessionStats (map_option (\<lambda>_. ES_kernel es) (kernelSession sm))
         @ collectProviderEventStats eventHandler)"
    using parts_sendable by simp
  from those_sendable [OF this] True show ?thesis by (simp add: stats_Collect_def)
qed (simp add: stats_Collect_def)


section \<open>The published event counts\<close>

fun deliver_all :: "etw_consts \<Rightarrow> 'e etw_lib \<Rightarrow> u64 \<Rightarrow> ('e \<times> nat option) list \<Rightarrow>
    event_handler \<times> world \<Rightarrow> (event_handler \<times> world) option" where
  "deliver_all c lib boot [] st = Some st"
| "deliver_all c lib boot ((er, choice) # ers) st =
     (case deliver c lib boot choice er st of None \<Rightarrow> None | Some st' \<Rightarrow> deliver_all c lib boot ers st')"

lemma bump_guids [simp]:
  "guidToCounter (bump k eh) = guidToCounter eh" "guidToCounter (bump_provider g eh) = guidToCounter eh"
  by (simp_all add: bump_def bump_provider_def split: option.split)

lemma deliver_guids:
  "deliver c lib boot choice er (eh, w) = Some (eh', w') \<Longrightarrow> guidToCounter eh' = guidToCounter eh"
  by (auto simp: deliver_def EventRecordCallback_def RouteEvent_def Let_def split: option.splits if_splits prod.splits)

text \<open>How many of the events a counter counts.\<close>

definition events_of :: "etw_consts \<Rightarrow> 'e etw_lib \<Rightarrow> event_handler \<Rightarrow> ('e \<times> nat option) list \<Rightarrow> event_counter \<Rightarrow> nat" where
  "events_of c lib eh ers k = length (filter (\<lambda>(er, _). event_counter_of c lib eh er = Some k) ers)"

lemma deliver_all_counts:
  assumes "world_inv n w" and "list_all (\<lambda>(er, _). unat (lib_Processor lib er) < n) ers"
  shows "\<exists>eh' w'. deliver_all c lib boot ers (eh, w) = Some (eh', w') \<and> world_inv n w'
    \<and> (\<forall>k. eventCounts eh' k = eventCounts eh k + of_nat (events_of c lib eh ers k))"
  using assms
proof (induction ers arbitrary: eh w)
  case Nil
  then show ?case by (simp add: events_of_def)
next
  case (Cons e ers)
  obtain er choice where e: "e = (er, choice)" by force
  obtain eh1 w1 where d: "deliver c lib boot choice er (eh, w) = Some (eh1, w1)" "world_inv n w1"
    "eventCounts eh1 = (case event_counter_of c lib eh er of
       Some k \<Rightarrow> (eventCounts eh)(k := eventCounts eh k + 1) | None \<Rightarrow> eventCounts eh)"
    using deliver_total [OF Cons.prems(1), of lib er c boot choice eh] Cons.prems(2) e by auto
  obtain eh' w' where r: "deliver_all c lib boot ers (eh1, w1) = Some (eh', w')" "world_inv n w'"
    "\<forall>k. eventCounts eh' k = eventCounts eh1 k + of_nat (events_of c lib eh1 ers k)"
    using Cons.IH [OF d(2), of eh1] Cons.prems(2) by auto
  have "event_counter_of c lib eh1 = event_counter_of c lib eh"
    using deliver_guids [OF d(1)] by (simp add: event_counter_of_def fun_eq_iff)
  then have "eventCounts eh' k = eventCounts eh k + of_nat (events_of c lib eh (e # ers) k)" for k
    using r(3) d(3) by (auto simp: events_of_def e split: option.splits)
  then show ?case using d(1) r(1,2) e by simp
qed

lemma provider_counters: "distinct (map snd provider_names)" "set (map snd provider_names) = UNIV"
  by (auto simp: provider_names_def UNIV_event_counter)

lemma sum_list_indicator:
  "distinct ks \<Longrightarrow> k \<in> set ks \<Longrightarrow> sum_list (map (\<lambda>j. f j + (if j = k then 1 else 0)) ks) = Suc (sum_list (map f ks))"
  by (induction ks) (auto simp: sum_list_addf intro!: arg_cong [of _ _ sum_list] map_cong)

lemma events_of_total:
  "sum_list (map (events_of c lib eh ers) (map snd provider_names)) =
   length (filter (\<lambda>(er, _). event_counter_of c lib eh er \<noteq> None) ers)"
proof (induction ers)
  case (Cons e ers)
  obtain er choice where e: "e = (er, choice)" by force
  show ?case
  proof (cases "event_counter_of c lib eh er")
    case None
    then have "events_of c lib eh (e # ers) = events_of c lib eh ers" by (simp add: events_of_def e fun_eq_iff)
    then show ?thesis using Cons.IH None e by simp
  next
    case (Some k)
    then have "events_of c lib eh (e # ers) = (\<lambda>j. events_of c lib eh ers j + (if j = k then 1 else 0))"
      by (simp add: events_of_def e fun_eq_iff)
    moreover have "sum_list (map (\<lambda>j. events_of c lib eh ers j + (if j = k then 1 else 0)) (map snd provider_names)) =
        Suc (sum_list (map (events_of c lib eh ers) (map snd provider_names)))"
      by (rule sum_list_indicator [OF provider_counters(1)]) (simp only: provider_counters(2) UNIV_I)
    ultimately show ?thesis unfolding Cons.IH using Some e by (simp del: map_map)
  qed
qed (simp add: events_of_def provider_names_def)

lemma events_of_le: "events_of c lib eh ers k \<le> length ers"
  by (simp add: events_of_def)

text \<open>C23. What is published about the pipeline is what went through it: after any sequence of fewer
  than \<open>2 ^ 64\<close> events from a fresh router, each run to its end, the metric of each provider
  is the number of the delivered events that belong to it, and the eleven metrics add up to
  the number of events that have a counter at all, none being counted twice.\<close>

theorem published_event_counts:
  assumes "world_inv n w" and "list_all (\<lambda>(er, _). unat (lib_Processor lib er) < n) ers"
    and "eventCounts eh = (\<lambda>_. 0)" and "length ers < 2 ^ 64"
  shows "\<exists>eh' w'. deliver_all c lib boot ers (eh, w) = Some (eh', w')
    \<and> collectProviderEventStats (Some eh') = map (\<lambda>(name, k).
        Some (CounterMetric ''etw_stat_handler_events_received_total'' (events_of c lib eh ers k) [name])) provider_names
    \<and> sum_list (map (events_of c lib eh ers) (map snd provider_names)) =
        length (filter (\<lambda>(er, _). event_counter_of c lib eh er \<noteq> None) ers)"
proof -
  obtain eh' w' where d: "deliver_all c lib boot ers (eh, w) = Some (eh', w')"
    "\<forall>k. eventCounts eh' k = eventCounts eh k + of_nat (events_of c lib eh ers k)"
    using deliver_all_counts [OF assms(1,2)] by blast
  have "unat (eventCounts eh' k) = events_of c lib eh ers k" for k
    using d(2) assms(3,4) events_of_le [of c lib eh ers k] by (simp add: unsigned_of_nat take_bit_nat_eq_self)
  then have "newProviderMetric name (eventCounts eh' k) =
      Some (CounterMetric ''etw_stat_handler_events_received_total'' (events_of c lib eh ers k) [name])" for name k
    by (simp add: newProviderMetric_def MustNewConstMetric_def) (simp add: providerEventsReceivedDesc_def)
  then show ?thesis using d(1) events_of_total by (auto simp: collectProviderEventStats_def)
qed

theorem published_event_counts_witness:
  "\<exists>eh' w'. deliver_all sample_etw byte_lib 0 [(sample_read, None), (sample_read, Some 3)] (default_router, start_world 4
       \<lparr>Net_Enabled = True, Net_ConnectionHealth = True, Net_ByProtocol = True, Net_RetransmissionRate = True\<rparr>
       True True 0) = Some (eh', w')
   \<and> length (collectProviderEventStats (Some eh')) = 11"
proof -
  have a: "list_all (\<lambda>(er, _). unat (lib_Processor byte_lib er) < 4) [(sample_read, None), (sample_read, Some (3::nat))]"
    by (simp add: byte_lib_def sample_read_def)
  have z: "eventCounts default_router = (\<lambda>_. 0)"
    unfolding default_router_def register_fold
    by (rule fold_invariant) (auto simp: empty_event_handler_def addRoute_def)
  have l: "length [(sample_read, None), (sample_read, Some (3::nat))] < 2 ^ 64" by simp
  from published_event_counts [OF world_inv_start a z l] show ?thesis
    by (fastforce simp: provider_names_def)
qed

end
