(* ===== verification/Logging.thy ===== *)
theory Logging
  imports Config
begin

text \<open>
  Logging (\<open>internal/logger/log.go\<close>): the writers made from the configured outputs, the default
  logger, the component loggers copied from it, and the loggers of the ETW library.

  Writers of the logging package are values of \<open>log_writer\<close> that hold what the program hands to
  them; \<open>writes_to\<close> reads off the destinations an entry ends up at. The file system and the
  time zone database are the two functions of \<open>log_env\<close>, and \<open>log_lib\<close> has the two time format
  constants of the package.
\<close>

section \<open>Levels\<close>

datatype log_level = TraceLevel | DebugLevel | InfoLevel | WarnLevel | ErrorLevel | FatalLevel

fun severity :: "log_level \<Rightarrow> nat" where
  "severity TraceLevel = 1"
| "severity DebugLevel = 2"
| "severity InfoLevel = 3"
| "severity WarnLevel = 4"
| "severity ErrorLevel = 5"
| "severity FatalLevel = 6"

lemma severity_inject [simp]: "severity a = severity b \<longleftrightarrow> a = b"
  by (cases a; cases b) simp_all

instantiation log_level :: linorder
begin

definition less_eq_log_level :: "log_level \<Rightarrow> log_level \<Rightarrow> bool" where
  "less_eq_log_level a b \<longleftrightarrow> severity a \<le> severity b"

definition less_log_level :: "log_level \<Rightarrow> log_level \<Rightarrow> bool" where
  "less_log_level a b \<longleftrightarrow> severity a < severity b"

instance
  by standard (auto simp: less_eq_log_level_def less_log_level_def)

end

definition parseLogLevel :: "string \<Rightarrow> log_level" where
  "parseLogLevel levelStr =
     (if levelStr = ''trace'' then TraceLevel
      else if levelStr = ''debug'' then DebugLevel
      else if levelStr = ''info'' then InfoLevel
      else if levelStr = ''warn'' \<or> levelStr = ''warning'' then WarnLevel
      else if levelStr = ''error'' then ErrorLevel
      else if levelStr = ''fatal'' then FatalLevel
      else InfoLevel)"


section \<open>Time\<close>

datatype location = LocalTime | UTC | Zone string

record log_env =
  log_mkdir_parent :: "string \<Rightarrow> bool"
  LoadLocation :: "string \<Rightarrow> location option"

record log_lib =
  TimeFormatUnix :: string
  TimeFormatUnixMs :: string

definition parseTimeLocation :: "log_env \<Rightarrow> string \<Rightarrow> location" where
  "parseTimeLocation env loc =
     (if loc = ''Local'' then LocalTime
      else if loc = ''UTC'' then UTC
      else case LoadLocation env loc of Some l \<Rightarrow> l | None \<Rightarrow> LocalTime)"

definition mapTimeFormat :: "log_lib \<Rightarrow> string \<Rightarrow> string" where
  "mapTimeFormat lib fmt =
     (if fmt = ''Unix'' then TimeFormatUnix lib
      else if fmt = ''UnixMs'' then TimeFormatUnixMs lib
      else fmt)"


section \<open>The text format\<close>

record formatter_args =
  FA_Level :: string
  FA_Time :: string
  FA_Goid :: string
  FA_Caller :: string
  FA_Message :: string

text \<open>\<open>a.Level[0] - 32\<close> is byte arithmetic and wraps.\<close>

definition sub32 :: "char \<Rightarrow> char" where
  "sub32 b = char_of (unat (of_nat (of_char b) - 32 :: u8))"

definition newline :: char where "newline = CHR 0x0A"

definition glog_line :: "formatter_args \<Rightarrow> string" where
  "glog_line a =
     (case FA_Level a of b # _ \<Rightarrow> [sub32 b] | [] \<Rightarrow> ''?'')
     @ FA_Time a @ '' '' @ FA_Goid a @ '' '' @ FA_Caller a @ ''] '' @ FA_Message a @ [newline]"

text \<open>\<open>write\<close> is the method of the underlying \<open>io.Writer\<close>.\<close>

definition GlogFormatter :: "(string \<Rightarrow> 'r) \<Rightarrow> formatter_args \<Rightarrow> 'r" where
  "GlogFormatter write a = write (glog_line a)"


section \<open>Writers\<close>

datatype stream = Stdout | Stderr

datatype con_formatter = DefaultFormat | LogfmtFormat | GlogFormat

record file_writer =
  FW_Filename :: string
  FW_MaxSize :: i64
  FW_MaxBackups :: int
  FW_TimeFormat :: string
  FW_LocalTime :: bool
  FW_HostName :: bool
  FW_ProcessID :: bool
  FW_EnsureFolder :: bool

datatype log_writer =
    IOWriter stream
  | ConsoleWriter bool bool stream con_formatter
  | FileWriter file_writer
  | SyslogWriter string string string string string
  | EventlogWriter string u64 string
  | AsyncWriter nat log_writer
  | MultiEntryWriter "log_writer list"

datatype log_error = MissingSection string | UnknownOutputType string | MkdirFailed string | EtwLoggerFailed

definition with_async :: "bool \<Rightarrow> log_writer \<Rightarrow> log_writer" where
  "with_async async w = (if async then AsyncWriter 4096 w else w)"

definition createConsoleWriter :: "console_config \<Rightarrow> log_writer" where
  "createConsoleWriter cfg =
     (let base = (if Con_Writer cfg = ''stdout'' then Stdout
                  else if Con_Writer cfg = ''stderr'' then Stderr else Stderr);
          w = (if Con_FastIO cfg then IOWriter base
               else ConsoleWriter (Con_ColorOutput cfg) (Con_QuoteString cfg) base
                 (if Con_Format cfg = ''logfmt'' then LogfmtFormat
                  else if Con_Format cfg = ''glog'' then GlogFormat
                  else DefaultFormat))
      in with_async (Con_Async cfg) w)"

definition createFileWriter :: "log_lib \<Rightarrow> log_env \<Rightarrow> file_config \<Rightarrow> log_error + log_writer" where
  "createFileWriter lib env cfg =
     (if File_EnsureFolder cfg \<and> \<not> log_mkdir_parent env (File_Filename cfg)
      then Inl (MkdirFailed (File_Filename cfg))
      else Inr (with_async (File_Async cfg) (FileWriter
        \<lparr>FW_Filename = File_Filename cfg, FW_MaxSize = word_of_int (File_MaxSize cfg) * 1024 * 1024,
         FW_MaxBackups = File_MaxBackups cfg, FW_TimeFormat = mapTimeFormat lib (File_TimeFormat cfg),
         FW_LocalTime = File_LocalTime cfg, FW_HostName = File_HostName cfg,
         FW_ProcessID = File_ProcessID cfg, FW_EnsureFolder = File_EnsureFolder cfg\<rparr>)))"

definition createSyslogWriter :: "syslog_config \<Rightarrow> log_writer" where
  "createSyslogWriter cfg = with_async (Sys_Async cfg)
     (SyslogWriter (Sys_Network cfg) (Sys_Address cfg) (Sys_Hostname cfg) (Sys_Tag cfg) (Sys_Marker cfg))"

definition createEventlogWriter :: "eventlog_config \<Rightarrow> log_writer" where
  "createEventlogWriter cfg = with_async (Evl_Async cfg)
     (EventlogWriter (Evl_Source cfg) (word_of_int (Evl_ID cfg)) (Evl_Host cfg))"

text \<open>A disabled output has no writer and no error.\<close>

definition createWriter :: "log_lib \<Rightarrow> log_env \<Rightarrow> log_output \<Rightarrow> log_error + log_writer option" where
  "createWriter lib env out =
     (if \<not> Out_Enabled out then Inr None
      else if Out_Type out = ''console'' then
        (case Out_Console out of None \<Rightarrow> Inl (MissingSection ''console'')
         | Some cfg \<Rightarrow> Inr (Some (createConsoleWriter cfg)))
      else if Out_Type out = ''file'' then
        (case Out_File out of None \<Rightarrow> Inl (MissingSection ''file'')
         | Some cfg \<Rightarrow> map_sum id Some (createFileWriter lib env cfg))
      else if Out_Type out = ''syslog'' then
        (case Out_Syslog out of None \<Rightarrow> Inl (MissingSection ''syslog'')
         | Some cfg \<Rightarrow> Inr (Some (createSyslogWriter cfg)))
      else if Out_Type out = ''eventlog'' then
        (case Out_Eventlog out of None \<Rightarrow> Inl (MissingSection ''eventlog'')
         | Some cfg \<Rightarrow> Inr (Some (createEventlogWriter cfg)))
      else Inl (UnknownOutputType (Out_Type out)))"

fun make_writers :: "log_lib \<Rightarrow> log_env \<Rightarrow> log_output list \<Rightarrow> log_writer list \<Rightarrow> log_error + log_writer list" where
  "make_writers lib env [] ws = Inr ws"
| "make_writers lib env (out # outs) ws =
     (if \<not> Out_Enabled out then make_writers lib env outs ws
      else case createWriter lib env out of
          Inl e \<Rightarrow> Inl e
        | Inr None \<Rightarrow> make_writers lib env outs ws
        | Inr (Some w) \<Rightarrow> make_writers lib env outs (ws @ [w]))"

definition createMultiWriter :: "log_lib \<Rightarrow> log_env \<Rightarrow> log_output list \<Rightarrow> log_error + log_writer" where
  "createMultiWriter lib env outputs =
     (case make_writers lib env outputs [] of
        Inl e \<Rightarrow> Inl e
      | Inr ws \<Rightarrow> Inr (case ws of [] \<Rightarrow> IOWriter Stderr | [w] \<Rightarrow> w | _ \<Rightarrow> MultiEntryWriter ws))"


section \<open>Loggers\<close>

record logger =
  Lg_Level :: log_level
  Lg_Caller :: int
  Lg_TimeField :: string
  Lg_TimeFormat :: string
  Lg_TimeLocation :: location
  Lg_Writer :: log_writer
  Lg_Context :: "(string \<times> string) list"

text \<open>The growth factor of the sampler's back-off is the fraction \<open>3/2\<close>.\<close>

record backoff_config =
  InitialInterval :: duration
  MaxInterval :: duration
  Factor :: "int \<times> int"
  ResetInterval :: duration

datatype etw_logger_name = ConsumerLogger | SessionLogger | EtwDefaultLogger

record logging_state =
  DefaultLogger :: logger
  mainSampler :: "backoff_config option"
  Etw_Levels :: "etw_logger_name \<rightharpoonup> log_level"
  Etw_Context :: "(string \<times> string) list"
  Etw_Writer :: "log_writer option"

definition ConfigureETWLibraryLogger :: "string \<Rightarrow> log_writer \<Rightarrow> logging_state \<Rightarrow> logging_state \<times> log_error option" where
  "ConfigureETWLibraryLogger level sharedMultiWriter st =
     (st\<lparr>Etw_Levels := Etw_Levels st ++ [ConsumerLogger \<mapsto> parseLogLevel level,
           SessionLogger \<mapsto> parseLogLevel level, EtwDefaultLogger \<mapsto> parseLogLevel level],
         Etw_Context := [(''source'', ''etw-lib'')], Etw_Writer := Some sharedMultiWriter\<rparr>, None)"

definition ConfigureLogging :: "log_lib \<Rightarrow> log_env \<Rightarrow> logging_config \<Rightarrow> logging_state \<Rightarrow> logging_state \<times> log_error option" where
  "ConfigureLogging lib env cfg st =
     (case createMultiWriter lib env (Log_Outputs cfg) of
        Inl e \<Rightarrow> (st, Some e)
      | Inr multiWriter \<Rightarrow>
          let d = Log_Defaults cfg;
              st1 = st\<lparr>DefaultLogger := \<lparr>Lg_Level = parseLogLevel (Log_Level d), Lg_Caller = Log_Caller d,
                  Lg_TimeField = Log_TimeField d, Lg_TimeFormat = mapTimeFormat lib (Log_TimeFormat d),
                  Lg_TimeLocation = parseTimeLocation env (Log_TimeLocation d),
                  Lg_Writer = multiWriter, Lg_Context = []\<rparr>,
                mainSampler := Some \<lparr>InitialInterval = 1 * second, MaxInterval = 3600 * second,
                  Factor = (3, 2), ResetInterval = 600 * second\<rparr>\<rparr>
          in (case ConfigureETWLibraryLogger (Log_LibLevel cfg) multiWriter st1 of
                (st2, Some _) \<Rightarrow> (st2, Some EtwLoggerFailed)
              | (st2, None) \<Rightarrow> (st2, None)))"

definition NewLoggerWithContext :: "string \<Rightarrow> logging_state \<Rightarrow> logger" where
  "NewLoggerWithContext component st =
     (let bl = DefaultLogger st
      in bl\<lparr>Lg_Caller := 0, Lg_Context := Lg_Context bl @ [(''component'', component)]\<rparr>)"

text \<open>A sampled logger is the component's logger with the sampler configured at that time, a nil
  sampler included.\<close>

definition NewSampledLoggerCtx :: "string \<Rightarrow> logging_state \<Rightarrow> logger \<times> backoff_config option" where
  "NewSampledLoggerCtx component st = (NewLoggerWithContext component st, mainSampler st)"

section \<open>Where entries go\<close>

datatype destination = To_Stream stream | To_File string | To_Syslog string string | To_Eventlog string

fun writes_to :: "log_writer \<Rightarrow> destination list" where
  "writes_to (IOWriter s) = [To_Stream s]"
| "writes_to (ConsoleWriter c q s f) = [To_Stream s]"
| "writes_to (FileWriter f) = [To_File (FW_Filename f)]"
| "writes_to (SyslogWriter network address h t m) = [To_Syslog network address]"
| "writes_to (EventlogWriter source i h) = [To_Eventlog source]"
| "writes_to (AsyncWriter n w) = writes_to w"
| "writes_to (MultiEntryWriter ws) = concat (map writes_to ws)"

text \<open>What the configuration of an output asks for, and when it can be had.\<close>

definition output_destination :: "log_output \<Rightarrow> destination option" where
  "output_destination out =
     (if Out_Type out = ''console''
      then map_option (\<lambda>cfg. To_Stream (if Con_Writer cfg = ''stdout'' then Stdout else Stderr)) (Out_Console out)
      else if Out_Type out = ''file'' then map_option (\<lambda>cfg. To_File (File_Filename cfg)) (Out_File out)
      else if Out_Type out = ''syslog''
      then map_option (\<lambda>cfg. To_Syslog (Sys_Network cfg) (Sys_Address cfg)) (Out_Syslog out)
      else if Out_Type out = ''eventlog'' then map_option (\<lambda>cfg. To_Eventlog (Evl_Source cfg)) (Out_Eventlog out)
      else None)"

definition folder_ok :: "log_env \<Rightarrow> log_output \<Rightarrow> bool" where
  "folder_ok env out \<longleftrightarrow> (Out_Type out = ''file'' \<longrightarrow>
     (case Out_File out of Some cfg \<Rightarrow> File_EnsureFolder cfg \<longrightarrow> log_mkdir_parent env (File_Filename cfg) | None \<Rightarrow> True))"

definition usable :: "log_env \<Rightarrow> log_output \<Rightarrow> bool" where
  "usable env out \<longleftrightarrow> output_destination out \<noteq> None \<and> folder_ok env out"

lemma writes_to_async [simp]: "writes_to (with_async a w) = writes_to w"
  by (simp add: with_async_def)

lemma single_writers [simp]:
  "writes_to (createConsoleWriter con) = [To_Stream (if Con_Writer con = ''stdout'' then Stdout else Stderr)]"
  "writes_to (createSyslogWriter sys) = [To_Syslog (Sys_Network sys) (Sys_Address sys)]"
  "writes_to (createEventlogWriter evl) = [To_Eventlog (Evl_Source evl)]"
  by (simp_all add: createConsoleWriter_def createSyslogWriter_def createEventlogWriter_def Let_def)

text \<open>An enabled output either has its destination as a writer, or an error.\<close>

lemma createWriter_enabled:
  assumes "Out_Enabled out"
  shows "if usable env out
    then \<exists>w d. createWriter lib env out = Inr (Some w) \<and> output_destination out = Some d \<and> writes_to w = [d]
    else \<exists>e. createWriter lib env out = Inl e"
proof -
  consider (c1) "Out_Type out = ''console''" | (c2) "Out_Type out = ''file''"
    | (c3) "Out_Type out = ''syslog''" | (c4) "Out_Type out = ''eventlog''"
    | (c5) "Out_Type out \<notin> {''console'', ''file'', ''syslog'', ''eventlog''}" by blast
  then show ?thesis
  proof cases
    case c1
    then show ?thesis using assms
      by (cases "Out_Console out") (simp_all add: createWriter_def usable_def output_destination_def folder_ok_def)
  next
    case c2
    then show ?thesis using assms
      by (cases "Out_File out")
        (simp_all add: createWriter_def usable_def output_destination_def folder_ok_def createFileWriter_def)
  next
    case c3
    then show ?thesis using assms
      by (cases "Out_Syslog out") (simp_all add: createWriter_def usable_def output_destination_def folder_ok_def)
  next
    case c4
    then show ?thesis using assms
      by (cases "Out_Eventlog out") (simp_all add: createWriter_def usable_def output_destination_def folder_ok_def)
  next
    case c5
    then show ?thesis using assms by (simp add: createWriter_def usable_def output_destination_def)
  qed
qed

lemma make_writers_result:
  "case make_writers lib env outs ws of
     Inl e \<Rightarrow> \<exists>pre out post. outs = pre @ out # post \<and> Out_Enabled out \<and> \<not> usable env out
       \<and> createWriter lib env out = Inl e \<and> (\<forall>o' \<in> set pre. Out_Enabled o' \<longrightarrow> usable env o')
   | Inr ws' \<Rightarrow> (\<forall>out \<in> set outs. Out_Enabled out \<longrightarrow> usable env out)
       \<and> (\<exists>new. ws' = ws @ new \<and> map writes_to new = map (\<lambda>out. [the (output_destination out)]) (filter Out_Enabled outs))"
proof (induction outs arbitrary: ws)
  case (Cons out outs)
  note step = createWriter_enabled [of out env lib]
  show ?case
  proof (cases "Out_Enabled out \<and> \<not> usable env out")
    case True
    then show ?thesis using step by (force intro!: exI [of _ "[]"])
  next
    case False
    obtain ws1 add where w: "make_writers lib env (out # outs) ws = make_writers lib env outs ws1" "ws1 = ws @ add"
      "map writes_to add = map (\<lambda>out. [the (output_destination out)]) (filter Out_Enabled [out])"
      using False step by (cases "Out_Enabled out") auto
    show ?thesis
    proof (cases "make_writers lib env outs ws1")
      case (Inl e)
      then obtain pre o1 post where d: "outs = pre @ o1 # post" "Out_Enabled o1" "\<not> usable env o1"
        "createWriter lib env o1 = Inl e" "\<forall>o' \<in> set pre. Out_Enabled o' \<longrightarrow> usable env o'"
        using Cons.IH [of ws1] by auto
      show ?thesis unfolding w(1) Inl sum.case
        by (intro exI [of _ "out # pre"] exI [of _ o1] exI [of _ post]) (use d False in auto)
    next
      case (Inr ws')
      then obtain new where d: "\<forall>out \<in> set outs. Out_Enabled out \<longrightarrow> usable env out" "ws' = ws1 @ new"
        "map writes_to new = map (\<lambda>out. [the (output_destination out)]) (filter Out_Enabled outs)"
        using Cons.IH [of ws1] by auto
      show ?thesis unfolding w(1) Inr sum.case
        by (intro conjI exI [of _ "add @ new"]) (use d w False in \<open>auto split: if_splits\<close>)
    qed
  qed
qed simp

section \<open>Configuring the loggers\<close>

lemma writes_to_multi:
  "writes_to (case ws of [] \<Rightarrow> IOWriter Stderr | [w] \<Rightarrow> w | _ \<Rightarrow> MultiEntryWriter ws) =
     (if ws = [] then [To_Stream Stderr] else concat (map writes_to ws))"
  by (simp split: list.split)

lemma concat_singletons: "map f xs = map (\<lambda>y. [g y]) ys \<Longrightarrow> concat (map f xs) = map g ys"
  by (metis concat_map_singleton)

lemma createMultiWriter_result:
  "case createMultiWriter lib env outs of
     Inl e \<Rightarrow> \<exists>pre out post. outs = pre @ out # post \<and> Out_Enabled out \<and> \<not> usable env out
       \<and> createWriter lib env out = Inl e \<and> (\<forall>o' \<in> set pre. Out_Enabled o' \<longrightarrow> usable env o')
   | Inr w \<Rightarrow> (\<forall>out \<in> set outs. Out_Enabled out \<longrightarrow> usable env out)
       \<and> writes_to w = (if list_ex Out_Enabled outs then map (the \<circ> output_destination) (filter Out_Enabled outs)
           else [To_Stream Stderr])"
proof (cases "make_writers lib env outs []")
  case (Inl e)
  then show ?thesis using make_writers_result [where lib=lib and env=env and outs=outs and ws="[]"] by (simp add: createMultiWriter_def)
next
  case (Inr ws)
  have r: "\<forall>out \<in> set outs. Out_Enabled out \<longrightarrow> usable env out"
    "map writes_to ws = map (\<lambda>out. [the (output_destination out)]) (filter Out_Enabled outs)"
    using make_writers_result [where lib=lib and env=env and outs=outs and ws="[]"] Inr by auto
  have e: "(ws = []) = (\<not> list_ex Out_Enabled outs)"
    using arg_cong [OF r(2), of length] by (auto simp: list_ex_iff filter_empty_conv)
  show ?thesis using r(1) e concat_singletons [OF r(2)]
    by (simp add: createMultiWriter_def Inr writes_to_multi comp_def)
qed

lemma ConfigureLogging_eq:
  "ConfigureLogging lib env cfg st =
     (case createMultiWriter lib env (Log_Outputs cfg) of
        Inl e \<Rightarrow> (st, Some e)
      | Inr w \<Rightarrow> (fst (ConfigureETWLibraryLogger (Log_LibLevel cfg) w (st\<lparr>DefaultLogger :=
          \<lparr>Lg_Level = parseLogLevel (Log_Level (Log_Defaults cfg)), Lg_Caller = Log_Caller (Log_Defaults cfg),
           Lg_TimeField = Log_TimeField (Log_Defaults cfg), Lg_TimeFormat = mapTimeFormat lib (Log_TimeFormat (Log_Defaults cfg)),
           Lg_TimeLocation = parseTimeLocation env (Log_TimeLocation (Log_Defaults cfg)), Lg_Writer = w, Lg_Context = []\<rparr>,
          mainSampler := Some \<lparr>InitialInterval = 1 * second, MaxInterval = 3600 * second,
                  Factor = (3, 2), ResetInterval = 600 * second\<rparr>\<rparr>)), None))"
  by (simp add: ConfigureLogging_def ConfigureETWLibraryLogger_def Let_def split: sum.split)

text \<open>The loggers of the components and of the ETW library share the writer of the default logger.\<close>

lemma configured_writers:
  assumes "createMultiWriter lib env (Log_Outputs cfg) = Inr w" and "ConfigureLogging lib env cfg st = (st', e)"
  shows "e = None \<and> Lg_Writer (DefaultLogger st') = w \<and> Etw_Writer st' = Some w
    \<and> Lg_Writer (NewLoggerWithContext component st') = w
    \<and> Lg_Context (NewLoggerWithContext component st') = [(''component'', component)]
    \<and> Lg_Level (NewLoggerWithContext component st') = parseLogLevel (Log_Level (Log_Defaults cfg))
    \<and> Etw_Levels st' n = Some (parseLogLevel (Log_LibLevel cfg))"
  using assms
  by (cases n) (auto simp: ConfigureLogging_eq ConfigureETWLibraryLogger_def NewLoggerWithContext_def Let_def)

lemma ConfigureLogging_outcome:
  "case ConfigureLogging lib env cfg st of
     (st', None) \<Rightarrow> filter (\<lambda>out. Out_Enabled out \<and> \<not> usable env out) (Log_Outputs cfg) = []
   | (st', Some e) \<Rightarrow> st' = st \<and> (\<exists>out rest. filter (\<lambda>out. Out_Enabled out \<and> \<not> usable env out) (Log_Outputs cfg) = out # rest
       \<and> createWriter lib env out = Inl e)"
proof (cases "createMultiWriter lib env (Log_Outputs cfg)")
  case (Inl e)
  then obtain pre out post where d: "Log_Outputs cfg = pre @ out # post" "Out_Enabled out" "\<not> usable env out"
    "createWriter lib env out = Inl e" "\<forall>o' \<in> set pre. Out_Enabled o' \<longrightarrow> usable env o'"
    using createMultiWriter_result [where lib=lib and env=env and outs="Log_Outputs cfg"] by auto
  then have "filter (\<lambda>out. Out_Enabled out \<and> \<not> usable env out) pre = []" by (simp add: filter_empty_conv)
  moreover have "ConfigureLogging lib env cfg st = (st, Some e)" by (simp add: ConfigureLogging_eq Inl)
  ultimately show ?thesis using d by simp
next
  case (Inr w)
  then show ?thesis using createMultiWriter_result [where lib=lib and env=env and outs="Log_Outputs cfg"]
    by (simp add: ConfigureLogging_eq filter_empty_conv)
qed

text \<open>C27. Configuring the loggers fails exactly when an enabled output has an unknown type, has no
  section of its own type, or is a file whose folder cannot be made. The error is then that
  of the first such output, and no logger is changed. Disabled outputs are never looked at.\<close>

theorem logging_fails_exactly:
  "case ConfigureLogging lib env cfg st of
     (st', None) \<Rightarrow> filter (\<lambda>out. Out_Enabled out \<and> \<not> usable env out) (Log_Outputs cfg) = []
   | (st', Some e) \<Rightarrow> st' = st \<and> (\<exists>out rest. filter (\<lambda>out. Out_Enabled out \<and> \<not> usable env out) (Log_Outputs cfg) = out # rest
       \<and> createWriter lib env out = Inl e)"
  by (rule ConfigureLogging_outcome)

text \<open>A line of the text format ends with its only line break when its parts have none, and the
  level names of the package appear as their capital initial.\<close>

lemma sub32_levels [simp]:
  "sub32 CHR ''t'' = CHR ''T''" "sub32 CHR ''d'' = CHR ''D''" "sub32 CHR ''i'' = CHR ''I''"
  "sub32 CHR ''w'' = CHR ''W''" "sub32 CHR ''e'' = CHR ''E''" "sub32 CHR ''f'' = CHR ''F''"
  by code_simp+

lemma glog_line_one_line:
  assumes "FA_Level a \<in> {''trace'', ''debug'', ''info'', ''warn'', ''error'', ''fatal''}"
    and "newline \<notin> set (FA_Time a) \<union> set (FA_Goid a) \<union> set (FA_Caller a) \<union> set (FA_Message a)"
  shows "\<exists>s. glog_line a = s @ [newline] \<and> newline \<notin> set s \<and> take 1 s \<in> {''T'', ''D'', ''I'', ''W'', ''E'', ''F''}"
proof -
  let ?s = "(case FA_Level a of b # _ \<Rightarrow> [sub32 b] | [] \<Rightarrow> ''?'')
     @ FA_Time a @ '' '' @ FA_Goid a @ '' '' @ FA_Caller a @ ''] '' @ FA_Message a"
  have "newline \<notin> set ?s \<and> take 1 ?s \<in> {''T'', ''D'', ''I'', ''W'', ''E'', ''F''}"
    using assms by (auto simp: newline_def)
  then show ?thesis by (intro exI [of _ ?s]) (simp add: glog_line_def)
qed

end
