(* ===== verification/Go_Layout.thy ===== *)
theory Go_Layout
  imports Prelude
begin

text \<open>
  How the Go compiler lays out a struct on amd64, for the structures of \<open>internal/windowsapi\<close> that
  are laid over memory the kernel fills: a field starts at the next multiple of its
  alignment, and a struct is padded to a multiple of the largest alignment of its fields. The
  structures are then values of \<open>gotype\<close>, field by field as the sources declare them.
\<close>

section \<open>Sizes and offsets\<close>

datatype gotype = Basic nat | Array nat gotype | Struct "gofield list"
  and gofield = Field string gotype

definition align_up :: "nat \<Rightarrow> nat \<Rightarrow> nat" where
  "align_up n a = (n + a - 1) div a * a"

fun align_of :: "gotype \<Rightarrow> nat" and fields_align :: "gofield list \<Rightarrow> nat" where
  "align_of (Basic n) = n"
| "align_of (Array k t) = align_of t"
| "align_of (Struct fs) = fields_align fs"
| "fields_align [] = 1"
| "fields_align (Field n t # fs) = max (align_of t) (fields_align fs)"

fun size_of :: "gotype \<Rightarrow> nat" and fields_end :: "nat \<Rightarrow> gofield list \<Rightarrow> nat" where
  "size_of (Basic n) = n"
| "size_of (Array k t) = k * size_of t"
| "size_of (Struct fs) = align_up (fields_end 0 fs) (fields_align fs)"
| "fields_end off [] = off"
| "fields_end off (Field n t # fs) = fields_end (align_up off (align_of t) + size_of t) fs"

text \<open>Name, offset and size of every field.\<close>

fun field_layout :: "nat \<Rightarrow> gofield list \<Rightarrow> (string \<times> nat \<times> nat) list" where
  "field_layout off [] = []"
| "field_layout off (Field n t # fs) =
     (let o1 = align_up off (align_of t) in (n, o1, size_of t) # field_layout (o1 + size_of t) fs)"

definition offset_of :: "gotype \<Rightarrow> string \<Rightarrow> nat option" where
  "offset_of t f = (case t of Struct fs \<Rightarrow> map_option fst (map_of (field_layout 0 fs) f) | _ \<Rightarrow> None)"

abbreviation uint8 :: gotype where "uint8 \<equiv> Basic 1"
abbreviation uint16 :: gotype where "uint16 \<equiv> Basic 2"
abbreviation uint32 :: gotype where "uint32 \<equiv> Basic 4"
abbreviation uint64 :: gotype where "uint64 \<equiv> Basic 8"
abbreviation uintptr :: gotype where "uintptr \<equiv> Basic 8"


section \<open>Well-formedness of a layout\<close>

fun wf_gotype :: "gotype \<Rightarrow> bool" and wf_fields :: "gofield list \<Rightarrow> bool" where
  "wf_gotype (Basic n) \<longleftrightarrow> n \<in> {1, 2, 4, 8}"
| "wf_gotype (Array k t) \<longleftrightarrow> wf_gotype t"
| "wf_gotype (Struct fs) \<longleftrightarrow> wf_fields fs"
| "wf_fields [] \<longleftrightarrow> True"
| "wf_fields (Field n t # fs) \<longleftrightarrow> wf_gotype t \<and> wf_fields fs"

lemma align_up_ge:
  assumes "0 < a"
  shows "n \<le> align_up n a"
  using div_mult_mod_eq [of "n + a - 1" a] mod_less_divisor [OF assms, of "n + a - 1"] assms
  unfolding align_up_def by linarith

lemma align_up_dvd [simp]: "a dvd align_up n a"
  by (simp add: align_up_def)

lemma fields_align_pos: "0 < fields_align fs"
proof (induction fs)
  case (Cons f fs)
  then show ?case by (cases f) auto
qed simp

lemma align_of_pos: "wf_gotype t \<Longrightarrow> 0 < align_of t"
  by (induction t rule: align_of_fields_align.induct(1) [where Q = "\<lambda>_. True"]) (auto simp: fields_align_pos)

text \<open>Fields lie inside the struct, in their order and without overlap.\<close>

lemma field_inside:
  "wf_fields fs \<Longrightarrow> off \<le> fields_end off fs
   \<and> (\<forall>(n, p, s) \<in> set (field_layout off fs). off \<le> p \<and> p + s \<le> fields_end off fs)"
proof (induction fs arbitrary: off)
  case (Cons f fs)
  obtain n t where f: "f = Field n t" by (cases f)
  let ?p = "align_up off (align_of t)"
  have "off \<le> ?p" using Cons.prems f by (intro align_up_ge align_of_pos) simp
  then show ?case using Cons.IH [of "?p + size_of t"] Cons.prems f by (fastforce simp: Let_def)
qed simp

lemma fields_disjoint:
  "wf_fields fs \<Longrightarrow> sorted_wrt (\<lambda>(_, p, s) (_, q, _). p + s \<le> q) (field_layout off fs)"
proof (induction fs arbitrary: off)
  case (Cons f fs)
  obtain n t where f: "f = Field n t" by (cases f)
  then show ?case
    using Cons.IH [of "align_up off (align_of t) + size_of t"] Cons.prems
      field_inside [of fs "align_up off (align_of t) + size_of t"]
    by (auto simp: Let_def)
qed simp

lemma fields_fit: "wf_fields fs \<Longrightarrow> (n, p, s) \<in> set (field_layout 0 fs) \<Longrightarrow> p + s \<le> size_of (Struct fs)"
  using field_inside [of fs 0] align_up_ge [OF fields_align_pos, of "fields_end 0 fs" fs] by force


section \<open>Shared user data\<close>

definition KSYSTEM_TIME :: gotype where
  "KSYSTEM_TIME = Struct [Field ''LowPart'' uint32, Field ''High1Time'' uint32, Field ''High2Time'' uint32]"

definition LARGE_INTEGER :: gotype where
  "LARGE_INTEGER = Struct [Field ''QuadPart'' uint64]"

definition XSTATE_FEATURE :: gotype where
  "XSTATE_FEATURE = Struct [Field ''Offset'' uint32, Field ''Size'' uint32]"

definition XSTATE_CONFIGURATION :: gotype where
  "XSTATE_CONFIGURATION = Struct [Field ''EnabledFeatures'' uint64, Field ''Size'' uint32,
     Field ''OptimizedSave'' uint32, Field ''Features'' (Array 64 XSTATE_FEATURE)]"

definition KUSER_fields :: "gofield list" where
  "KUSER_fields = [
     Field ''TickCountLowDeprecated'' uint32, Field ''TickCountMultiplier'' uint32,
     Field ''InterruptTime'' KSYSTEM_TIME, Field ''SystemTime'' KSYSTEM_TIME,
     Field ''TimeZoneBias'' KSYSTEM_TIME, Field ''ImageNumberLow'' uint16,
     Field ''ImageNumberHigh'' uint16, Field ''NtSystemRoot'' (Array 260 uint16),
     Field ''MaxStackTraceDepth'' uint32, Field ''CryptoExponent'' uint32, Field ''TimeZoneId'' uint32,
     Field ''LargePageMinimum'' uint32, Field ''AitSamplingValue'' uint32, Field ''AppCompatFlag'' uint32,
     Field ''RNGSeedVersion'' uint64, Field ''GlobalValidationRunlevel'' uint32,
     Field ''TimeZoneBiasStamp'' uint32, Field ''NtBuildNumber'' uint32, Field ''NtProductType'' uint32,
     Field ''ProductTypeIsValid'' uint8, Field ''Reserved0'' (Array 1 uint8),
     Field ''NativeProcessorArchitecture'' uint16, Field ''NtMajorVersion'' uint32,
     Field ''NtMinorVersion'' uint32, Field ''ProcessorFeatures'' (Array 64 uint8),
     Field ''Reserved1'' uint32, Field ''Reserved3'' uint32, Field ''TimeSlip'' uint32,
     Field ''AlternativeArchitecture'' uint32, Field ''BootId'' uint32,
     Field ''SystemExpirationDate'' LARGE_INTEGER, Field ''SuiteMask'' uint32,
     Field ''KdDebuggerEnabled'' uint8, Field ''MitigationPolicies'' uint8,
     Field ''CyclesPerYield'' uint16, Field ''ActiveConsoleId'' uint32, Field ''DismountCount'' uint32,
     Field ''ComPlusPackage'' uint32, Field ''LastSystemRITEventTickCount'' uint32,
     Field ''NumberOfPhysicalPages'' uint32, Field ''SafeBootMode'' uint8,
     Field ''VirtualizationFlags'' uint8, Field ''Reserved12'' (Array 2 uint8),
     Field ''SharedDataFlags'' uint32, Field ''DataFlagsPad'' (Array 1 uint32),
     Field ''TestRetInstruction'' uint64, Field ''QpcFrequency'' uint64, Field ''SystemCall'' uint32,
     Field ''Reserved2'' uint32, Field ''FullNumberOfPhysicalPages'' uint64,
     Field ''SystemCallPad'' (Array 1 uint64), Field ''TickCount'' KSYSTEM_TIME, Field ''Cookie'' uint32,
     Field ''CookiePad'' (Array 1 uint32), Field ''_'' (Array 4 uint8),
     Field ''ConsoleSessionForegroundProcessId'' uint64, Field ''TimeUpdateLock'' uint64,
     Field ''BaselineSystemTimeQpc'' uint64, Field ''BaselineInterruptTimeQpc'' uint64,
     Field ''QpcSystemTimeIncrement'' uint64, Field ''QpcInterruptTimeIncrement'' uint64,
     Field ''QpcSystemTimeIncrementShift'' uint8, Field ''QpcInterruptTimeIncrementShift'' uint8,
     Field ''UnparkedProcessorCount'' uint16, Field ''EnclaveFeatureMask'' (Array 4 uint32),
     Field ''TelemetryCoverageRound'' uint32, Field ''UserModeGlobalLogger'' (Array 16 uint16),
     Field ''ImageFileExecutionOptions'' uint32, Field ''LangGenerationCount'' uint32,
     Field ''Reserved4'' uint64, Field ''InterruptTimeBias'' uint64, Field ''QpcBias'' uint64,
     Field ''ActiveProcessorCount'' uint32, Field ''ActiveGroupCount'' uint8, Field ''Reserved9'' uint8,
     Field ''QpcData'' uint16, Field ''TimeZoneBiasEffectiveStart'' LARGE_INTEGER,
     Field ''TimeZoneBiasEffectiveEnd'' LARGE_INTEGER, Field ''XState'' XSTATE_CONFIGURATION,
     Field ''FeatureConfigurationChangeStamp'' KSYSTEM_TIME, Field ''Spare'' uint32,
     Field ''UserPointerAuthMask'' uint64, Field ''XStateArm64'' XSTATE_CONFIGURATION,
     Field ''Reserved10'' (Array 210 uint32)
     ]"

definition KUSER_SHARED_DATA :: gotype where
  "KUSER_SHARED_DATA = Struct KUSER_fields"

definition kuserSharedDataAddr :: nat where "kuserSharedDataAddr = 0x7FFE0000"
definition bootIdOffset :: nat where "bootIdOffset = 0x2C4"

text \<open>The offsets written beside the fields.\<close>

definition KUSER_comments :: "(string \<times> nat) list" where
  "KUSER_comments = [
     (''TickCountLowDeprecated'', 0x000), (''TickCountMultiplier'', 0x004), (''InterruptTime'', 0x008),
     (''SystemTime'', 0x014), (''TimeZoneBias'', 0x020), (''ImageNumberLow'', 0x02c),
     (''ImageNumberHigh'', 0x02e), (''NtSystemRoot'', 0x030), (''MaxStackTraceDepth'', 0x238),
     (''CryptoExponent'', 0x23c), (''TimeZoneId'', 0x240), (''LargePageMinimum'', 0x244),
     (''AitSamplingValue'', 0x248), (''AppCompatFlag'', 0x24c), (''RNGSeedVersion'', 0x250),
     (''GlobalValidationRunlevel'', 0x258), (''TimeZoneBiasStamp'', 0x25c), (''NtBuildNumber'', 0x260),
     (''NtProductType'', 0x264), (''ProductTypeIsValid'', 0x268), (''Reserved0'', 0x269),
     (''NativeProcessorArchitecture'', 0x26a), (''NtMajorVersion'', 0x26c), (''NtMinorVersion'', 0x270),
     (''ProcessorFeatures'', 0x274), (''Reserved1'', 0x2b4), (''Reserved3'', 0x2b8), (''TimeSlip'', 0x2bc),
     (''AlternativeArchitecture'', 0x2c0), (''BootId'', 0x2c4), (''SystemExpirationDate'', 0x2c8),
     (''SuiteMask'', 0x2d0), (''KdDebuggerEnabled'', 0x2d4), (''MitigationPolicies'', 0x2d5),
     (''CyclesPerYield'', 0x2d6), (''ActiveConsoleId'', 0x2d8), (''DismountCount'', 0x2dc),
     (''ComPlusPackage'', 0x2e0), (''LastSystemRITEventTickCount'', 0x2e4),
     (''NumberOfPhysicalPages'', 0x2e8), (''SafeBootMode'', 0x2ec), (''VirtualizationFlags'', 0x2ed),
     (''Reserved12'', 0x2ee), (''SharedDataFlags'', 0x2f0), (''DataFlagsPad'', 0x2f4),
     (''TestRetInstruction'', 0x2f8), (''QpcFrequency'', 0x300), (''SystemCall'', 0x308),
     (''Reserved2'', 0x30c), (''FullNumberOfPhysicalPages'', 0x310), (''SystemCallPad'', 0x318),
     (''TickCount'', 0x320), (''Cookie'', 0x32c), (''CookiePad'', 0x330), (''_'', 0x334),
     (''ConsoleSessionForegroundProcessId'', 0x338), (''TimeUpdateLock'', 0x340),
     (''BaselineSystemTimeQpc'', 0x348), (''BaselineInterruptTimeQpc'', 0x350),
     (''QpcSystemTimeIncrement'', 0x358), (''QpcInterruptTimeIncrement'', 0x360),
     (''QpcSystemTimeIncrementShift'', 0x368), (''QpcInterruptTimeIncrementShift'', 0x369),
     (''UnparkedProcessorCount'', 0x36a), (''EnclaveFeatureMask'', 0x36c),
     (''TelemetryCoverageRound'', 0x37c), (''UserModeGlobalLogger'', 0x380),
     (''ImageFileExecutionOptions'', 0x3a0), (''LangGenerationCount'', 0x3a4), (''Reserved4'', 0x3a8),
     (''InterruptTimeBias'', 0x3b0), (''QpcBias'', 0x3b8), (''ActiveProcessorCount'', 0x3c0),
     (''ActiveGroupCount'', 0x3c4), (''Reserved9'', 0x3c5), (''QpcData'', 0x3c6),
     (''TimeZoneBiasEffectiveStart'', 0x3c8), (''TimeZoneBiasEffectiveEnd'', 0x3d0), (''XState'', 0x3d8),
     (''FeatureConfigurationChangeStamp'', 0x7d8), (''Spare'', 0x7e4), (''UserPointerAuthMask'', 0x7e8),
     (''XStateArm64'', 0x7f0), (''Reserved10'', 0xbf0)
     ]"

text \<open>A little-endian read of \<open>n\<close> bytes at an address of the process's memory, and the boot
  identifier, which the program reads at a fixed address when it starts.\<close>

definition mem_read :: "nat \<Rightarrow> (u64 \<Rightarrow> u8) \<Rightarrow> u64 \<Rightarrow> nat" where
  "mem_read n mem addr = foldr (\<lambda>i acc. unat (mem (addr + of_nat i)) + 256 * acc) [0..<n] 0"

definition bootId :: "(u64 \<Rightarrow> u8) \<Rightarrow> u64" where
  "bootId mem = ucast (of_nat (mem_read 4 mem (of_nat (kuserSharedDataAddr + bootIdOffset))) :: u32)"

definition field_read :: "gotype \<Rightarrow> nat \<Rightarrow> string \<Rightarrow> (u64 \<Rightarrow> u8) \<Rightarrow> nat option" where
  "field_read t base f mem = (case t of
     Struct fs \<Rightarrow> map_option (\<lambda>(p, s). mem_read s mem (of_nat (base + p))) (map_of (field_layout 0 fs) f)
   | _ \<Rightarrow> None)"

text \<open>The fields whose offset is not the one beside them: name, offset, offset in the comment.\<close>

definition misplaced :: "gofield list \<Rightarrow> (string \<times> nat) list \<Rightarrow> (string \<times> nat \<times> nat) list" where
  "misplaced fs comments = map (\<lambda>((f, p, s), (g, q)). (f, p, q))
     (filter (\<lambda>((f, p, s), (g, q)). p \<noteq> q) (zip (field_layout 0 fs) comments))"

lemma align_up_Suc [simp]: "align_up n (Suc a) = (n + a) div Suc a * Suc a"
  by (simp add: align_up_def)

lemma KUSER_types:
  "align_of KSYSTEM_TIME = 4" "size_of KSYSTEM_TIME = 12"
  "align_of LARGE_INTEGER = 8" "size_of LARGE_INTEGER = 8"
  "align_of XSTATE_CONFIGURATION = 8" "size_of XSTATE_CONFIGURATION = 528"
  by (simp_all add: KSYSTEM_TIME_def LARGE_INTEGER_def XSTATE_CONFIGURATION_def XSTATE_FEATURE_def align_up_def)

lemma KUSER_wf: "wf_fields KUSER_fields"
  by (simp add: KUSER_fields_def KSYSTEM_TIME_def LARGE_INTEGER_def XSTATE_CONFIGURATION_def XSTATE_FEATURE_def)

text \<open>Offsets and sizes only depend on the types, which evaluate faster without the names.\<close>

fun fname :: "gofield \<Rightarrow> string" where "fname (Field n t) = n"
fun ftype :: "gofield \<Rightarrow> gotype" where "ftype (Field n t) = t"

fun type_layout :: "nat \<Rightarrow> gotype list \<Rightarrow> (nat \<times> nat) list" where
  "type_layout off [] = []"
| "type_layout off (t # ts) =
     (case align_up off (align_of t) of p \<Rightarrow> (p, size_of t) # type_layout (p + size_of t) ts)"

lemma type_layout_step:
  "align_up off (align_of t) = p \<Longrightarrow> size_of t = s \<Longrightarrow> p + s = off' \<Longrightarrow> type_layout off' ts = L \<Longrightarrow>
   type_layout off (t # ts) = (p, s) # L"
  by simp

lemma field_layout_zip: "field_layout off fs = zip (map fname fs) (type_layout off (map ftype fs))"
proof (induction fs arbitrary: off)
  case (Cons f fs)
  then show ?case by (cases f) (simp add: Let_def)
qed simp

lemma KUSER_type_layout: "type_layout 0 (map ftype KUSER_fields) = [
     (0, 4), (4, 4), (8, 12), (20, 12), (32, 12), (44, 2), (46, 2), (48, 520), (568, 4), (572, 4),
     (576, 4), (580, 4), (584, 4), (588, 4), (592, 8), (600, 4), (604, 4), (608, 4), (612, 4), (616, 1),
     (617, 1), (618, 2), (620, 4), (624, 4), (628, 64), (692, 4), (696, 4), (700, 4), (704, 4), (708, 4),
     (712, 8), (720, 4), (724, 1), (725, 1), (726, 2), (728, 4), (732, 4), (736, 4), (740, 4), (744, 4),
     (748, 1), (749, 1), (750, 2), (752, 4), (756, 4), (760, 8), (768, 8), (776, 4), (780, 4), (784, 8),
     (792, 8), (800, 12), (812, 4), (816, 4), (820, 4), (824, 8), (832, 8), (840, 8), (848, 8), (856, 8),
     (864, 8), (872, 1), (873, 1), (874, 2), (876, 16), (892, 4), (896, 32), (928, 4), (932, 4), (936, 8),
     (944, 8), (952, 8), (960, 4), (964, 1), (965, 1), (966, 2), (968, 8), (976, 8), (984, 528),
     (1512, 12), (1524, 4), (1528, 8), (1536, 528), (2064, 840)
    ]"
  by (simp add: KUSER_fields_def KUSER_types align_up_def Let_def)

lemma KUSER_field_names: "map fname KUSER_fields = [
     ''TickCountLowDeprecated'', ''TickCountMultiplier'', ''InterruptTime'', ''SystemTime'',
     ''TimeZoneBias'', ''ImageNumberLow'', ''ImageNumberHigh'', ''NtSystemRoot'', ''MaxStackTraceDepth'',
     ''CryptoExponent'', ''TimeZoneId'', ''LargePageMinimum'', ''AitSamplingValue'', ''AppCompatFlag'',
     ''RNGSeedVersion'', ''GlobalValidationRunlevel'', ''TimeZoneBiasStamp'', ''NtBuildNumber'',
     ''NtProductType'', ''ProductTypeIsValid'', ''Reserved0'', ''NativeProcessorArchitecture'',
     ''NtMajorVersion'', ''NtMinorVersion'', ''ProcessorFeatures'', ''Reserved1'', ''Reserved3'',
     ''TimeSlip'', ''AlternativeArchitecture'', ''BootId'', ''SystemExpirationDate'', ''SuiteMask'',
     ''KdDebuggerEnabled'', ''MitigationPolicies'', ''CyclesPerYield'', ''ActiveConsoleId'',
     ''DismountCount'', ''ComPlusPackage'', ''LastSystemRITEventTickCount'', ''NumberOfPhysicalPages'',
     ''SafeBootMode'', ''VirtualizationFlags'', ''Reserved12'', ''SharedDataFlags'', ''DataFlagsPad'',
     ''TestRetInstruction'', ''QpcFrequency'', ''SystemCall'', ''Reserved2'',
     ''FullNumberOfPhysicalPages'', ''SystemCallPad'', ''TickCount'', ''Cookie'', ''CookiePad'', ''_'',
     ''ConsoleSessionForegroundProcessId'', ''TimeUpdateLock'', ''BaselineSystemTimeQpc'',
     ''BaselineInterruptTimeQpc'', ''QpcSystemTimeIncrement'', ''QpcInterruptTimeIncrement'',
     ''QpcSystemTimeIncrementShift'', ''QpcInterruptTimeIncrementShift'', ''UnparkedProcessorCount'',
     ''EnclaveFeatureMask'', ''TelemetryCoverageRound'', ''UserModeGlobalLogger'',
     ''ImageFileExecutionOptions'', ''LangGenerationCount'', ''Reserved4'', ''InterruptTimeBias'',
     ''QpcBias'', ''ActiveProcessorCount'', ''ActiveGroupCount'', ''Reserved9'', ''QpcData'',
     ''TimeZoneBiasEffectiveStart'', ''TimeZoneBiasEffectiveEnd'', ''XState'',
     ''FeatureConfigurationChangeStamp'', ''Spare'', ''UserPointerAuthMask'', ''XStateArm64'',
     ''Reserved10''
    ]"
  by (simp add: KUSER_fields_def)

lemma KUSER_layout: "field_layout 0 KUSER_fields = [
     (''TickCountLowDeprecated'', 0, 4), (''TickCountMultiplier'', 4, 4), (''InterruptTime'', 8, 12),
     (''SystemTime'', 20, 12), (''TimeZoneBias'', 32, 12), (''ImageNumberLow'', 44, 2),
     (''ImageNumberHigh'', 46, 2), (''NtSystemRoot'', 48, 520), (''MaxStackTraceDepth'', 568, 4),
     (''CryptoExponent'', 572, 4), (''TimeZoneId'', 576, 4), (''LargePageMinimum'', 580, 4),
     (''AitSamplingValue'', 584, 4), (''AppCompatFlag'', 588, 4), (''RNGSeedVersion'', 592, 8),
     (''GlobalValidationRunlevel'', 600, 4), (''TimeZoneBiasStamp'', 604, 4), (''NtBuildNumber'', 608, 4),
     (''NtProductType'', 612, 4), (''ProductTypeIsValid'', 616, 1), (''Reserved0'', 617, 1),
     (''NativeProcessorArchitecture'', 618, 2), (''NtMajorVersion'', 620, 4), (''NtMinorVersion'', 624, 4),
     (''ProcessorFeatures'', 628, 64), (''Reserved1'', 692, 4), (''Reserved3'', 696, 4),
     (''TimeSlip'', 700, 4), (''AlternativeArchitecture'', 704, 4), (''BootId'', 708, 4),
     (''SystemExpirationDate'', 712, 8), (''SuiteMask'', 720, 4), (''KdDebuggerEnabled'', 724, 1),
     (''MitigationPolicies'', 725, 1), (''CyclesPerYield'', 726, 2), (''ActiveConsoleId'', 728, 4),
     (''DismountCount'', 732, 4), (''ComPlusPackage'', 736, 4), (''LastSystemRITEventTickCount'', 740, 4),
     (''NumberOfPhysicalPages'', 744, 4), (''SafeBootMode'', 748, 1), (''VirtualizationFlags'', 749, 1),
     (''Reserved12'', 750, 2), (''SharedDataFlags'', 752, 4), (''DataFlagsPad'', 756, 4),
     (''TestRetInstruction'', 760, 8), (''QpcFrequency'', 768, 8), (''SystemCall'', 776, 4),
     (''Reserved2'', 780, 4), (''FullNumberOfPhysicalPages'', 784, 8), (''SystemCallPad'', 792, 8),
     (''TickCount'', 800, 12), (''Cookie'', 812, 4), (''CookiePad'', 816, 4), (''_'', 820, 4),
     (''ConsoleSessionForegroundProcessId'', 824, 8), (''TimeUpdateLock'', 832, 8),
     (''BaselineSystemTimeQpc'', 840, 8), (''BaselineInterruptTimeQpc'', 848, 8),
     (''QpcSystemTimeIncrement'', 856, 8), (''QpcInterruptTimeIncrement'', 864, 8),
     (''QpcSystemTimeIncrementShift'', 872, 1), (''QpcInterruptTimeIncrementShift'', 873, 1),
     (''UnparkedProcessorCount'', 874, 2), (''EnclaveFeatureMask'', 876, 16),
     (''TelemetryCoverageRound'', 892, 4), (''UserModeGlobalLogger'', 896, 32),
     (''ImageFileExecutionOptions'', 928, 4), (''LangGenerationCount'', 932, 4), (''Reserved4'', 936, 8),
     (''InterruptTimeBias'', 944, 8), (''QpcBias'', 952, 8), (''ActiveProcessorCount'', 960, 4),
     (''ActiveGroupCount'', 964, 1), (''Reserved9'', 965, 1), (''QpcData'', 966, 2),
     (''TimeZoneBiasEffectiveStart'', 968, 8), (''TimeZoneBiasEffectiveEnd'', 976, 8),
     (''XState'', 984, 528), (''FeatureConfigurationChangeStamp'', 1512, 12), (''Spare'', 1524, 4),
     (''UserPointerAuthMask'', 1528, 8), (''XStateArm64'', 1536, 528), (''Reserved10'', 2064, 840)
    ]"
  by (simp only: field_layout_zip KUSER_type_layout KUSER_field_names zip_Cons_Cons zip_Nil)

lemma KUSER_boot: "map_of (field_layout 0 KUSER_fields) ''BootId'' = Some (0x2C4, 4)"
  by (simp add: KUSER_layout)

lemma bootId_field:
  "map_option (\<lambda>n. ucast (of_nat n :: u32)) (field_read KUSER_SHARED_DATA kuserSharedDataAddr ''BootId'' mem) = Some (bootId mem)"
  by (simp add: field_read_def KUSER_SHARED_DATA_def KUSER_boot bootId_def bootIdOffset_def)

lemma KUSER_names: "map fst (field_layout 0 KUSER_fields) = map fst KUSER_comments"
  by (simp add: KUSER_layout KUSER_comments_def)

text \<open>C29. The structure laid over shared user data: its fields lie inside it, in the order of their
  declaration and without overlap; the boot identifier read at the fixed address at startup
  is its field \<open>BootId\<close>; and every field is at the offset written beside it except the five
  after \<open>XState\<close>, whose feature array makes that structure 528 bytes long where the offsets
  (and the comment) count on 1024, so these five do not describe what the kernel writes.\<close>

theorem shared_data_layout:
  "sorted_wrt (\<lambda>(_, p, s) (_, q, _). p + s \<le> q) (field_layout 0 KUSER_fields)
   \<and> map_option (\<lambda>n. ucast (of_nat n :: u32)) (field_read KUSER_SHARED_DATA kuserSharedDataAddr ''BootId'' mem) = Some (bootId mem)
   \<and> map fst (field_layout 0 KUSER_fields) = map fst KUSER_comments
   \<and> misplaced KUSER_fields KUSER_comments =
      [(''FeatureConfigurationChangeStamp'', 0x5E8, 0x7D8), (''Spare'', 0x5F4, 0x7E4),
       (''UserPointerAuthMask'', 0x5F8, 0x7E8), (''XStateArm64'', 0x600, 0x7F0), (''Reserved10'', 0x810, 0xBF0)]"
proof (intro conjI)
  show "misplaced KUSER_fields KUSER_comments =
      [(''FeatureConfigurationChangeStamp'', 0x5E8, 0x7D8), (''Spare'', 0x5F4, 0x7E4),
       (''UserPointerAuthMask'', 0x5F8, 0x7E8), (''XStateArm64'', 0x600, 0x7F0), (''Reserved10'', 0x810, 0xBF0)]"
    by (simp add: misplaced_def KUSER_layout KUSER_comments_def)
qed (fact fields_disjoint [OF KUSER_wf] bootId_field KUSER_names)+

end
