(* ===== verification/Windows_Api.thy ===== *)
theory Windows_Api
  imports Go_Layout Start_Key "HOL-Library.AList"
begin

text \<open>
  The Windows queries (\<open>internal/windowsapi\<close>): the walk over the kernel's process list, the
  running services, the name of a service tag and the start key of a process.

  System calls are functions: a query that a loop repeats gets the number of the call, so its
  answers may differ from call to call. The loops that enlarge a buffer until it is big enough
  take fuel, and \<^const>\<open>None\<close> is a loop that has not ended. A walk reads bytes of the buffer at the offsets that
  the Go compiler gives the fields; \<open>OutsideBuffer\<close> is a read that starts inside the buffer and
  runs past its end, which Go does not check.
\<close>

datatype sys_error =
    SizeQueryFailed u32 | SnapshotFailed u32 | InvalidTag | InvalidPid | TagQueryFailed u32 u32 u32
  | NoServiceName u32 u32 | EmptyServiceName u32 u32 | ConnectFailed | EnumFailed u32 | ToolhelpFailed u32

datatype 'a sys_result = Returns 'a | Fails sys_error | Panics | OutsideBuffer


section \<open>The process list\<close>

record process_info_entry =
  EPI_PID :: u32
  EPI_ParentPID :: u32
  EPI_SessionID :: u32
  EPI_ExeFile :: string
  EPI_FullDevicePath :: string
  EPI_CreateTime :: i64
  EPI_UniqueProcessKey :: u64

definition NTUnicodeString :: gotype where
  "NTUnicodeString = Struct [Field ''Length'' uint16, Field ''MaximumLength'' uint16, Field ''Buffer'' uintptr]"

definition SPI_fields :: "gofield list" where
  "SPI_fields = [
     Field ''NextEntryOffset'' uint32, Field ''NumberOfThreads'' uint32, Field ''WorkingSetPrivateSize'' uint64,
     Field ''HardFaultCount'' uint32, Field ''NumberOfThreadsHighWatermark'' uint32, Field ''CycleTime'' uint64,
     Field ''CreateTime'' uint64, Field ''UserTime'' uint64, Field ''KernelTime'' uint64,
     Field ''ImageName'' NTUnicodeString, Field ''BasePriority'' uint32, Field ''UniqueProcessID'' uintptr,
     Field ''InheritedFromUniqueProcessID'' uintptr, Field ''HandleCount'' uint32, Field ''SessionID'' uint32,
     Field ''UniqueProcessKey'' uintptr, Field ''PeakVirtualSize'' uintptr, Field ''VirtualSize'' uintptr,
     Field ''PageFaultCount'' uint32, Field ''PeakWorkingSetSize'' uintptr, Field ''WorkingSetSize'' uintptr,
     Field ''QuotaPeakPagedPoolUsage'' uintptr, Field ''QuotaPagedPoolUsage'' uintptr,
     Field ''QuotaPeakNonPagedPoolUsage'' uintptr, Field ''QuotaNonPagedPoolUsage'' uintptr,
     Field ''PagefileUsage'' uintptr, Field ''PeakPagefileUsage'' uintptr, Field ''PrivatePageCount'' uintptr,
     Field ''ReadOperationCount'' uint64, Field ''WriteOperationCount'' uint64, Field ''OtherOperationCount'' uint64,
     Field ''ReadTransferCount'' uint64, Field ''WriteTransferCount'' uint64, Field ''OtherTransferCount'' uint64]"

definition le_nat :: "u8 list \<Rightarrow> nat" where
  "le_nat bs = foldr (\<lambda>b acc. unat b + 256 * acc) bs 0"

text \<open>A field of the entry that starts at an offset of the buffer.\<close>

definition entry_field :: "string \<Rightarrow> u8 list \<Rightarrow> nat \<Rightarrow> nat" where
  "entry_field f buf off = (case map_of (field_layout 0 SPI_fields) f of
     Some (p, s) \<Rightarrow> le_nat (take s (drop (off + p) buf)) | None \<Rightarrow> 0)"

definition name_field :: "string \<Rightarrow> u8 list \<Rightarrow> nat \<Rightarrow> nat" where
  "name_field f buf off = (case (map_of (field_layout 0 SPI_fields) ''ImageName'', NTUnicodeString) of
     (Some (p, _), Struct fs) \<Rightarrow>
       (case map_of (field_layout 0 fs) f of Some (q, s) \<Rightarrow> le_nat (take s (drop (off + p + q) buf)) | None \<Rightarrow> 0)
   | _ \<Rightarrow> 0)"

record win_env =
  mem_u16 :: "u64 \<Rightarrow> u16"
  UTF16ToString :: "u16 list \<Rightarrow> string"
  GetProcessImageFileName :: "u32 \<Rightarrow> string"

definition image_name :: "win_env \<Rightarrow> u8 list \<Rightarrow> nat \<Rightarrow> string" where
  "image_name env buf off =
     (let len = name_field ''Length'' buf off; ptr = of_nat (name_field ''Buffer'' buf off) :: u64
      in if len > 0 \<and> ptr \<noteq> 0
         then UTF16ToString env (map (\<lambda>i. mem_u16 env (ptr + 2 * of_nat i)) [0..<len div 2]) else '''')"

definition entry_pid :: "u8 list \<Rightarrow> nat \<Rightarrow> u32" where
  "entry_pid buf off = of_nat (entry_field ''UniqueProcessID'' buf off)"

definition entry_info :: "win_env \<Rightarrow> u8 list \<Rightarrow> nat \<Rightarrow> process_info_entry" where
  "entry_info env buf off = \<lparr>
     EPI_PID = entry_pid buf off,
     EPI_ParentPID = of_nat (entry_field ''InheritedFromUniqueProcessID'' buf off),
     EPI_SessionID = of_nat (entry_field ''SessionID'' buf off),
     EPI_ExeFile = image_name env buf off,
     EPI_FullDevicePath = GetProcessImageFileName env (entry_pid buf off),
     EPI_CreateTime = of_nat (entry_field ''CreateTime'' buf off),
     EPI_UniqueProcessKey = of_nat (entry_field ''UniqueProcessKey'' buf off)\<rparr>"

definition add_entry :: "win_env \<Rightarrow> u8 list \<Rightarrow> nat \<Rightarrow> (u32 \<rightharpoonup> process_info_entry) \<Rightarrow> (u32 \<rightharpoonup> process_info_entry)" where
  "add_entry env buf off processes =
     (if entry_pid buf off \<noteq> 0 then processes(entry_pid buf off \<mapsto> entry_info env buf off) else processes)"

text \<open>The walk ends: an entry that is not the last moves the offset forward, and an offset beyond
  the buffer panics.\<close>

function snapshot_walk :: "win_env \<Rightarrow> u8 list \<Rightarrow> nat \<Rightarrow> (u32 \<rightharpoonup> process_info_entry) \<Rightarrow> (u32 \<rightharpoonup> process_info_entry) sys_result" where
  "snapshot_walk env buf off processes =
     (if off \<ge> length buf then Panics
      else if off + size_of (Struct SPI_fields) > length buf then OutsideBuffer
      else if entry_field ''NextEntryOffset'' buf off = 0 then Returns (add_entry env buf off processes)
      else snapshot_walk env buf (off + entry_field ''NextEntryOffset'' buf off) (add_entry env buf off processes))"
  by pat_completeness auto
termination by (relation "measure (\<lambda>(_, buf, off, _). length buf - off)") auto

declare snapshot_walk.simps [simp del]

datatype nt_status = StatusSuccess | LengthMismatch | OtherStatus u32

fun status_code :: "nt_status \<Rightarrow> u32" where
  "status_code StatusSuccess = 0"
| "status_code LengthMismatch = 0xC0000004"
| "status_code (OtherStatus c) = c"

text \<open>A call gets the size of the buffer and answers with a status, the size it asks for and what it
  wrote; the buffer was zeroed before.\<close>

type_synonym nt_query = "nat \<Rightarrow> u32 \<Rightarrow> nt_status \<times> u32 \<times> u8 list"

definition fill_buffer :: "u32 \<Rightarrow> u8 list \<Rightarrow> u8 list" where
  "fill_buffer n bs = take (unat n) (bs @ replicate (unat n) 0)"

fun query_loop :: "nat \<Rightarrow> nt_query \<Rightarrow> nat \<Rightarrow> u32 \<Rightarrow> u8 list sys_result option" where
  "query_loop 0 q call bufferSize = None"
| "query_loop (Suc fuel) q call bufferSize =
     (if bufferSize = 0 then Some Panics
      else case q call bufferSize of
          (LengthMismatch, bufferSize', _) \<Rightarrow> query_loop fuel q (Suc call) bufferSize'
        | (StatusSuccess, _, bs) \<Rightarrow> Some (Returns (fill_buffer bufferSize bs))
        | (OtherStatus c, _, _) \<Rightarrow> Some (Fails (SnapshotFailed c)))"

definition GetProcessSnapshot :: "nat \<Rightarrow> win_env \<Rightarrow> nt_query \<Rightarrow> (u32 \<rightharpoonup> process_info_entry) sys_result option" where
  "GetProcessSnapshot fuel env q =
     (case q 0 0 of
        (LengthMismatch, bufferSize, _) \<Rightarrow>
          (case query_loop fuel q 1 bufferSize of
             None \<Rightarrow> None
           | Some (Returns buf) \<Rightarrow> Some (snapshot_walk env buf 0 Map.empty)
           | Some (Fails e) \<Rightarrow> Some (Fails e)
           | Some Panics \<Rightarrow> Some Panics
           | Some OutsideBuffer \<Rightarrow> Some OutsideBuffer)
      | (st, _, _) \<Rightarrow> Some (Fails (SizeQueryFailed (status_code st))))"

text \<open>The older snapshot walks a Toolhelp handle. Its list of entries ends with the error of the last
  \<open>Process32Next\<close>, \<^const>\<open>None\<close> for \<open>ERROR_NO_MORE_FILES\<close>.\<close>

record process_info_old =
  Old_PID :: u32
  Old_ParentPID :: u32
  Old_ExeFile :: string
  Old_FullDevicePath :: string

record toolhelp_entry =
  PE_ProcessID :: u32
  PE_ParentProcessID :: u32
  PE_ExeFile :: "u16 list"

definition add_old :: "win_env \<Rightarrow> toolhelp_entry \<Rightarrow> (u32 \<rightharpoonup> process_info_old) \<Rightarrow> (u32 \<rightharpoonup> process_info_old)" where
  "add_old env pe m = m(PE_ProcessID pe \<mapsto> \<lparr>Old_PID = PE_ProcessID pe, Old_ParentPID = PE_ParentProcessID pe,
     Old_ExeFile = UTF16ToString env (PE_ExeFile pe), Old_FullDevicePath = GetProcessImageFileName env (PE_ProcessID pe)\<rparr>)"

fun toolhelp_loop :: "win_env \<Rightarrow> toolhelp_entry list \<Rightarrow> u32 option \<Rightarrow> (u32 \<rightharpoonup> process_info_old) \<Rightarrow>
    (u32 \<rightharpoonup> process_info_old) sys_result" where
  "toolhelp_loop env [] err m = (case err of None \<Rightarrow> Returns m | Some c \<Rightarrow> Fails (ToolhelpFailed c))"
| "toolhelp_loop env (pe # pes) err m = toolhelp_loop env pes err (add_old env pe m)"

definition GetProcessSnapshot_old :: "win_env \<Rightarrow> u32 + (u32 + toolhelp_entry \<times> toolhelp_entry list \<times> u32 option) \<Rightarrow>
    (u32 \<rightharpoonup> process_info_old) sys_result" where
  "GetProcessSnapshot_old env toolhelp =
     (case toolhelp of
        Inl c \<Rightarrow> Fails (ToolhelpFailed c)
      | Inr (Inl c) \<Rightarrow> Fails (ToolhelpFailed c)
      | Inr (Inr (first_entry, others, err)) \<Rightarrow> toolhelp_loop env (first_entry # others) err Map.empty)"

section \<open>Services\<close>

text \<open>The answer of one enumeration: the records written to the buffer (process id and service
  name), the size asked for when the buffer is too small, or an error code.\<close>

datatype enum_answer = EnumOk "(u32 \<times> string) list" | MoreData u32 | EnumError u32

type_synonym enum_query = "nat \<Rightarrow> u32 \<Rightarrow> enum_answer"

fun enum_loop :: "nat \<Rightarrow> enum_query \<Rightarrow> nat \<Rightarrow> u32 \<Rightarrow> (u32 \<times> string) list sys_result option" where
  "enum_loop 0 q call bufSize = None"
| "enum_loop (Suc fuel) q call bufSize =
     (if bufSize = 0 then Some Panics
      else case q call bufSize of
          EnumOk services \<Rightarrow> Some (Returns services)
        | MoreData bytesNeeded \<Rightarrow> enum_loop fuel q (Suc call) bytesNeeded
        | EnumError c \<Rightarrow> Some (Fails (EnumFailed c)))"

fun service_map :: "(u32 \<times> string) list \<Rightarrow> (u32 \<times> string) list \<Rightarrow> (u32 \<times> string) list" where
  "service_map [] m = m"
| "service_map ((pid, serviceName) # services) m =
     service_map services (if pid \<noteq> 0 then AList.update pid serviceName m else m)"

definition GetRunningServicesSnapshot :: "nat \<Rightarrow> bool \<Rightarrow> enum_query \<Rightarrow> (u32 \<times> string) list sys_result option" where
  "GetRunningServicesSnapshot fuel connected q =
     (if \<not> connected then Some (Fails ConnectFailed)
      else case enum_loop fuel q 0 16384 of
          None \<Rightarrow> None
        | Some (Returns services) \<Rightarrow> Some (Returns (if services = [] then [] else service_map services []))
        | Some (Fails e) \<Rightarrow> Some (Fails e)
        | Some Panics \<Rightarrow> Some Panics
        | Some OutsideBuffer \<Rightarrow> Some OutsideBuffer)"

text \<open>The answer to a tag query is an error code and the name at the buffer the call allocated, if
  any. The second result says whether the buffer is given back.\<close>

record service_tag_query =
  TQ_ProcessId :: u32
  TQ_ServiceTag :: u32
  TQ_Reserved :: u32
  TQ_Buffer :: "string option"

definition QueryServiceNameByTag :: "(service_tag_query \<Rightarrow> u32 \<times> string option) \<Rightarrow> u32 \<Rightarrow> u32 \<Rightarrow> (sys_error + string) \<times> bool" where
  "QueryServiceNameByTag api pid tag =
     (if tag = 0 then (Inl InvalidTag, False)
      else if pid = 0 then (Inl InvalidPid, False)
      else case api \<lparr>TQ_ProcessId = pid, TQ_ServiceTag = tag, TQ_Reserved = 0, TQ_Buffer = None\<rparr> of (ret, buffer) \<Rightarrow>
        if ret \<noteq> 0 then (Inl (TagQueryFailed ret pid tag), False)
        else case buffer of
            None \<Rightarrow> (Inl (NoServiceName pid tag), False)
          | Some serviceName \<Rightarrow>
              (if serviceName = '''' then Inl (EmptyServiceName pid tag) else Inr serviceName, True))"


section \<open>Start keys\<close>

text \<open>\<open>sequence\<close> is the answer of the kernel for a process handle.\<close>

definition GetProcessStartKey :: "(u64 \<Rightarrow> u8) \<Rightarrow> u64 option \<Rightarrow> u64 \<times> bool" where
  "GetProcessStartKey mem sequence =
     (case sequence of None \<Rightarrow> (0, False) | Some sequenceNumber \<Rightarrow> (push_bit 48 (bootId mem) OR sequenceNumber, True))"

lemma GetProcessStartKey_eq:
  "GetProcessStartKey mem (Some n) = (GetStartKeyFromSequence (bootId mem) n, True)"
  by (simp add: GetProcessStartKey_def GetStartKeyFromSequence_def)

section \<open>Reading entries back\<close>

lemma le_nat_simps [simp]: "le_nat [] = 0" "le_nat (b # bs) = unat b + 256 * le_nat bs"
  by (simp_all add: le_nat_def)

lemma le_bytes_Suc: "le_bytes (Suc n) v = byte_at 0 v # le_bytes n (drop_bit 8 v)"
proof -
  have "[0..<Suc n] = 0 # map Suc [0..<n]" by (metis map_Suc_upt upt_conv_Cons zero_less_Suc)
  then show ?thesis by (simp add: le_bytes_def byte_at_def ac_simps)
qed

lemma unat_byte_at_0: "unat (byte_at 0 v) = unat v mod 256"
  by (simp add: byte_at_def unsigned_ucast_eq take_bit_eq_mod)

lemma le_nat_le_bytes: "le_nat (le_bytes n v) = unat v mod 256 ^ n"
proof (induction n arbitrary: v)
  case (Suc n)
  have "unat (drop_bit 8 v) = unat v div 256" by (subst unat_drop_bit_eq) (simp add: drop_bit_eq_div)
  then show ?case using mod_mult2_eq [of "unat v" 256 "256 ^ n"]
    by (simp add: le_bytes_Suc Suc.IH unat_byte_at_0 del: upt_Suc)
qed (simp add: le_bytes_def)

lemma le_bytes_length [simp]: "length (le_bytes n v) = n"
  by (simp add: le_bytes_def)

lemma le_nat_words [simp]:
  "le_nat (le_bytes 2 (v2 :: u16)) = unat v2" "le_nat (le_bytes 4 (v4 :: u32)) = unat v4"
  "le_nat (le_bytes 8 (v8 :: u64)) = unat v8"
  using unsigned_less [of v2, where 'a = nat] unsigned_less [of v4, where 'a = nat] unsigned_less [of v8, where 'a = nat]
  by (simp_all add: le_nat_le_bytes)

lemma NTUnicodeString_layout:
  "align_of NTUnicodeString = 8" "size_of NTUnicodeString = 16"
  "field_layout 0 [Field ''Length'' uint16, Field ''MaximumLength'' uint16, Field ''Buffer'' uintptr] =
    [(''Length'', 0, 2), (''MaximumLength'', 2, 2), (''Buffer'', 8, 8)]"
  by (simp_all add: NTUnicodeString_def align_up_def)

lemma SPI_type_layout: "type_layout 0 (map ftype SPI_fields) =
    [(0, 4), (4, 4), (8, 8), (16, 4), (20, 4), (24, 8), (32, 8), (40, 8), (48, 8), (56, 16), (72, 4), (80, 8),
     (88, 8), (96, 4), (100, 4), (104, 8), (112, 8), (120, 8), (128, 4), (136, 8), (144, 8), (152, 8), (160, 8),
     (168, 8), (176, 8), (184, 8), (192, 8), (200, 8), (208, 8), (216, 8), (224, 8), (232, 8), (240, 8), (248, 8)]"
  by (simp add: SPI_fields_def NTUnicodeString_layout align_up_def)

lemma SPI_offsets:
  "map_of (field_layout 0 SPI_fields) ''NextEntryOffset'' = Some (0, 4)"
  "map_of (field_layout 0 SPI_fields) ''CreateTime'' = Some (32, 8)"
  "map_of (field_layout 0 SPI_fields) ''ImageName'' = Some (56, 16)"
  "map_of (field_layout 0 SPI_fields) ''UniqueProcessID'' = Some (80, 8)"
  "map_of (field_layout 0 SPI_fields) ''InheritedFromUniqueProcessID'' = Some (88, 8)"
  "map_of (field_layout 0 SPI_fields) ''SessionID'' = Some (100, 4)"
  "map_of (field_layout 0 SPI_fields) ''UniqueProcessKey'' = Some (104, 8)"
  unfolding field_layout_zip SPI_type_layout by (simp_all add: SPI_fields_def)

lemma SPI_size: "size_of (Struct SPI_fields) = 256"
  by (simp add: SPI_fields_def NTUnicodeString_layout align_up_def)

text \<open>The records of the threads: the first lies directly behind the process's fields, and each
  takes 80 bytes, four of them padding behind \<open>WaitTime\<close> and four at the end.\<close>

definition CLIENT_ID :: gotype where
  "CLIENT_ID = Struct [Field ''UniqueProcess'' uintptr, Field ''UniqueThread'' uintptr]"

definition SYSTEM_THREAD_INFORMATION :: gotype where
  "SYSTEM_THREAD_INFORMATION = Struct [
     Field ''KernelTime'' uint64, Field ''UserTime'' uint64, Field ''CreateTime'' uint64, Field ''WaitTime'' uint32,
     Field ''StartAddress'' uintptr, Field ''ClientId'' CLIENT_ID, Field ''Priority'' uint32,
     Field ''BasePriority'' uint32, Field ''ContextSwitches'' uint32, Field ''ThreadState'' uint32,
     Field ''WaitReason'' uint32]"

definition SYSTEM_EXTENDED_PROCESS_INFORMATION :: gotype where
  "SYSTEM_EXTENDED_PROCESS_INFORMATION = Struct [
     Field ''SYSTEM_PROCESS_INFORMATION'' (Struct SPI_fields), Field ''Threads'' (Array 1 SYSTEM_THREAD_INFORMATION)]"

lemma CLIENT_ID_layout: "size_of CLIENT_ID = 16" "align_of CLIENT_ID = 8"
  by (simp_all add: CLIENT_ID_def align_up_def)

lemma SPI_align: "align_of (Struct SPI_fields) = 8"
  by (simp add: SPI_fields_def NTUnicodeString_layout)

lemma thread_record_layout:
  "size_of SYSTEM_THREAD_INFORMATION = 80" "align_of SYSTEM_THREAD_INFORMATION = 8"
  "offset_of SYSTEM_THREAD_INFORMATION ''StartAddress'' = Some 32"
  "offset_of SYSTEM_THREAD_INFORMATION ''WaitReason'' = Some 72"
  by (simp_all add: SYSTEM_THREAD_INFORMATION_def offset_of_def CLIENT_ID_layout Let_def align_up_def)

lemma record_behind:
  assumes "align_of t = 8" "size_of t = 8 * k" "align_of u = 8" "size_of u = 8 * j" "f \<noteq> g"
  shows "offset_of (Struct [Field f t, Field g (Array 1 u)]) g = Some (size_of t)"
    and "size_of (Struct [Field f t, Field g (Array 1 u)]) = size_of t + size_of u"
proof -
  have "align_up (8 * m) 8 = 8 * m" for m by (simp add: align_up_def)
  from this [of "k + j"] this [of k] this [of 0]
  show "offset_of (Struct [Field f t, Field g (Array 1 u)]) g = Some (size_of t)"
    "size_of (Struct [Field f t, Field g (Array 1 u)]) = size_of t + size_of u"
    using assms by (simp_all add: offset_of_def Let_def algebra_simps)
qed

lemma threads_behind_process:
  "offset_of SYSTEM_EXTENDED_PROCESS_INFORMATION ''Threads'' = Some (size_of (Struct SPI_fields))"
  "size_of SYSTEM_EXTENDED_PROCESS_INFORMATION = size_of (Struct SPI_fields) + 80"
proof -
  have s: "size_of (Struct SPI_fields) = 8 * 32" "size_of SYSTEM_THREAD_INFORMATION = 8 * 10"
    unfolding SPI_size thread_record_layout by simp_all
  note r = record_behind [OF SPI_align s(1) thread_record_layout(2) s(2)]
  show "offset_of SYSTEM_EXTENDED_PROCESS_INFORMATION ''Threads'' = Some (size_of (Struct SPI_fields))"
    unfolding SYSTEM_EXTENDED_PROCESS_INFORMATION_def by (rule r(1)) simp
  show "size_of SYSTEM_EXTENDED_PROCESS_INFORMATION = size_of (Struct SPI_fields) + 80"
    unfolding SYSTEM_EXTENDED_PROCESS_INFORMATION_def using r(2) [of "''SYSTEM_PROCESS_INFORMATION''" "''Threads''"] s(2) by simp
qed

text \<open>What the kernel writes for a process: the fields that the walk reads, arbitrary bytes in the
  others, and the records of its threads behind.\<close>

record kernel_entry =
  KE_pid :: u64
  KE_parent :: u64
  KE_session :: u32
  KE_create :: u64
  KE_key :: u64
  KE_name_length :: u16
  KE_name_buffer :: u64
  KE_other :: "nat \<Rightarrow> u8"
  KE_threads :: "u8 list"

definition other_bytes :: "kernel_entry \<Rightarrow> nat \<Rightarrow> nat \<Rightarrow> u8 list" where
  "other_bytes e a n = map (KE_other e) [a..<a + n]"

definition encode_entry :: "u32 \<Rightarrow> kernel_entry \<Rightarrow> u8 list" where
  "encode_entry next_off e =
     le_bytes 4 next_off @ other_bytes e 4 28 @ le_bytes 8 (KE_create e) @ other_bytes e 40 16
     @ le_bytes 2 (KE_name_length e) @ other_bytes e 58 6 @ le_bytes 8 (KE_name_buffer e) @ other_bytes e 72 8
     @ le_bytes 8 (KE_pid e) @ le_bytes 8 (KE_parent e) @ other_bytes e 96 4 @ le_bytes 4 (KE_session e)
     @ le_bytes 8 (KE_key e) @ other_bytes e 112 144 @ KE_threads e"

fun encode_list :: "kernel_entry list \<Rightarrow> u8 list" where
  "encode_list [] = []"
| "encode_list [e] = encode_entry 0 e"
| "encode_list (e # e' # es) = encode_entry (of_nat (256 + length (KE_threads e))) e @ encode_list (e' # es)"

definition decoded_name :: "win_env \<Rightarrow> kernel_entry \<Rightarrow> string" where
  "decoded_name env e =
     (if KE_name_length e = 0 \<or> KE_name_buffer e = 0 then ''''
      else UTF16ToString env (map (\<lambda>i. mem_u16 env (KE_name_buffer e + 2 * of_nat i)) [0..<unat (KE_name_length e) div 2]))"

definition decoded :: "win_env \<Rightarrow> kernel_entry \<Rightarrow> process_info_entry" where
  "decoded env e = \<lparr>EPI_PID = ucast (KE_pid e), EPI_ParentPID = ucast (KE_parent e), EPI_SessionID = KE_session e,
     EPI_ExeFile = decoded_name env e, EPI_FullDevicePath = GetProcessImageFileName env (ucast (KE_pid e)),
     EPI_CreateTime = KE_create e, EPI_UniqueProcessKey = KE_key e\<rparr>"

definition add_decoded :: "win_env \<Rightarrow> kernel_entry \<Rightarrow> (u32 \<rightharpoonup> process_info_entry) \<Rightarrow> (u32 \<rightharpoonup> process_info_entry)" where
  "add_decoded env e m = (if (ucast (KE_pid e) :: u32) = 0 then m else m(ucast (KE_pid e) \<mapsto> decoded env e))"

lemma other_bytes_length [simp]: "length (other_bytes e a n) = n"
  by (simp add: other_bytes_def)

lemma encode_entry_length [simp]: "length (encode_entry next_off e) = 256 + length (KE_threads e)"
  by (simp add: encode_entry_def)

lemma drop_pre: "drop (length pre + n) (pre @ xs) = drop n xs"
  by simp

lemma drop_segment: "length xs \<le> n \<Longrightarrow> drop n (xs @ ys) = drop (n - length xs) ys"
  by simp

lemma take_segment: "take (length xs) (xs @ ys) = xs"
  by simp

text \<open>The bytes at the offsets that the walk reads.\<close>

lemma entry_bytes:
  "take 4 (encode_entry next_off e @ post) = le_bytes 4 next_off"
  "take 8 (drop 32 (encode_entry next_off e @ post)) = le_bytes 8 (KE_create e)"
  "take 2 (drop 56 (encode_entry next_off e @ post)) = le_bytes 2 (KE_name_length e)"
  "take 8 (drop 64 (encode_entry next_off e @ post)) = le_bytes 8 (KE_name_buffer e)"
  "take 8 (drop 80 (encode_entry next_off e @ post)) = le_bytes 8 (KE_pid e)"
  "take 8 (drop 88 (encode_entry next_off e @ post)) = le_bytes 8 (KE_parent e)"
  "take 4 (drop 100 (encode_entry next_off e @ post)) = le_bytes 4 (KE_session e)"
  "take 8 (drop 104 (encode_entry next_off e @ post)) = le_bytes 8 (KE_key e)"
  by (simp_all add: encode_entry_def)

text \<open>Each field of an entry anywhere in the buffer.\<close>

lemma entry_fields:
  "entry_field ''NextEntryOffset'' (pre @ encode_entry next_off e @ post) (length pre) = unat next_off"
  "entry_field ''CreateTime'' (pre @ encode_entry next_off e @ post) (length pre) = unat (KE_create e)"
  "entry_field ''UniqueProcessID'' (pre @ encode_entry next_off e @ post) (length pre) = unat (KE_pid e)"
  "entry_field ''InheritedFromUniqueProcessID'' (pre @ encode_entry next_off e @ post) (length pre) = unat (KE_parent e)"
  "entry_field ''SessionID'' (pre @ encode_entry next_off e @ post) (length pre) = unat (KE_session e)"
  "entry_field ''UniqueProcessKey'' (pre @ encode_entry next_off e @ post) (length pre) = unat (KE_key e)"
  unfolding entry_field_def SPI_offsets by (simp_all only: option.case prod.case drop_pre entry_bytes le_nat_words drop_0)

lemma name_fields:
  "name_field ''Length'' (pre @ encode_entry next_off e @ post) (length pre) = unat (KE_name_length e)"
  "name_field ''Buffer'' (pre @ encode_entry next_off e @ post) (length pre) = unat (KE_name_buffer e)"
proof -
  have e: "length pre + 56 + 0 = length pre + 56" "length pre + 56 + 8 = length pre + 64" by simp_all
  have ofs: "map_of (field_layout 0 [Field ''Length'' uint16, Field ''MaximumLength'' uint16, Field ''Buffer'' uintptr]) ''Length'' = Some (0, 2)"
    "map_of (field_layout 0 [Field ''Length'' uint16, Field ''MaximumLength'' uint16, Field ''Buffer'' uintptr]) ''Buffer'' = Some (8, 8)"
    unfolding NTUnicodeString_layout(3) by simp_all
  show
    "name_field ''Length'' (pre @ encode_entry next_off e @ post) (length pre) = unat (KE_name_length e)"
    "name_field ''Buffer'' (pre @ encode_entry next_off e @ post) (length pre) = unat (KE_name_buffer e)"
    unfolding name_field_def SPI_offsets NTUnicodeString_def
    by (simp_all only: option.case prod.case gotype.case ofs e drop_pre entry_bytes le_nat_words)
qed

lemma unat_cast: "(of_nat (unat (v :: u64)) :: u32) = ucast v"
  by (simp add: of_nat_unat)

lemma add_entry_encoded:
  "add_entry env (pre @ encode_entry next_off e @ post) (length pre) m = add_decoded env e m"
  by (simp add: add_entry_def add_decoded_def entry_pid_def entry_info_def image_name_def decoded_def decoded_name_def
      entry_fields name_fields Let_def unat_eq_zero)

definition entry_fits :: "kernel_entry \<Rightarrow> bool" where
  "entry_fits e \<longleftrightarrow> 256 + length (KE_threads e) < 2 ^ 32"

lemma unat_u32: "n < 2 ^ 32 \<Longrightarrow> unat (of_nat n :: u32) = n"
  by (simp add: unsigned_of_nat take_bit_nat_eq_self)

lemma walk_step:
  assumes "off + 256 \<le> length buf"
  shows "snapshot_walk env buf off m =
    (if entry_field ''NextEntryOffset'' buf off = 0 then Returns (add_entry env buf off m)
     else snapshot_walk env buf (off + entry_field ''NextEntryOffset'' buf off) (add_entry env buf off m))"
  using assms by (subst snapshot_walk.simps) (simp add: SPI_size del: size_of.simps)

lemma walk_encoded:
  "es \<noteq> [] \<Longrightarrow> list_all entry_fits es \<Longrightarrow>
   snapshot_walk env (pre @ encode_list es @ post) (length pre) m = Returns (fold (add_decoded env) es m)"
proof (induction es arbitrary: pre m rule: encode_list.induct)
  case (2 e)
  then show ?case
    by (simp add: walk_step entry_fields(1) add_entry_encoded)
next
  case (3 e e' es)
  let ?next = "of_nat (256 + length (KE_threads e)) :: u32"
  let ?pre = "pre @ encode_entry ?next e"
  have "unat ?next = 256 + length (KE_threads e)"
    using 3(3) by (intro unat_u32) (simp add: entry_fits_def)
  then have "snapshot_walk env (pre @ encode_list (e # e' # es) @ post) (length pre) m =
      snapshot_walk env (?pre @ encode_list (e' # es) @ post) (length ?pre) (add_decoded env e m)"
    using entry_fields(1) [of pre ?next e "encode_list (e' # es) @ post"]
      add_entry_encoded [of env pre ?next e "encode_list (e' # es) @ post" m]
    by (simp add: walk_step add.assoc)
  also have "\<dots> = Returns (fold (add_decoded env) (e' # es) (add_decoded env e m))"
    using 3(3) by (intro "3.IH") simp_all
  finally show ?case by simp
qed simp



section \<open>How the enumeration of services ends\<close>

text \<open>What Windows documents for the size: the number of bytes of the entries that did not fit, not
  of all of them. \<open>sizes\<close> holds the bytes of each entry with its strings.\<close>

fun not_fitting :: "nat \<Rightarrow> nat list \<Rightarrow> nat list" where
  "not_fitting room [] = []"
| "not_fitting room (s # ss) = (if s \<le> room then not_fitting (room - s) ss else s # ss)"

definition documented_enum :: "(nat \<times> u32 \<times> string) list \<Rightarrow> enum_query" where
  "documented_enum services call bufSize =
     (let rest = not_fitting (unat bufSize) (map fst services)
      in if rest = [] then EnumOk (map snd services) else MoreData (of_nat (sum_list rest)))"

lemma not_fitting_all: "sum_list ss \<le> room \<Longrightarrow> not_fitting room ss = []"
  by (induction ss arbitrary: room) auto

lemma not_fitting_uniform:
  "0 < s \<Longrightarrow> not_fitting room (replicate n s) = replicate (n - room div s) s"
proof (induction n arbitrary: room)
  case (Suc n)
  show ?case
  proof (cases "s \<le> room")
    case True
    then have "room div s = Suc ((room - s) div s)" using Suc.prems by (simp add: le_div_geq)
    then show ?thesis using Suc True by simp
  qed (use Suc in simp)
qed simp

lemma enum_oscillates:
  assumes "0 < s" and "map fst services = replicate n s" and "n * s < 2 ^ 32"
    and "0 < unat bufSize div s" and "unat bufSize div s < n"
  shows "enum_loop fuel (documented_enum services) call bufSize = None"
  using assms(4,5)
proof (induction fuel arbitrary: call bufSize)
  case (Suc fuel)
  let ?k = "unat bufSize div s" and ?next = "of_nat ((n - unat bufSize div s) * s) :: u32"
  have a: "documented_enum services call bufSize = MoreData ?next"
  proof -
    have "n - ?k \<noteq> 0" using Suc.prems(2) by simp
    then show ?thesis
      unfolding documented_enum_def assms(2) not_fitting_uniform [OF assms(1)]
      by (simp only: Let_def replicate_empty sum_list_replicate of_nat_id if_False)
  qed
  have "(n - ?k) * s < 2 ^ 32" by (rule le_less_trans [OF mult_le_mono1 [OF diff_le_self] assms(3)])
  then have "unat ?next = (n - ?k) * s" by (rule unat_u32)
  then have "unat ?next div s = n - ?k" using assms(1) by simp
  moreover have "bufSize \<noteq> 0" using Suc.prems(1) by auto
  ultimately show ?case using Suc.IH [of ?next "Suc call"] Suc.prems a by simp
qed simp



text \<open>A tag query only returns a name that is not empty, and gives the buffer back whenever the call
  succeeded with one.\<close>

lemma QueryServiceNameByTag_name:
  "QueryServiceNameByTag api pid tag = (Inr name, freed) \<Longrightarrow>
     name \<noteq> '''' \<and> freed \<and> pid \<noteq> 0 \<and> tag \<noteq> 0
     \<and> api \<lparr>TQ_ProcessId = pid, TQ_ServiceTag = tag, TQ_Reserved = 0, TQ_Buffer = None\<rparr> = (0, Some name)"
  by (auto simp: QueryServiceNameByTag_def split: if_splits option.splits prod.splits)

text \<open>The two queries as the scrape uses them: an error of either is treated like no answer.\<close>

definition query_name :: "(service_tag_query \<Rightarrow> u32 \<times> string option) \<Rightarrow> u32 \<Rightarrow> u32 \<Rightarrow> string option" where
  "query_name api pid tag = (case fst (QueryServiceNameByTag api pid tag) of Inr name \<Rightarrow> Some name | Inl _ \<Rightarrow> None)"

definition sample_entry :: "u64 \<Rightarrow> u64 \<Rightarrow> kernel_entry" where
  "sample_entry pid parent = \<lparr>KE_pid = pid, KE_parent = parent, KE_session = 1, KE_create = 77, KE_key = 0xffff800000000000,
     KE_name_length = 0, KE_name_buffer = 0, KE_other = (\<lambda>_. 0xAA), KE_threads = [1, 2, 3, 4]\<rparr>"

definition sample_win :: win_env where
  "sample_win = \<lparr>mem_u16 = (\<lambda>_. 0), UTF16ToString = (\<lambda>_. ''''), GetProcessImageFileName = (\<lambda>_. ''x'')\<rparr>"


end
