(* ===== verification/Application.thy ===== *)
theory Application
  imports Stats_Collector Logging Windows_Api
begin

text \<open>
  The whole program (\<open>main.go\<close>, \<open>etw_exporter.go\<close>): how the configuration is turned into a
  running exporter, what runs then, and how it is shut down.

  What the outside does is data: the files, the answers of Windows and the library as in
  \<open>Config\<close>, \<open>Logging\<close> and \<open>Session_Manager\<close>, and a list of steps (events, scrapes, ticks of
  the watchdog) in the order in which they happen. The HTTP server is the order of the calls
  made on it.
\<close>

section \<open>Set-up\<close>

record exporter =
  Ex_config :: app_config
  Ex_sm :: session_manager
  Ex_eh :: event_handler
  Ex_world :: world

datatype app_error = BadConfiguration | BadLogging log_error | CaptureFailed session_error | StartFailed session_error

text \<open>\<open>setupETW\<close>. A failing capture ends the program through the logger.\<close>

definition with_process_manager :: "etw_consts \<Rightarrow> app_config \<Rightarrow> app_config" where
  "with_process_manager c cfg = cfg\<lparr>Collectors := (Collectors cfg)
     \<lparr>RequiresProcessManager := IsProcessManagerNeeded c (Collectors cfg)\<rparr>\<rparr>"

definition sm_ApplyConfig :: "(string \<Rightarrow> bool) \<Rightarrow> collector_config \<Rightarrow> ksm \<Rightarrow> ksm" where
  "sm_ApplyConfig compiles cols =
     PM_ApplyConfig compiles (RequiresProcessManager cols) (PF_Enabled (ProcessFilter cols)) (PF_IncludeNames (ProcessFilter cols))"

definition setupETW :: "etw_consts \<Rightarrow> session_env \<Rightarrow> nat \<Rightarrow> (string \<Rightarrow> bool) \<Rightarrow> app_config \<Rightarrow> ksm \<Rightarrow> app_error + exporter" where
  "setupETW c env numCPU compiles cfg0 k =
     (let cfg = with_process_manager c cfg0;
          (eh, w) = NewEventHandler c numCPU (Collectors cfg) (sm_ApplyConfig compiles (Collectors cfg) k);
          sm = NewSessionManager c cfg;
          (err, sm1) = (if \<not> IsSystemProviderSupported env then CaptureNtSystemConfigEvents env sm else (None, sm))
      in case err of
           Some e \<Rightarrow> Inl (CaptureFailed e)
         | None \<Rightarrow> Inr \<lparr>Ex_config = cfg, Ex_sm = sm1,
             Ex_eh = (if Watcher_Enabled (SessionWatcher cfg) then RegisterWatcherRoutes eh else eh), Ex_world = w\<rparr>)"

text \<open>\<open>NewETWExporter\<close> then sets up the HTTP handlers and registers the statistics collector, which
  reads the session manager and the event handler of the exporter.\<close>

definition exporter_stats :: "etw_stats \<Rightarrow> exporter \<Rightarrow> metric list option" where
  "exporter_stats es ex = stats_Collect es (Ex_sm ex) (Some (Ex_eh ex))"


text \<open>\<open>setupHTTPServer\<close>: the patterns registered on the server's mux, in order. A registration panics
  when the pattern is not well-formed (\<open>valid\<close>, the syntax of \<open>net/http\<close>) or already there. The
  patterns of the debug handlers come from a package that is not in the repository.\<close>

datatype endpoint = MetricsEndpoint | IndexEndpoint | DebugEndpoint string

type_synonym http_mux = "(string \<times> endpoint) list"

definition mux_handle :: "(string \<Rightarrow> bool) \<Rightarrow> string \<Rightarrow> endpoint \<Rightarrow> http_mux option \<Rightarrow> http_mux option" where
  "mux_handle valid p e mux =
     (case mux of None \<Rightarrow> None | Some m \<Rightarrow> if valid p \<and> p \<notin> set (map fst m) then Some (m @ [(p, e)]) else None)"

definition setupHTTPServer :: "(string \<Rightarrow> bool) \<Rightarrow> string list \<Rightarrow> server_config \<Rightarrow> http_mux option" where
  "setupHTTPServer valid debug_patterns cfg =
     (let m1 = mux_handle valid (MetricsPath cfg) MetricsEndpoint (Some []);
          m2 = mux_handle valid ''/'' IndexEndpoint m1
      in if DebugEnabled cfg then fold (\<lambda>p. mux_handle valid p (DebugEndpoint p)) debug_patterns m2 else m2)"


section \<open>Running\<close>

datatype 'e stimulus =
    Event 'e "nat option"
  | Scrape "(u32 \<times> string) list option" "u32 \<Rightarrow> u32 \<Rightarrow> string option" go_time
  | Tick go_time

fun app_step :: "etw_consts \<Rightarrow> 'e etw_lib \<Rightarrow> u64 \<Rightarrow> 'e stimulus \<Rightarrow> exporter \<Rightarrow> exporter option" where
  "app_step c lib boot (Event er choice) ex =
     map_option (\<lambda>(eh, w). ex\<lparr>Ex_eh := eh, Ex_world := w\<rparr>) (deliver c lib boot choice er (Ex_eh ex, Ex_world ex))"
| "app_step c lib boot (Scrape snapshot query now) ex =
     map_option (\<lambda>(_, w). ex\<lparr>Ex_world := w\<rparr>) (metricsHandler snapshot query now (Ex_world ex))"
| "app_step c lib boot (Tick now) ex =
     map_option (\<lambda>k. ex\<lparr>Ex_world := (Ex_world ex)\<lparr>W_k := k\<rparr>\<rparr>) (watchdog_tick now (W_k (Ex_world ex)))"

fun app_run :: "etw_consts \<Rightarrow> 'e etw_lib \<Rightarrow> u64 \<Rightarrow> 'e stimulus list \<Rightarrow> exporter \<Rightarrow> exporter option" where
  "app_run c lib boot [] ex = Some ex"
| "app_run c lib boot (s # ss) ex =
     (case app_step c lib boot s ex of None \<Rightarrow> None | Some ex' \<Rightarrow> app_run c lib boot ss ex')"

text \<open>\<open>Run\<close>: the sessions are started, then the server; any of the triggers begins the shutdown, in
  which the server is shut down before the sessions, whatever the server's shutdown returns.
  An error of the last step is only logged.\<close>

datatype shutdown_trigger = OsSignal | PprofPanic | ServerPanic | ServerError

datatype app_call = CallSessionsStart | CallListen | CallServerShutdown | CallSessionsStop

definition shutdown :: "session_env \<Rightarrow> exporter \<Rightarrow> app_call list \<times> exporter" where
  "shutdown env ex = ([CallServerShutdown, CallSessionsStop], ex\<lparr>Ex_sm := snd (sm_Stop env (Ex_sm ex))\<rparr>)"

definition app_Run :: "etw_consts \<Rightarrow> session_env \<Rightarrow> 'e etw_lib \<Rightarrow> u64 \<Rightarrow> 'e stimulus list \<Rightarrow> shutdown_trigger \<Rightarrow>
    exporter \<Rightarrow> (app_error option \<times> app_call list \<times> exporter) option" where
  "app_Run c env lib boot steps trigger ex =
     (case sm_Start c env (Ex_sm ex) of
        (Some e, sm1) \<Rightarrow> Some (Some (StartFailed e), [CallSessionsStart], ex\<lparr>Ex_sm := sm1\<rparr>)
      | (None, sm1) \<Rightarrow>
          map_option (\<lambda>ex1. case shutdown env ex1 of (cs, ex2) \<Rightarrow> (None, [CallSessionsStart, CallListen] @ cs, ex2))
            (app_run c lib boot steps (ex\<lparr>Ex_sm := sm1\<rparr>)))"


section \<open>The program\<close>

datatype program_result = ExitedWith nat | FatalError app_error | Ended "app_call list" http_mux exporter

definition log_result :: "log_lib \<Rightarrow> log_env \<Rightarrow> logging_state \<Rightarrow> logging_config \<Rightarrow> bool" where
  "log_result lg lenv st cfg \<longleftrightarrow> snd (ConfigureLogging lg lenv cfg st) = None"

text \<open>\<open>log.Fatal\<close> of the standard library prints and exits with status 1.\<close>

definition main_program :: "log_lib \<Rightarrow> log_env \<Rightarrow> logging_state \<Rightarrow> config_env \<Rightarrow> flags \<Rightarrow> etw_consts \<Rightarrow> session_env \<Rightarrow>
    (string \<Rightarrow> bool) \<Rightarrow> string list \<Rightarrow> nat \<Rightarrow> (string \<Rightarrow> bool) \<Rightarrow> 'e etw_lib \<Rightarrow> u64 \<Rightarrow> go_time \<Rightarrow> 'e stimulus list \<Rightarrow>
    shutdown_trigger \<Rightarrow> program_result option" where
  "main_program lg lenv st cenv fl c env valid debug_patterns numCPU compiles lib boot now steps trigger =
     (case main_config (log_result lg lenv st) cenv fl of
        None \<Rightarrow> None
      | Some (Exits n) \<Rightarrow> Some (ExitedWith n)
      | Some (Runs cfg) \<Rightarrow>
          (case setupETW c env numCPU compiles cfg (GetGlobalStateManager now) of
             Inl e \<Rightarrow> Some (FatalError e)
           | Inr ex \<Rightarrow>
               (case setupHTTPServer valid debug_patterns (Server cfg) of
                  None \<Rightarrow> None
                | Some mux \<Rightarrow>
                    (case app_Run c env lib boot steps trigger ex of
                       None \<Rightarrow> None
                     | Some (Some e, _, _) \<Rightarrow> Some (ExitedWith 1)
                     | Some (None, cs, ex') \<Rightarrow> Some (Ended cs mux ex')))))"


section \<open>Collectors that are not there\<close>

text \<open>The network and memory handlers need their collectors. An action that is not theirs neither
  reads nor changes these two.\<close>

lemma W_net_outward:
  "w\<lparr>W_net := x, W_k := yk\<rparr> = w\<lparr>W_k := yk, W_net := x\<rparr>"
  "w\<lparr>W_net := x, W_disk := yd\<rparr> = w\<lparr>W_disk := yd, W_net := x\<rparr>"
  "w\<lparr>W_net := x, W_reg := yr\<rparr> = w\<lparr>W_reg := yr, W_net := x\<rparr>"
  "w\<lparr>W_net := x, W_thread := yt\<rparr> = w\<lparr>W_thread := yt, W_net := x\<rparr>"
  "w\<lparr>W_net := x, W_sys := ys\<rparr> = w\<lparr>W_sys := ys, W_net := x\<rparr>"
  "w\<lparr>W_net := x, W_perf := yp\<rparr> = w\<lparr>W_perf := yp, W_net := x\<rparr>"
  "w\<lparr>W_net := x, W_mem := ym\<rparr> = w\<lparr>W_mem := ym, W_net := x\<rparr>"
  by simp_all

lemma W_mem_outward:
  "w\<lparr>W_mem := x, W_k := yk\<rparr> = w\<lparr>W_k := yk, W_mem := x\<rparr>"
  "w\<lparr>W_mem := x, W_disk := yd\<rparr> = w\<lparr>W_disk := yd, W_mem := x\<rparr>"
  "w\<lparr>W_mem := x, W_reg := yr\<rparr> = w\<lparr>W_reg := yr, W_mem := x\<rparr>"
  "w\<lparr>W_mem := x, W_thread := yt\<rparr> = w\<lparr>W_thread := yt, W_mem := x\<rparr>"
  "w\<lparr>W_mem := x, W_sys := ys\<rparr> = w\<lparr>W_sys := ys, W_mem := x\<rparr>"
  "w\<lparr>W_mem := x, W_perf := yp\<rparr> = w\<lparr>W_perf := yp, W_mem := x\<rparr>"
  "w\<lparr>W_mem := x, W_net := yn\<rparr> = w\<lparr>W_net := yn, W_mem := x\<rparr>"
  by simp_all

lemma collect_frames:
  "collect_thread (w\<lparr>W_net := x\<rparr>) = apsnd (\<lambda>v. v\<lparr>W_net := x\<rparr>) (collect_thread w)"
  "collect_thread (w\<lparr>W_mem := y\<rparr>) = apsnd (\<lambda>v. v\<lparr>W_mem := y\<rparr>) (collect_thread w)"
  "collect_perf (w\<lparr>W_net := x\<rparr>) = apsnd (\<lambda>v. v\<lparr>W_net := x\<rparr>) (collect_perf w)"
  "collect_perf (w\<lparr>W_mem := y\<rparr>) = apsnd (\<lambda>v. v\<lparr>W_mem := y\<rparr>) (collect_perf w)"
  by (simp_all add: collect_thread_def collect_perf_def split: option.split prod.split)

lemma collect_all_frames:
  "snd (collect_all (w\<lparr>W_net := x\<rparr>)) = (snd (collect_all w))\<lparr>W_net := x\<rparr>"
  "snd (collect_all (w\<lparr>W_mem := y\<rparr>)) = (snd (collect_all w))\<lparr>W_mem := y\<rparr>"
  by (simp_all add: collect_all_def collect_frames case_prod_unfold)

lemma metricsHandler_snd:
  "map_option snd (metricsHandler snapshot query now w) =
     Option.bind (AggregateMetrics snapshot query (W_k w)) (\<lambda>k1.
       map_option (\<lambda>k2. (snd (collect_all (w\<lparr>W_k := k1\<rparr>)))\<lparr>W_k := k2\<rparr>)
         (PostScrapeCleanup now (W_k (snd (collect_all (w\<lparr>W_k := k1\<rparr>))))))"
  by (cases "AggregateMetrics snapshot query (W_k w)")
    (simp_all add: metricsHandler_def case_prod_unfold option.map_comp comp_def)

lemma metricsHandler_frames:
  "map_option snd (metricsHandler snapshot query now (w\<lparr>W_net := x\<rparr>)) =
     map_option (\<lambda>v. v\<lparr>W_net := x\<rparr>) (map_option snd (metricsHandler snapshot query now w))"
  "map_option snd (metricsHandler snapshot query now (w\<lparr>W_mem := y\<rparr>)) =
     map_option (\<lambda>v. v\<lparr>W_mem := y\<rparr>) (map_option snd (metricsHandler snapshot query now w))"
proof -
  show
    "map_option snd (metricsHandler snapshot query now (w\<lparr>W_net := x\<rparr>)) =
      map_option (\<lambda>v. v\<lparr>W_net := x\<rparr>) (map_option snd (metricsHandler snapshot query now w))"
    "map_option snd (metricsHandler snapshot query now (w\<lparr>W_mem := y\<rparr>)) =
      map_option (\<lambda>v. v\<lparr>W_mem := y\<rparr>) (map_option snd (metricsHandler snapshot query now w))"
    unfolding metricsHandler_snd W_net_outward(1) W_mem_outward(1) collect_all_frames
    by (cases "AggregateMetrics snapshot query (W_k w)";
        simp add: option.map_comp comp_def W_net_outward(1) W_mem_outward(1))+
qed

lemma act_net_frame:
  assumes "\<And>m ev e. a \<noteq> On_Net m ev e"
  shows "act lib boot a (w\<lparr>W_net := x\<rparr>) = map_option (\<lambda>v. v\<lparr>W_net := x\<rparr>) (act lib boot a w)"
proof (cases a)
  case (Scrape_Metrics snapshot query now)
  then show ?thesis by (simp only: act.simps metricsHandler_frames)
qed (use assms in \<open>simp_all add: via_def option.map_comp comp_def case_prod_unfold W_net_outward\<close>)

lemma act_mem_frame:
  assumes "\<And>e. a \<noteq> On_Memory e"
  shows "act lib boot a (w\<lparr>W_mem := x\<rparr>) = map_option (\<lambda>v. v\<lparr>W_mem := x\<rparr>) (act lib boot a w)"
proof (cases a)
  case (Scrape_Metrics snapshot query now)
  then show ?thesis by (simp only: act.simps metricsHandler_frames)
qed (use assms in \<open>simp_all add: via_def option.map_comp comp_def case_prod_unfold W_mem_outward\<close>)

definition with_collectors :: "world \<Rightarrow> world" where
  "with_collectors w = w\<lparr>
     W_net := Some (case W_net w of Some nc \<Rightarrow> nc | None \<Rightarrow> NewNetworkCollector
       \<lparr>Net_Enabled = False, Net_ConnectionHealth = False, Net_ByProtocol = False, Net_RetransmissionRate = False\<rparr>),
     W_mem := Some (case W_mem w of Some mc \<Rightarrow> mc | None \<Rightarrow> NewMemoryCollector False)\<rparr>"

text \<open>The state invariant of an exporter whose network and memory collectors may be missing.\<close>

definition partial_inv :: "nat \<Rightarrow> world \<Rightarrow> bool" where
  "partial_inv n w \<longleftrightarrow> world_inv n (with_collectors w)"

definition same_collectors :: "world \<Rightarrow> world \<Rightarrow> bool" where
  "same_collectors v w \<longleftrightarrow> (W_net v = None \<longleftrightarrow> W_net w = None) \<and> (W_mem v = None \<longleftrightarrow> W_mem w = None)"

lemma same_collectors_refl [simp]: "same_collectors w w"
  by (simp add: same_collectors_def)

lemma same_collectors_trans: "same_collectors u v \<Longrightarrow> same_collectors v w \<Longrightarrow> same_collectors u w"
  by (simp add: same_collectors_def)

lemma world_upd_id: "w\<lparr>W_net := W_net w\<rparr> = w" "w\<lparr>W_mem := W_mem w\<rparr> = w"
  by simp_all

lemma act_keeps_net:
  assumes "act lib boot a w = Some v" and "\<And>m ev e. a \<noteq> On_Net m ev e"
  shows "W_net v = W_net w"
proof -
  have "Some v = Some (v\<lparr>W_net := W_net w\<rparr>)"
    using act_net_frame [OF assms(2), where lib = lib and boot = boot and w = w and x = "W_net w"] assms(1) by simp
  then have "W_net v = W_net (v\<lparr>W_net := W_net w\<rparr>)" by (metis option.inject)
  then show ?thesis by simp
qed

lemma act_keeps_mem:
  assumes "act lib boot a w = Some v" and "\<And>e. a \<noteq> On_Memory e"
  shows "W_mem v = W_mem w"
proof -
  have "Some v = Some (v\<lparr>W_mem := W_mem w\<rparr>)"
    using act_mem_frame [OF assms(2), where lib = lib and boot = boot and w = w and x = "W_mem w"] assms(1) by simp
  then have "W_mem v = W_mem (v\<lparr>W_mem := W_mem w\<rparr>)" by (metis option.inject)
  then show ?thesis by simp
qed

text \<open>An action meets the collectors it needs.\<close>

fun has_collector :: "'e action \<Rightarrow> world \<Rightarrow> bool" where
  "has_collector (On_Net m ev e) w \<longleftrightarrow> W_net w \<noteq> None"
| "has_collector (On_Memory e) w \<longleftrightarrow> W_mem w \<noteq> None"
| "has_collector _ w \<longleftrightarrow> True"

lemma with_collectors_eq:
  "W_net w \<noteq> None \<Longrightarrow> \<exists>y. with_collectors w = w\<lparr>W_mem := Some y\<rparr> \<and> (W_mem w \<noteq> None \<longrightarrow> W_mem w = Some y)"
  "W_mem w \<noteq> None \<Longrightarrow> \<exists>y. with_collectors w = w\<lparr>W_net := Some y\<rparr> \<and> (W_net w \<noteq> None \<longrightarrow> W_net w = Some y)"
  by (cases w; auto simp: with_collectors_def)+

lemma world_inv_collectors: "world_inv n w \<Longrightarrow> W_net w \<noteq> None \<and> W_mem w \<noteq> None"
  by (auto simp: world_inv_def net_state_ok_def)

lemma with_collectors_upd:
  "W_net v = W_net w \<Longrightarrow> W_mem v = W_mem w \<Longrightarrow> with_collectors v = v\<lparr>W_net := W_net (with_collectors w), W_mem := W_mem (with_collectors w)\<rparr>"
  "W_net v \<noteq> None \<Longrightarrow> W_mem v = W_mem w \<Longrightarrow> with_collectors v = v\<lparr>W_mem := W_mem (with_collectors w)\<rparr>"
  "W_mem v \<noteq> None \<Longrightarrow> W_net v = W_net w \<Longrightarrow> with_collectors v = v\<lparr>W_net := W_net (with_collectors w)\<rparr>"
  by (cases v; auto simp: with_collectors_def)+

lemma act_partial:
  assumes "partial_inv n w" and "cpu_in_range n lib a" and "has_collector a w"
  shows "\<exists>v. act lib boot a w = Some v \<and> partial_inv n v \<and> same_collectors v w"
proof -
  let ?w = "with_collectors w"
  obtain u where u: "act lib boot a ?w = Some u" "world_inv n u"
    using act_inv [OF _ assms(2)] assms(1) unfolding partial_inv_def by blast
  note some = world_inv_collectors [OF u(2)]
  consider (net) m ev e where "a = On_Net m ev e" | (mem) e where "a = On_Memory e"
    | (rest) "\<And>m ev e. a \<noteq> On_Net m ev e" "\<And>e. a \<noteq> On_Memory e" by blast
  then show ?thesis
  proof cases
    case net
    have n: "\<And>e. a \<noteq> On_Memory e" and w: "W_net w \<noteq> None" using net assms(3) by auto
    have e: "?w = w\<lparr>W_mem := W_mem ?w\<rparr>" using with_collectors_upd(2) [OF w refl] by simp
    obtain v where v: "act lib boot a w = Some v" "u = v\<lparr>W_mem := W_mem ?w\<rparr>"
      using act_mem_frame [OF n, where lib = lib and boot = boot and w = w and x = "W_mem ?w"] u(1) e
      by (cases "act lib boot a w") auto
    have k: "W_mem v = W_mem w" using act_keeps_mem [OF v(1) n] .
    have sv: "W_net v \<noteq> None" using some v(2) by simp
    have "with_collectors v = u" using with_collectors_upd(2) [OF sv k] v(2) by simp
    then show ?thesis using v(1) u(2) k sv w by (auto simp: partial_inv_def same_collectors_def)
  next
    case mem
    have n: "\<And>m ev e. a \<noteq> On_Net m ev e" and w: "W_mem w \<noteq> None" using mem assms(3) by auto
    have e: "?w = w\<lparr>W_net := W_net ?w\<rparr>" using with_collectors_upd(3) [OF w refl] by simp
    obtain v where v: "act lib boot a w = Some v" "u = v\<lparr>W_net := W_net ?w\<rparr>"
      using act_net_frame [OF n, where lib = lib and boot = boot and w = w and x = "W_net ?w"] u(1) e
      by (cases "act lib boot a w") auto
    have k: "W_net v = W_net w" using act_keeps_net [OF v(1) n] .
    have sv: "W_mem v \<noteq> None" using some v(2) by simp
    have "with_collectors v = u" using with_collectors_upd(3) [OF sv k] v(2) by simp
    then show ?thesis using v(1) u(2) k sv w by (auto simp: partial_inv_def same_collectors_def)
  next
    case rest
    have e: "?w = w\<lparr>W_net := W_net ?w, W_mem := W_mem ?w\<rparr>" using with_collectors_upd(1) [OF refl refl] by simp
    obtain v where v: "act lib boot a w = Some v" "u = v\<lparr>W_net := W_net ?w, W_mem := W_mem ?w\<rparr>"
      using act_net_frame [OF rest(1), where lib = lib and boot = boot and w = w and x = "W_net ?w"]
        act_mem_frame [OF rest(2), where lib = lib and boot = boot and w = "w\<lparr>W_net := W_net ?w\<rparr>" and x = "W_mem ?w"]
        u(1) e
      by (cases "act lib boot a w") auto
    have k: "W_net v = W_net w" "W_mem v = W_mem w" using act_keeps_net [OF v(1)] act_keeps_mem [OF v(1)] rest by auto
    then have "with_collectors v = u" using with_collectors_upd(1) [OF k] v(2) by simp
    then show ?thesis using v(1) u(2) k by (auto simp: partial_inv_def same_collectors_def)
  qed
qed

section \<open>Events that reach the exporter\<close>

lemma deliver_safe:
  assumes run: "\<And>h w. ok_handler h w \<Longrightarrow> P w \<Longrightarrow> \<exists>w'. run_handler lib boot choice er h w = Some w' \<and> P w' \<and> (\<forall>h. ok_handler h w' = ok_handler h w)"
    and P: "P w"
    and fixed: "ok_handler (H_Thread T_Switch) w" "ok_handler (H_Perf P_CSwitch) w" "ok_handler (H_Registry True) w"
    and routed: "\<And>h. rawHandler (route_of eh (lib_ProviderId lib er) (lib_EventId lib er)) = Some h \<Longrightarrow> ok_handler h w"
      "\<And>h. preparedHandler (route_of eh (lib_ProviderId lib er) (lib_EventId lib er)) = Some h \<Longrightarrow> ok_handler h w"
  shows "\<exists>eh' w'. deliver c lib boot choice er (eh, w) = Some (eh', w') \<and> P w' \<and> routeMap eh' = routeMap eh
    \<and> (\<forall>h. ok_handler h w' = ok_handler h w)"
proof -
  consider (switch) "is_cswitch c lib er" | (registry) "\<not> is_cswitch c lib er" "is_registry c lib er"
    | (raw) h where "\<not> is_cswitch c lib er" "\<not> is_registry c lib er"
        "rawHandler (route_of eh (lib_ProviderId lib er) (lib_EventId lib er)) = Some h"
    | (prepared) h where "\<not> is_cswitch c lib er" "\<not> is_registry c lib er"
        "rawHandler (route_of eh (lib_ProviderId lib er) (lib_EventId lib er)) = None"
        "preparedHandler (route_of eh (lib_ProviderId lib er) (lib_EventId lib er)) = Some h"
    | (unrouted) "\<not> is_cswitch c lib er" "\<not> is_registry c lib er"
        "rawHandler (route_of eh (lib_ProviderId lib er) (lib_EventId lib er)) = None"
        "preparedHandler (route_of eh (lib_ProviderId lib er) (lib_EventId lib er)) = None"
    by (metis option.exhaust)
  then show ?thesis
  proof cases
    case switch
    obtain w1 where w1: "run_handler lib boot choice er (H_Thread T_Switch) w = Some w1" "P w1"
      "\<forall>h. ok_handler h w1 = ok_handler h w" using run [OF fixed(1) P] by blast
    then obtain w2 where "run_handler lib boot choice er (H_Perf P_CSwitch) w1 = Some w2" "P w2"
      "\<forall>h. ok_handler h w2 = ok_handler h w1" using run [of "H_Perf P_CSwitch" w1] fixed(2) by auto
    then show ?thesis using switch w1 by (simp add: deliver_def EventRecordCallback_def)
  next
    case registry
    then show ?thesis using run [OF fixed(3) P] by (auto simp: deliver_def EventRecordCallback_def)
  next
    case raw
    then show ?thesis using run [OF routed(1) P] by (auto simp: deliver_def EventRecordCallback_def)
  next
    case prepared
    then show ?thesis using run [OF routed(2) P] by (auto simp: deliver_def EventRecordCallback_def RouteEvent_def Let_def)
  next
    case unrouted
    then show ?thesis using P by (auto simp: deliver_def EventRecordCallback_def RouteEvent_def Let_def)
  qed
qed

text \<open>A handler that needs a collector is only called when it is there.\<close>

fun ok_for :: "handler_name \<Rightarrow> world \<Rightarrow> bool" where
  "ok_for (H_Net m ev) w \<longleftrightarrow> W_net w \<noteq> None"
| "ok_for H_Memory w \<longleftrightarrow> W_mem w \<noteq> None"
| "ok_for _ w \<longleftrightarrow> True"

lemma ok_for_same: "same_collectors v w \<Longrightarrow> ok_for h v = ok_for h w"
  by (cases h) (auto simp: same_collectors_def)

lemma run_handler_partial:
  assumes "unat (lib_Processor lib er) < n" and "ok_for h w" and "partial_inv n w"
  shows "\<exists>w'. run_handler lib boot choice er h w = Some w' \<and> partial_inv n w' \<and> same_collectors w' w"
proof (cases "handler_action choice er h")
  case (Some a)
  have "cpu_in_range n lib a"
  proof (cases h)
    case (H_Thread ev)
    then show ?thesis using Some assms(1) by (cases ev) auto
  qed (use Some in auto)
  moreover have "has_collector a w" using Some assms(2) by (cases h) auto
  ultimately show ?thesis using act_partial [OF assms(3)] Some by (simp add: run_handler_def)
qed (use assms in \<open>simp add: run_handler_def\<close>)

definition app_eh :: "etw_consts \<Rightarrow> bool \<Rightarrow> event_handler" where
  "app_eh c watch = (if watch then RegisterWatcherRoutes (register (all_routes c) (empty_event_handler c))
     else register (all_routes c) (empty_event_handler c))"

lemma register_ok: "eh_ok (register (all_routes c) (empty_event_handler c))"
  unfolding register_fold by (rule routes.ok_fold) simp

lemma app_route_cases:
  assumes "route_of (app_eh c watch) g i = h" and "h \<noteq> no_handler"
  shows "h = prepared H_SessionStop \<or> ((g, i), h) \<in> entry_of ` set (all_routes c)"
  using assms register_lookup_in [of "all_routes c" c g i h] route_of_addRoute [OF register_ok]
  by (auto simp: app_eh_def RegisterWatcherRoutes_def AddRoute_def split: if_splits)

lemma collector_routes:
  "Raw g i (H_Net m ev) \<in> set (all_routes c) \<Longrightarrow> g \<in> {TcpIpKernelGuid c, UdpIpKernelGuid c, SystemIoProviderGuid c}"
  "Prepared g i (H_Net m ev) \<notin> set (all_routes c)"
  "Raw g i H_Memory \<in> set (all_routes c) \<Longrightarrow> g \<in> {PageFaultKernelGUID, SystemMemoryProviderGuid c}"
  "Prepared g i H_Memory \<notin> set (all_routes c)"
  by (auto simp: route_lists)

lemma entry_handler:
  "entry_of r = ((g, i), h) \<Longrightarrow> rawHandler h = Some x \<or> preparedHandler h = Some x \<Longrightarrow> r = Raw g i x \<or> r = Prepared g i x"
  by (cases r) (auto simp: raw_def prepared_def)

text \<open>The events of a provider that only an enabled collector subscribes to.\<close>

definition event_allowed :: "etw_consts \<Rightarrow> nat \<Rightarrow> 'e etw_lib \<Rightarrow> collector_config \<Rightarrow> 'e \<Rightarrow> bool" where
  "event_allowed c n lib cfg er \<longleftrightarrow> unat (lib_Processor lib er) < n
     \<and> (lib_ProviderId lib er \<in> {TcpIpKernelGuid c, UdpIpKernelGuid c, SystemIoProviderGuid c} \<longrightarrow> Net_Enabled (Cfg_Network cfg))
     \<and> (lib_ProviderId lib er \<in> {PageFaultKernelGUID, SystemMemoryProviderGuid c} \<longrightarrow> MemCfg_Enabled (Cfg_Memory cfg))"

lemma route_allowed:
  assumes "event_allowed c n lib cfg er" and "routeMap eh = routeMap (app_eh c watch)"
    and "W_net w = None \<longleftrightarrow> \<not> Net_Enabled (Cfg_Network cfg)" and "W_mem w = None \<longleftrightarrow> \<not> MemCfg_Enabled (Cfg_Memory cfg)"
    and "rawHandler (route_of eh (lib_ProviderId lib er) i) = Some x \<or> preparedHandler (route_of eh (lib_ProviderId lib er) i) = Some x"
  shows "ok_for x w"
proof -
  let ?g = "lib_ProviderId lib er" and ?h = "route_of eh (lib_ProviderId lib er) i"
  have r: "route_of (app_eh c watch) ?g i = ?h" using assms(2) by (simp add: route_of_def)
  have "?h \<noteq> no_handler" using assms(5) by (auto simp: no_handler_def)
  then consider "?h = prepared H_SessionStop" | "((?g, i), ?h) \<in> entry_of ` set (all_routes c)"
    using app_route_cases [OF r] by blast
  then show ?thesis
  proof cases
    case 1
    then show ?thesis using assms(5) by (auto simp: prepared_def)
  next
    case 2
    then obtain e where e: "e \<in> set (all_routes c)" "entry_of e = ((?g, i), ?h)" by auto
    then have "Raw ?g i x \<in> set (all_routes c) \<or> Prepared ?g i x \<in> set (all_routes c)"
      using entry_handler [OF e(2) assms(5)] by auto
    then show ?thesis using assms(1,3,4)
      by (cases x) (auto simp: event_allowed_def collector_routes(2,4) dest: collector_routes(1,3))
  qed
qed

section \<open>The exporter keeps running\<close>

definition app_inv :: "etw_consts \<Rightarrow> nat \<Rightarrow> exporter \<Rightarrow> bool" where
  "app_inv c n ex \<longleftrightarrow> partial_inv n (Ex_world ex)
     \<and> routeMap (Ex_eh ex) = routeMap (app_eh c (Watcher_Enabled (SessionWatcher (Ex_config ex))))
     \<and> (W_net (Ex_world ex) = None \<longleftrightarrow> \<not> Net_Enabled (Cfg_Network (Collectors (Ex_config ex))))
     \<and> (W_mem (Ex_world ex) = None \<longleftrightarrow> \<not> MemCfg_Enabled (Cfg_Memory (Collectors (Ex_config ex))))"

fun stimulus_ok :: "etw_consts \<Rightarrow> nat \<Rightarrow> 'e etw_lib \<Rightarrow> collector_config \<Rightarrow> 'e stimulus \<Rightarrow> bool" where
  "stimulus_ok c n lib cfg (Event er choice) \<longleftrightarrow> event_allowed c n lib cfg er"
| "stimulus_ok c n lib cfg _ \<longleftrightarrow> True"

lemma app_inv_world:
  "app_inv c n ex \<Longrightarrow> partial_inv n w \<Longrightarrow> same_collectors w (Ex_world ex) \<Longrightarrow> app_inv c n (ex\<lparr>Ex_world := w\<rparr>)"
  by (auto simp: app_inv_def same_collectors_def)

lemma app_inv_partial: "app_inv c n ex \<Longrightarrow> partial_inv n (Ex_world ex)"
  by (simp add: app_inv_def)

lemma app_route_ok:
  assumes "app_inv c n ex" and "event_allowed c n lib (Collectors (Ex_config ex)) er"
    and "rawHandler (route_of (Ex_eh ex) (lib_ProviderId lib er) i) = Some x
      \<or> preparedHandler (route_of (Ex_eh ex) (lib_ProviderId lib er) i) = Some x"
  shows "ok_for x (Ex_world ex)"
  using assms(1) unfolding app_inv_def by (intro route_allowed [OF assms(2) _ _ _ assms(3)]) blast+

lemma app_step_inv:
  assumes "app_inv c n ex" and "stimulus_ok c n lib (Collectors (Ex_config ex)) s"
  shows "\<exists>ex'. app_step c lib boot s ex = Some ex' \<and> app_inv c n ex' \<and> Ex_config ex' = Ex_config ex \<and> Ex_sm ex' = Ex_sm ex"
proof (cases s)
  case (Event er choice)
  let ?P = "\<lambda>w. partial_inv n w \<and> same_collectors w (Ex_world ex)"
  have cpu: "unat (lib_Processor lib er) < n" using assms(2) Event by (simp add: event_allowed_def)
  have "\<exists>eh' w'. deliver c lib boot choice er (Ex_eh ex, Ex_world ex) = Some (eh', w') \<and> ?P w'
      \<and> routeMap eh' = routeMap (Ex_eh ex) \<and> (\<forall>h. ok_for h w' = ok_for h (Ex_world ex))"
  proof (rule deliver_safe)
    fix h w assume h: "ok_for h w" and w: "?P w"
    obtain w' where w': "run_handler lib boot choice er h w = Some w'" "partial_inv n w'" "same_collectors w' w"
      using run_handler_partial [OF cpu h] w by blast
    then show "\<exists>w'. run_handler lib boot choice er h w = Some w' \<and> ?P w' \<and> (\<forall>h. ok_for h w' = ok_for h w)"
      using w same_collectors_trans ok_for_same by blast
  next
    fix h assume "rawHandler (route_of (Ex_eh ex) (lib_ProviderId lib er) (lib_EventId lib er)) = Some h"
    then show "ok_for h (Ex_world ex)" using app_route_ok [OF assms(1), of lib er "lib_EventId lib er" h] assms(2) Event by simp
  next
    fix h assume "preparedHandler (route_of (Ex_eh ex) (lib_ProviderId lib er) (lib_EventId lib er)) = Some h"
    then show "ok_for h (Ex_world ex)" using app_route_ok [OF assms(1), of lib er "lib_EventId lib er" h] assms(2) Event by simp
  qed (use assms(1) in \<open>simp_all add: app_inv_def\<close>)
  then obtain eh' w' where d: "deliver c lib boot choice er (Ex_eh ex, Ex_world ex) = Some (eh', w')"
    "partial_inv n w'" "same_collectors w' (Ex_world ex)" "routeMap eh' = routeMap (Ex_eh ex)" by blast
  then have "app_inv c n (ex\<lparr>Ex_eh := eh', Ex_world := w'\<rparr>)"
    using assms(1) by (auto simp: app_inv_def same_collectors_def)
  then show ?thesis using d(1) Event by simp
next
  case (Scrape snapshot query now)
  obtain w where "act lib boot (Scrape_Metrics snapshot query now) (Ex_world ex) = Some w" "partial_inv n w" "same_collectors w (Ex_world ex)"
    using act_partial [OF app_inv_partial [OF assms(1)], of lib "Scrape_Metrics snapshot query now" boot] by auto
  then show ?thesis using Scrape app_inv_world [OF assms(1)] by auto
next
  case (Tick now)
  obtain w where "act lib boot (Watchdog now) (Ex_world ex) = Some w" "partial_inv n w" "same_collectors w (Ex_world ex)"
    using act_partial [OF app_inv_partial [OF assms(1)], of lib "Watchdog now" boot] by auto
  then show ?thesis using Tick app_inv_world [OF assms(1)] by auto
qed

lemma app_run_inv:
  assumes "app_inv c n ex" and "list_all (stimulus_ok c n lib (Collectors (Ex_config ex))) ss"
  shows "\<exists>ex'. app_run c lib boot ss ex = Some ex' \<and> app_inv c n ex' \<and> Ex_config ex' = Ex_config ex \<and> Ex_sm ex' = Ex_sm ex"
  using assms
proof (induction ss arbitrary: ex)
  case (Cons s ss)
  then obtain ex1 where "app_step c lib boot s ex = Some ex1" "app_inv c n ex1" "Ex_config ex1 = Ex_config ex" "Ex_sm ex1 = Ex_sm ex"
    using app_step_inv [of c n ex lib s boot] by auto
  then show ?case using Cons.IH [of ex1] Cons.prems(2) by auto
qed simp

lemma ksm_inv_ApplyConfig: "ksm_inv k \<Longrightarrow> ksm_inv (sm_ApplyConfig compiles cols k)"
  by (simp add: sm_ApplyConfig_def PM_ApplyConfig_def Let_def ksm_inv_def proc_parts thread_inv_def ref_live_def
      start_key_def service_inv_def clock_inv_def)

lemma NewEventHandler_partial: "ksm_inv k \<Longrightarrow> partial_inv n (snd (NewEventHandler c n cols k))"
  using collector_ok_new [of n]
  by (simp add: partial_inv_def with_collectors_def NewEventHandler_def world_inv_def disk_state_ok_def net_state_ok_def
      reg_state_ok_def thread_state_ok_def NewNetworkCollector_def NewRegistryCollector_def NewThreadHandler_def
      split: option.split)

lemma setupETW_inv:
  assumes "setupETW c env n compiles cfg k = Inr ex" and "ksm_inv k"
  shows "app_inv c n ex \<and> Ex_config ex = with_process_manager c cfg"
proof -
  let ?cfg = "with_process_manager c cfg"
  let ?k = "sm_ApplyConfig compiles (Collectors ?cfg) k"
  obtain eh w where n: "NewEventHandler c n (Collectors ?cfg) ?k = (eh, w)" by force
  have ex: "Ex_world ex = w" "Ex_config ex = ?cfg"
    "Ex_eh ex = (if Watcher_Enabled (SessionWatcher ?cfg) then RegisterWatcherRoutes eh else eh)"
    using assms(1) n by (auto simp: setupETW_def Let_def split: prod.splits option.splits if_splits)
  have "partial_inv n w" using NewEventHandler_partial [of ?k n c "Collectors ?cfg"] ksm_inv_ApplyConfig [OF assms(2)] n by simp
  moreover have "eh = register (all_routes c) (empty_event_handler c)"
    "W_net w = None \<longleftrightarrow> \<not> Net_Enabled (Cfg_Network (Collectors ?cfg))"
    "W_mem w = None \<longleftrightarrow> \<not> MemCfg_Enabled (Cfg_Memory (Collectors ?cfg))"
    using n by (auto simp: NewEventHandler_def)
  ultimately show ?thesis by (simp add: app_inv_def ex app_eh_def)
qed

lemma stopped: "SM_running (snd (sm_Stop env sm)) = False"
  by (simp add: sm_Stop_def stopSessions_def calls_def Let_def)

lemma stimulus_ok_config:
  "stimulus_ok c n lib (Collectors (with_process_manager c cfg)) = stimulus_ok c n lib (Collectors cfg)"
proof
  fix s show "stimulus_ok c n lib (Collectors (with_process_manager c cfg)) s = stimulus_ok c n lib (Collectors cfg) s"
    by (cases s) (simp_all add: event_allowed_def with_process_manager_def)
qed

lemma app_Run_result:
  assumes "app_inv c n ex" and "list_all (stimulus_ok c n lib (Collectors (Ex_config ex))) steps"
  shows "\<exists>err cs ex'. app_Run c env lib boot steps trigger ex = Some (err, cs, ex') \<and>
    (err = None \<longrightarrow> cs = [CallSessionsStart, CallListen, CallServerShutdown, CallSessionsStop]
       \<and> app_inv c n ex' \<and> \<not> SM_running (Ex_sm ex') \<and> Ex_config ex' = Ex_config ex)"
proof -
  obtain e sm1 where s: "sm_Start c env (Ex_sm ex) = (e, sm1)" by force
  have i: "app_inv c n (ex\<lparr>Ex_sm := sm\<rparr>)" if "app_inv c n ex" for sm ex using that by (simp add: app_inv_def)
  obtain ex1 where r: "app_run c lib boot steps (ex\<lparr>Ex_sm := sm1\<rparr>) = Some ex1" "app_inv c n ex1" "Ex_config ex1 = Ex_config ex"
    using app_run_inv [OF i [OF assms(1), of sm1], where lib = lib and ss = steps and boot = boot] assms(2) by auto
  show ?thesis
    using s r i [OF r(2)] by (cases e) (simp_all add: app_Run_def shutdown_def stopped)
qed

lemma main_config_runs:
  "main_config configure_logging cenv fl = Some (Runs cfg) \<Longrightarrow> Validate cfg = Some None \<and> configure_logging (Logging cfg)"
  using NewConfig_cases [of cenv fl] by (auto simp: main_config_def split: option.splits prod.splits if_splits)

text \<open>A registration of distinct valid patterns only fails on one that is there already.\<close>

lemma mux_fold:
  "fold (\<lambda>p. mux_handle valid p (DebugEndpoint p)) ps None = None"
  "list_all valid ps \<Longrightarrow> distinct ps \<Longrightarrow> fold (\<lambda>p. mux_handle valid p (DebugEndpoint p)) ps (Some m) =
     (if set ps \<inter> set (map fst m) = {} then Some (m @ map (\<lambda>p. (p, DebugEndpoint p)) ps) else None)"
proof -
  show n: "fold (\<lambda>p. mux_handle valid p (DebugEndpoint p)) ps None = None" for ps
    by (induction ps) (simp_all add: mux_handle_def)
  show "list_all valid ps \<Longrightarrow> distinct ps \<Longrightarrow> fold (\<lambda>p. mux_handle valid p (DebugEndpoint p)) ps (Some m) =
     (if set ps \<inter> set (map fst m) = {} then Some (m @ map (\<lambda>p. (p, DebugEndpoint p)) ps) else None)"
    by (induction ps arbitrary: m) (auto simp: mux_handle_def n)
qed

definition http_patterns_ok :: "(string \<Rightarrow> bool) \<Rightarrow> string list \<Rightarrow> bool" where
  "http_patterns_ok valid debug_patterns \<longleftrightarrow>
     valid ''/'' \<and> list_all valid debug_patterns \<and> distinct debug_patterns \<and> ''/'' \<notin> set debug_patterns"

lemma setupHTTPServer_result:
  assumes "http_patterns_ok valid debug_patterns"
  shows "setupHTTPServer valid debug_patterns cfg =
    (if \<not> valid (MetricsPath cfg) \<or> MetricsPath cfg = ''/'' \<or> DebugEnabled cfg \<and> MetricsPath cfg \<in> set debug_patterns then None
     else Some ([(MetricsPath cfg, MetricsEndpoint), (''/'', IndexEndpoint)]
       @ (if DebugEnabled cfg then map (\<lambda>p. (p, DebugEndpoint p)) debug_patterns else [])))"
  using assms unfolding http_patterns_ok_def setupHTTPServer_def Let_def
  by (auto simp: mux_fold mux_handle_def)


definition no_flags :: flags where
  "no_flags = \<lparr>Flag_ListenAddress = None, Flag_MetricsPath = None, Flag_ConfigPath = None, Flag_GenerateConfig = None\<rparr>"

definition sample_log_lib :: log_lib where
  "sample_log_lib = \<lparr>TimeFormatUnix = ''u'', TimeFormatUnixMs = ''ms''\<rparr>"

definition sample_log_env :: log_env where
  "sample_log_env = \<lparr>log_mkdir_parent = (\<lambda>_. False), LoadLocation = (\<lambda>_. None)\<rparr>"

lemma default_accepted:
  "main_config (log_result sample_log_lib sample_log_env st) no_files no_flags = Some (Runs DefaultConfig)"
proof -
  have c: "apply_flags no_flags DefaultConfig = DefaultConfig"
    by (simp add: apply_flags_def no_flags_def flag_value_def)
  have "NewConfig no_files no_flags = Some (Some DefaultConfig, None)"
    by (simp add: NewConfig_def Let_def c default_valid) (simp add: no_flags_def flag_value_def)
  moreover have "log_result sample_log_lib sample_log_env st (Logging DefaultConfig)"
    by (simp add: log_result_def ConfigureLogging_eq createMultiWriter_def DefaultConfig_def default_outputs_def createWriter_def)
  ultimately show ?thesis by (simp add: main_config_def)
qed

definition sample_logging :: logging_state where
  "sample_logging = \<lparr>DefaultLogger = \<lparr>Lg_Level = InfoLevel, Lg_Caller = 0, Lg_TimeField = [], Lg_TimeFormat = [],
       Lg_TimeLocation = LocalTime, Lg_Writer = IOWriter Stderr, Lg_Context = []\<rparr>,
     mainSampler = None, Etw_Levels = Map.empty, Etw_Context = [], Etw_Writer = None\<rparr>"

lemma sample_setup: "\<exists>ex. setupETW sample_etw sample_session_env n compiles cfg k = Inr ex \<and> \<not> SM_running (Ex_sm ex)"
  by (simp add: setupETW_def Let_def IsSystemProviderSupported_def case_prod_unfold NewSessionManager_def initProviders_def calls_def)
    (simp add: sample_session_env_def)

lemma sample_enable_loop: "fst (enable_loop sample_session_env ps sm) = None"
  by (induction ps arbitrary: sm) (simp_all add: sample_session_env_def)

lemma sample_start: "SM_running sm = False \<Longrightarrow> fst (sm_Start c sample_session_env sm) = None"
  using sample_enable_loop
  by (simp add: sm_Start_def setupSessions_def Let_def IsSystemProviderSupported_def case_prod_unfold)
    (simp add: sample_session_env_def split: option.split)

definition default_mux :: http_mux where
  "default_mux = [(''/metrics'', MetricsEndpoint), (''/'', IndexEndpoint), (''/debug/state'', DebugEndpoint ''/debug/state'')]"



definition root_config :: app_config where
  "root_config = DefaultConfig\<lparr>Server := default_server\<lparr>MetricsPath := ''/''\<rparr>\<rparr>"

lemma root_accepted:
  "main_config (log_result sample_log_lib sample_log_env st) no_files (no_flags\<lparr>Flag_MetricsPath := Some ''/''\<rparr>) = Some (Runs root_config)"
proof -
  have c: "apply_flags (no_flags\<lparr>Flag_MetricsPath := Some ''/''\<rparr>) DefaultConfig = root_config"
    by (simp add: apply_flags_def no_flags_def flag_value_def root_config_def DefaultConfig_def default_server_def)
  have v: "Validate root_config = Some None"
    using default_valid by (simp add: Validate_def root_config_def DefaultConfig_def default_server_def split: option.splits if_splits)
  have "NewConfig no_files (no_flags\<lparr>Flag_MetricsPath := Some ''/''\<rparr>) = Some (Some root_config, None)"
    by (simp add: NewConfig_def Let_def c v) (simp add: no_flags_def flag_value_def)
  moreover have "log_result sample_log_lib sample_log_env st (Logging root_config)"
    by (simp add: log_result_def ConfigureLogging_eq createMultiWriter_def root_config_def DefaultConfig_def default_outputs_def createWriter_def)
  ultimately show ?thesis by (simp add: main_config_def)
qed


end
