(* ===== verification/Live_System.thy ===== *)
theory Live_System
  imports Application
begin

text \<open>
  The running exporter together with its session manager (\<open>etw_session.go\<close>, \<open>watcher/\<close>): events are
  delivered, scrapes and ticks happen, sessions are stopped from outside, the goroutines that
  restart them take their steps and the manager is stopped, in any order. A stop event that the
  router hands to the watcher and a trace that ends both lead to the same decision and from
  there to a new goroutine.

  \<open>live_refines\<close> shows that this system only takes steps of the relation \<open>rstep\<close> of
  \<open>Session_Manager\<close>, so what is proved there of restarts holds of the program.
\<close>

section \<open>From a stop to a goroutine\<close>

text \<open>What \<open>restartSession\<close> restarts for a GUID, if the exporter has such a session, and the
  goroutine it starts. One for a session that is not there ends at its first check.\<close>

definition session_name :: "etw_consts \<Rightarrow> session_env \<Rightarrow> session_manager \<Rightarrow> guid \<Rightarrow> string option" where
  "session_name c env sm g =
     (let isKernel = kernelSession sm \<noteq> None \<and> g = SystemTraceControlGuid c;
          isManifest = manifestSession sm \<noteq> None \<and> g = EtwExporterGuid
      in if \<not> isKernel \<and> \<not> isManifest then None
         else Some (if isKernel then env_kernel_name env else manifest_name))"

definition restart_goroutine :: "etw_consts \<Rightarrow> session_env \<Rightarrow> session_manager \<Rightarrow> guid option \<Rightarrow> goroutines" where
  "restart_goroutine c env sm g =
     (case Option.bind g (session_name c env sm) of None \<Rightarrow> [] | Some name \<Rightarrow> [(name, Begin)])"

text \<open>The handler of an event is the watcher's when no earlier stage takes the event.\<close>

definition reaches_watcher :: "etw_consts \<Rightarrow> 'e etw_lib \<Rightarrow> 'e \<Rightarrow> event_handler \<Rightarrow> bool" where
  "reaches_watcher c lib er eh \<longleftrightarrow> \<not> is_cswitch c lib er \<and> \<not> is_registry c lib er
     \<and> (case route_of eh (lib_ProviderId lib er) (lib_EventId lib er) of h \<Rightarrow>
          rawHandler h = None \<and> preparedHandler h = Some H_SessionStop)"

definition stop_decision :: "etw_consts \<Rightarrow> session_env \<Rightarrow> u32 \<Rightarrow> ('e \<Rightarrow> string \<Rightarrow> guid option) \<Rightarrow> 'e etw_lib \<Rightarrow>
    'e stimulus \<Rightarrow> exporter \<Rightarrow> guid option option" where
  "stop_decision c env ownPID prop_guid lib s ex =
     (case s of
        Event er choice \<Rightarrow>
          if reaches_watcher c lib er (Ex_eh ex)
          then map_option fst (watcher_HandleSessionStop c env ownPID prop_guid lib er (Some (Ex_sm ex)))
          else Some None
      | _ \<Rightarrow> Some None)"

section \<open>Stopping in two steps\<close>

text \<open>The goroutines see the flags of \<open>Stop\<close> before the consumer has stopped.\<close>

definition stop_begins :: "session_manager \<Rightarrow> session_manager" where
  "stop_begins sm = sm\<lparr>isStopping := True, SM_running := False\<rparr>"

definition stop_ends :: "session_env \<Rightarrow> session_manager \<Rightarrow> session_error option \<times> session_manager" where
  "stop_ends env sm =
     (let sm2 = (if SM_consumer sm \<noteq> None then calls [ConsumerStop] sm else sm)
      in if SM_consumer sm \<noteq> None \<and> \<not> env_consumer_stop env then (Some ConsumerStopFailed, sm2)
         else (None, calls [CancelContext] ((snd (stopSessions env sm2))\<lparr>SM_cancelled := True\<rparr>)))"

lemma sm_Stop_two_steps:
  "sm_Stop env sm = (if SM_running sm then stop_ends env (stop_begins sm) else (None, sm))"
  by (simp add: sm_Stop_def stop_ends_def stop_begins_def Let_def)

section \<open>The system\<close>

record live =
  L_ex :: exporter
  L_shared :: shared
  L_goroutines :: goroutines
  L_stop_pending :: bool

datatype 'e live_event =
    Stimulus "'e stimulus"
  | Trace_Stopped string
  | Goroutine nat bool
  | Stopped_Outside string
  | Stop_Begins
  | Stop_Ends

definition managed_names :: "session_env \<Rightarrow> session_manager \<Rightarrow> string set" where
  "managed_names env sm = (if kernelSession sm \<noteq> None then {env_kernel_name env} else {})
     \<union> (if manifestSession sm \<noteq> None then {manifest_name} else {})"

definition live_start :: "session_env \<Rightarrow> exporter \<Rightarrow> live" where
  "live_start env ex =
     (let sm = Ex_sm ex in
      \<lparr>L_ex = ex,
       L_shared = \<lparr>S_stopping = isStopping sm, S_running = SM_running sm, S_cancelled = SM_cancelled sm,
         S_up = (\<lambda>_. True), S_managed = (\<lambda>name. name \<in> managed_names env sm), restartingSessions = {}, S_restarts = []\<rparr>,
       L_goroutines = [], L_stop_pending = False\<rparr>)"

definition spawn :: "etw_consts \<Rightarrow> session_env \<Rightarrow> guid option \<Rightarrow> live \<Rightarrow> live" where
  "spawn c env g l = l\<lparr>L_goroutines := L_goroutines l @ restart_goroutine c env (Ex_sm (L_ex l)) g\<rparr>"

fun live_step :: "etw_consts \<Rightarrow> session_env \<Rightarrow> u32 \<Rightarrow> ('e \<Rightarrow> string \<Rightarrow> guid option) \<Rightarrow> 'e etw_lib \<Rightarrow> u64 \<Rightarrow>
    'e live_event \<Rightarrow> live \<Rightarrow> live option" where
  "live_step c env pid pg lib boot (Stimulus s) l =
     (case app_step c lib boot s (L_ex l) of
        None \<Rightarrow> None
      | Some ex \<Rightarrow> map_option (\<lambda>g. spawn c env g (l\<lparr>L_ex := ex\<rparr>)) (stop_decision c env pid pg lib s (L_ex l)))"
| "live_step c env pid pg lib boot (Trace_Stopped name) l =
     map_option (\<lambda>g. spawn c env g l) (on_stopped_trace c env name (Ex_sm (L_ex l)))"
| "live_step c env pid pg lib boot (Goroutine i b) l =
     (case sched_step (Go i b) (L_shared l, L_goroutines l) of (sh, gs) \<Rightarrow> Some (l\<lparr>L_shared := sh, L_goroutines := gs\<rparr>))"
| "live_step c env pid pg lib boot (Stopped_Outside name) l =
     Some (l\<lparr>L_shared := fst (sched_step (Session_Stops name) (L_shared l, L_goroutines l))\<rparr>)"
| "live_step c env pid pg lib boot Stop_Begins l =
     Some (if SM_running (Ex_sm (L_ex l))
           then l\<lparr>L_ex := (L_ex l)\<lparr>Ex_sm := stop_begins (Ex_sm (L_ex l))\<rparr>,
                  L_shared := (L_shared l)\<lparr>S_stopping := True, S_running := False\<rparr>, L_stop_pending := True\<rparr>
           else l)"
| "live_step c env pid pg lib boot Stop_Ends l =
     Some (if L_stop_pending l
           then let sm = snd (stop_ends env (Ex_sm (L_ex l)))
                in l\<lparr>L_ex := (L_ex l)\<lparr>Ex_sm := sm\<rparr>, L_shared := (L_shared l)\<lparr>S_cancelled := SM_cancelled sm\<rparr>,
                     L_stop_pending := False\<rparr>
           else l)"

fun live_run :: "etw_consts \<Rightarrow> session_env \<Rightarrow> u32 \<Rightarrow> ('e \<Rightarrow> string \<Rightarrow> guid option) \<Rightarrow> 'e etw_lib \<Rightarrow> u64 \<Rightarrow>
    'e live_event list \<Rightarrow> live \<Rightarrow> live option" where
  "live_run c env pid pg lib boot [] l = Some l"
| "live_run c env pid pg lib boot (e # es) l =
     (case live_step c env pid pg lib boot e l of None \<Rightarrow> None | Some l' \<Rightarrow> live_run c env pid pg lib boot es l')"

section \<open>Every step is one of the restart relation\<close>

definition restart_allowed :: "session_env \<Rightarrow> session_manager \<Rightarrow> string \<Rightarrow> bool" where
  "restart_allowed env sm name \<longleftrightarrow>
     name = env_kernel_name env \<and> kernelSession sm \<noteq> None
       \<and> RestartKernelSession (SessionWatcher (SM_config sm)) \<in> {''forced'', ''enabled''}
     \<or> name = manifest_name \<and> manifestSession sm \<noteq> None \<and> RestartExporterSession (SessionWatcher (SM_config sm))"

text \<open>Asking whether the kernel session is in use has an answer where the code asks.\<close>

definition in_use_answers :: "session_env \<Rightarrow> session_manager \<Rightarrow> bool" where
  "in_use_answers env sm \<longleftrightarrow>
     (RestartKernelSession (SessionWatcher (SM_config sm)) = ''enabled'' \<longrightarrow> env_in_use env (kernelSession sm) \<noteq> None)"

definition same_sessions :: "session_manager \<Rightarrow> session_manager \<Rightarrow> bool" where
  "same_sessions sm sm' \<longleftrightarrow> SM_config sm' = SM_config sm \<and> kernelSession sm' = kernelSession sm
     \<and> manifestSession sm' = manifestSession sm"

lemma same_sessions_refl [simp]: "same_sessions sm sm"
  by (simp add: same_sessions_def)

lemma same_sessions_trans: "same_sessions a b \<Longrightarrow> same_sessions b d \<Longrightarrow> same_sessions a d"
  by (simp add: same_sessions_def)

lemma stop_sessions_same:
  "same_sessions sm (stop_begins sm)" "same_sessions sm (snd (stop_ends env sm))"
  "isStopping (snd (stop_ends env sm)) = isStopping sm" "SM_running (snd (stop_ends env sm)) = SM_running sm"
  "isStopping (stop_begins sm)" "\<not> SM_running (stop_begins sm)" "SM_cancelled (stop_begins sm) = SM_cancelled sm"
  "SM_cancelled sm \<Longrightarrow> SM_cancelled (snd (stop_ends env sm))"
  by (simp_all add: same_sessions_def stop_begins_def stop_ends_def stopSessions_def calls_def Let_def)

lemma HandleSessionStop_answers:
  "in_use_answers env sm \<Longrightarrow> \<exists>g. HandleSessionStop c env gs sm = Some g"
  by (auto simp: HandleSessionStop_def in_use_answers_def Let_def)

lemma HandleSessionStop_allowed:
  assumes "HandleSessionStop c env gs sm = Some g" and "SystemTraceControlGuid c \<noteq> EtwExporterGuid"
  shows "\<forall>(name, p) \<in> set (restart_goroutine c env sm g). restart_allowed env sm name \<and> p = Begin"
  using assms
  by (auto simp: HandleSessionStop_def restart_goroutine_def session_name_def restart_allowed_def Let_def
      split: if_splits option.splits)

lemma no_goroutine [simp]: "restart_goroutine c env sm None = []"
  by (simp add: restart_goroutine_def)

text \<open>Both ways to a decision.\<close>

lemma stop_decision_handled:
  assumes "stop_decision c env pid pg lib s ex = Some g"
  shows "g = None \<or> (\<exists>er choice gs. s = Event er choice \<and> lib_ProcessId lib er \<noteq> pid \<and> pg er ''SessionGuid'' = Some gs
      \<and> HandleSessionStop c env gs (Ex_sm ex) = Some g)"
  using assms
  by (auto simp: stop_decision_def watcher_HandleSessionStop_def split: stimulus.splits if_splits option.splits)

lemma stop_decision_answers:
  "in_use_answers env (Ex_sm ex) \<Longrightarrow> \<exists>g. stop_decision c env pid pg lib s ex = Some g"
  using HandleSessionStop_answers [of env "Ex_sm ex" c]
  by (auto simp: stop_decision_def watcher_HandleSessionStop_def split: stimulus.split option.split)

lemma on_stopped_trace_handled:
  assumes "on_stopped_trace c env name sm = Some g"
  shows "g = None \<or> (\<exists>gs. HandleSessionStop c env gs sm = Some g)"
  using assms by (auto simp: on_stopped_trace_def split: if_splits)

lemma on_stopped_trace_answers: "in_use_answers env sm \<Longrightarrow> \<exists>g. on_stopped_trace c env name sm = Some g"
  using HandleSessionStop_answers [of env sm c] by (auto simp: on_stopped_trace_def)

lemma spawn_rstep: "rstep\<^sup>*\<^sup>* (sh, gs) (sh, gs @ restart_goroutine c env sm g)"
  by (auto simp: restart_goroutine_def split: option.split intro!: r_into_rtranclp rstep.stop_event)

text \<open>The session manager as the goroutines see it.\<close>

definition flags_agree :: "live \<Rightarrow> bool" where
  "flags_agree l \<longleftrightarrow> (let sm = Ex_sm (L_ex l); sh = L_shared l in
     S_stopping sh = isStopping sm \<and> S_running sh = SM_running sm \<and> S_cancelled sh = SM_cancelled sm
     \<and> (L_stop_pending l \<longrightarrow> isStopping sm))"

lemma g_step_flags:
  "g_step b name p sh = (p', sh') \<Longrightarrow>
   S_stopping sh' = S_stopping sh \<and> S_running sh' = S_running sh \<and> S_cancelled sh' = S_cancelled sh \<and> S_managed sh' = S_managed sh"
  by (cases p) (auto simp: unlock_def split: if_splits)

lemma go_flags:
  "sched_step (Go i b) (sh, gs) = (sh', gs') \<Longrightarrow>
   S_stopping sh' = S_stopping sh \<and> S_running sh' = S_running sh \<and> S_cancelled sh' = S_cancelled sh \<and> map fst gs' = map fst gs"
  by (auto simp: map_update dest: g_step_flags split: if_splits prod.splits) (metis fst_conv list_update_id nth_map)

lemma app_step_sm:
  "app_step c lib boot s ex = Some ex' \<Longrightarrow> Ex_sm ex' = Ex_sm ex"
  by (cases s) auto

lemma live_refines:
  assumes "live_step c env pid pg lib boot e l = Some l'" and "flags_agree l"
  shows "rstep\<^sup>*\<^sup>* (L_shared l, L_goroutines l) (L_shared l', L_goroutines l') \<and> flags_agree l'
    \<and> same_sessions (Ex_sm (L_ex l)) (Ex_sm (L_ex l'))"
proof (cases e)
  case (Stimulus s)
  then obtain ex g where "app_step c lib boot s (L_ex l) = Some ex" "l' = spawn c env g (l\<lparr>L_ex := ex\<rparr>)"
    using assms(1) by (auto split: option.splits)
  then show ?thesis using assms(2) spawn_rstep app_step_sm [of c lib boot s "L_ex l" ex]
    by (simp add: spawn_def flags_agree_def)
next
  case (Trace_Stopped name)
  then show ?thesis using assms spawn_rstep by (auto simp: spawn_def flags_agree_def)
next
  case (Goroutine i b)
  obtain sh gs where s: "sched_step (Go i b) (L_shared l, L_goroutines l) = (sh, gs)" by force
  then have "l' = l\<lparr>L_shared := sh, L_goroutines := gs\<rparr>" using assms(1) Goroutine by (simp only: live_step.simps) simp
  then show ?thesis
    using sched_step_rstep [of "(L_shared l, L_goroutines l)" "Go i b"] s go_flags [OF s] assms(2)
    by (simp add: flags_agree_def Let_def)
next
  case (Stopped_Outside name)
  then show ?thesis using assms by (auto simp: flags_agree_def Let_def intro!: r_into_rtranclp rstep.session_stops)
next
  case Stop_Begins
  show ?thesis
  proof (cases "SM_running (Ex_sm (L_ex l))")
    case True
    then show ?thesis using assms Stop_Begins stop_sessions_same(1,5,6,7) [of "Ex_sm (L_ex l)"]
      by (auto simp: flags_agree_def Let_def intro!: r_into_rtranclp rstep.shutdown_begins)
  qed (use assms Stop_Begins in simp)
next
  case Stop_Ends
  let ?sm = "Ex_sm (L_ex l)"
  note same = stop_sessions_same(2-4,8) [where sm = ?sm and env = env]
  show ?thesis
  proof (cases "L_stop_pending l")
    case True
    have st: "S_stopping (L_shared l)" using True assms(2) by (simp add: flags_agree_def Let_def)
    have "rstep\<^sup>*\<^sup>* (L_shared l, L_goroutines l) ((L_shared l)\<lparr>S_cancelled := SM_cancelled (snd (stop_ends env ?sm))\<rparr>, L_goroutines l)"
    proof (cases "SM_cancelled (snd (stop_ends env ?sm))")
      case False
      then have "(L_shared l)\<lparr>S_cancelled := False\<rparr> = L_shared l"
        using same(4) assms(2) by (auto simp: flags_agree_def Let_def)
      then show ?thesis using False by simp
    next
      case c: True
      show ?thesis using rstep.shutdown_cancels [OF st, of "L_goroutines l"] c by auto
    qed
    then show ?thesis using assms Stop_Ends True same by (auto simp: flags_agree_def Let_def)
  qed (use assms Stop_Ends in simp)
qed

section \<open>The stop event\<close>

text \<open>The watcher gets the stop events of the kernel's tracing provider when it is enabled, and
  nothing else.\<close>

lemma session_stop_route:
  assumes "app_inv c n ex" and "reaches_watcher c lib er (Ex_eh ex)"
  shows "Watcher_Enabled (SessionWatcher (Ex_config ex)) \<and> lib_ProviderId lib er = MicrosoftWindowsKernelEventTracingGUID
    \<and> lib_EventId lib er = 11"
proof -
  let ?watch = "Watcher_Enabled (SessionWatcher (Ex_config ex))" and ?g = "lib_ProviderId lib er" and ?i = "lib_EventId lib er"
  obtain h where h: "route_of (app_eh c ?watch) ?g ?i = h" "preparedHandler h = Some H_SessionStop"
    using assms by (auto simp: reaches_watcher_def app_inv_def route_of_def)
  have no: "((?g, ?i), h) \<notin> entry_of ` set (all_routes c)"
  proof
    assume "((?g, ?i), h) \<in> entry_of ` set (all_routes c)"
    then obtain r where r: "r \<in> set (all_routes c)" "entry_of r = ((?g, ?i), h)" by auto
    then show False using entry_handler [OF r(2)] h(2) by (auto simp: route_lists)
  qed
  have "h \<noteq> no_handler" using h(2) by (auto simp: no_handler_def)
  then have "route_of (register (all_routes c) (empty_event_handler c)) ?g ?i \<noteq> h"
    using register_lookup_in [of "all_routes c" c ?g ?i h] no by auto
  then show ?thesis using h(1) route_of_addRoute [OF register_ok]
    by (auto simp: app_eh_def RegisterWatcherRoutes_def AddRoute_def split: if_splits)
qed

text \<open>Without a stop from outside there is nothing to restart: an event starts a goroutine only when
  the watcher is enabled and another process stopped a session.\<close>

lemma own_stops_start_nothing:
  assumes "app_inv c n (L_ex l)" and "live_step c env pid pg lib boot (Stimulus (Event er choice)) l = Some l'"
    and "lib_ProcessId lib er = pid \<or> lib_ProviderId lib er \<noteq> MicrosoftWindowsKernelEventTracingGUID \<or> lib_EventId lib er \<noteq> 11
      \<or> \<not> Watcher_Enabled (SessionWatcher (Ex_config (L_ex l)))"
  shows "L_goroutines l' = L_goroutines l"
proof -
  obtain ex g where r: "stop_decision c env pid pg lib (Event er choice) (L_ex l) = Some g" "l' = spawn c env g (l\<lparr>L_ex := ex\<rparr>)"
    using assms(2) by (auto split: option.splits)
  have "g = None"
    using r(1) assms(3) session_stop_route [OF assms(1), of lib er]
    by (auto simp: stop_decision_def watcher_HandleSessionStop_def split: if_splits)
  then show ?thesis using r(2) by (simp add: spawn_def)
qed

section \<open>The system keeps running\<close>

fun live_event_ok :: "etw_consts \<Rightarrow> nat \<Rightarrow> 'e etw_lib \<Rightarrow> collector_config \<Rightarrow> 'e live_event \<Rightarrow> bool" where
  "live_event_ok c n lib cfg (Stimulus s) \<longleftrightarrow> stimulus_ok c n lib cfg s"
| "live_event_ok c n lib cfg _ \<longleftrightarrow> True"

definition live_inv :: "etw_consts \<Rightarrow> nat \<Rightarrow> session_env \<Rightarrow> app_config \<Rightarrow> session_manager \<Rightarrow> live \<Rightarrow> bool" where
  "live_inv c n env cfg sm l \<longleftrightarrow> app_inv c n (L_ex l) \<and> Ex_config (L_ex l) = cfg \<and> same_sessions sm (Ex_sm (L_ex l))
     \<and> flags_agree l \<and> restart_inv (L_shared l, L_goroutines l)
     \<and> (\<forall>(name, p) \<in> set (L_goroutines l). restart_allowed env sm name)
     \<and> set (S_restarts (L_shared l)) \<subseteq> fst ` set (L_goroutines l)"

lemma g_step_restarts:
  "g_step b name p sh = (p', sh') \<Longrightarrow> set (S_restarts sh') \<subseteq> insert name (set (S_restarts sh))"
  by (cases p) (auto simp: unlock_def split: if_splits)

lemma go_restarts:
  assumes "sched_step (Go i b) (sh, gs) = (sh', gs')" and "set (S_restarts sh) \<subseteq> fst ` set gs"
  shows "set (S_restarts sh') \<subseteq> fst ` set gs' \<and> fst ` set gs' = fst ` set gs"
proof -
  have names: "fst ` set gs' = fst ` set gs" using go_flags [OF assms(1)] by (metis set_map)
  show ?thesis
  proof (cases "i < length gs")
    case True
    obtain name p where p: "gs ! i = (name, p)" by force
    obtain p' where g: "g_step b name p sh = (p', sh')" using assms(1) True p by (auto split: prod.splits)
    have "name \<in> fst ` set gs" using True p by (metis fst_conv image_eqI nth_mem)
    then show ?thesis using g_step_restarts [OF g] assms(2) names by blast
  qed (use assms in simp)
qed

lemma same_sessions_cong:
  "same_sessions sm sm' \<Longrightarrow> restart_allowed env sm' = restart_allowed env sm \<and> in_use_answers env sm' = in_use_answers env sm"
  by (auto simp: same_sessions_def restart_allowed_def in_use_answers_def fun_eq_iff)

text \<open>What a step does to the goroutines: new ones are allowed, and restarts are those of goroutines.\<close>

lemma live_step_goroutines:
  assumes "live_step c env pid pg lib boot e l = Some l'" and "SystemTraceControlGuid c \<noteq> EtwExporterGuid"
    and "set (S_restarts (L_shared l)) \<subseteq> fst ` set (L_goroutines l)"
  shows "set (S_restarts (L_shared l')) \<subseteq> fst ` set (L_goroutines l')
    \<and> fst ` set (L_goroutines l') \<subseteq> fst ` set (L_goroutines l) \<union> {name. restart_allowed env (Ex_sm (L_ex l)) name}"
proof -
  have add: "set (S_restarts (L_shared (spawn c env g k))) \<subseteq> fst ` set (L_goroutines (spawn c env g k))
      \<and> fst ` set (L_goroutines (spawn c env g k)) \<subseteq> fst ` set (L_goroutines l) \<union> {name. restart_allowed env (Ex_sm (L_ex l)) name}"
    if "g = None \<or> (\<exists>gs. HandleSessionStop c env gs (Ex_sm (L_ex l)) = Some g)"
      "L_shared k = L_shared l" "L_goroutines k = L_goroutines l" "Ex_sm (L_ex k) = Ex_sm (L_ex l)" for g k
  proof -
    have "\<forall>(name, p) \<in> set (restart_goroutine c env (Ex_sm (L_ex l)) g). restart_allowed env (Ex_sm (L_ex l)) name \<and> p = Begin"
      using that(1) HandleSessionStop_allowed [OF _ assms(2)] by (elim disjE exE) simp_all
    then show ?thesis using that(2-4) assms(3) by (auto simp: spawn_def)
  qed
  show ?thesis
  proof (cases e)
    case (Stimulus s)
    then obtain ex g where s: "app_step c lib boot s (L_ex l) = Some ex" "stop_decision c env pid pg lib s (L_ex l) = Some g"
      "l' = spawn c env g (l\<lparr>L_ex := ex\<rparr>)" using assms(1) by (auto split: option.splits)
    have "g = None \<or> (\<exists>gs. HandleSessionStop c env gs (Ex_sm (L_ex l)) = Some g)"
      using stop_decision_handled [OF s(2)] by blast
    then show ?thesis unfolding s(3) by (rule add) (simp_all add: app_step_sm [OF s(1)])
  next
    case (Trace_Stopped name)
    then obtain g where s: "on_stopped_trace c env name (Ex_sm (L_ex l)) = Some g" "l' = spawn c env g l"
      using assms(1) by auto
    show ?thesis unfolding s(2) by (rule add [OF on_stopped_trace_handled [OF s(1)]]) simp_all
  next
    case (Goroutine i b)
    obtain sh gs where s: "sched_step (Go i b) (L_shared l, L_goroutines l) = (sh, gs)" by force
    then have "l' = l\<lparr>L_shared := sh, L_goroutines := gs\<rparr>" using assms(1) Goroutine by (simp only: live_step.simps) simp
    then show ?thesis using go_restarts [OF s assms(3)] by auto
  qed (use assms(1,3) in \<open>auto simp: Let_def split: if_splits\<close>)
qed

lemma live_step_inv:
  assumes "live_inv c n env cfg sm l" and "live_event_ok c n lib (Collectors cfg) e"
    and "in_use_answers env sm" and "SystemTraceControlGuid c \<noteq> EtwExporterGuid"
  shows "\<exists>l'. live_step c env pid pg lib boot e l = Some l' \<and> live_inv c n env cfg sm l'"
proof -
  let ?ex = "L_ex l"
  have inv: "app_inv c n ?ex" "Ex_config ?ex = cfg" "same_sessions sm (Ex_sm ?ex)" "flags_agree l"
    "restart_inv (L_shared l, L_goroutines l)" "set (S_restarts (L_shared l)) \<subseteq> fst ` set (L_goroutines l)"
    and allowed: "\<forall>(name, p) \<in> set (L_goroutines l). restart_allowed env sm name"
    using assms(1) by (simp_all add: live_inv_def)
  have q: "in_use_answers env (Ex_sm ?ex)" using same_sessions_cong [OF inv(3)] assms(3) by simp
  have upd: "app_inv c n (ex\<lparr>Ex_sm := x\<rparr>) = app_inv c n ex" for ex x by (simp add: app_inv_def)
  have "\<exists>l'. live_step c env pid pg lib boot e l = Some l' \<and> app_inv c n (L_ex l') \<and> Ex_config (L_ex l') = cfg"
  proof (cases e)
    case (Stimulus s)
    obtain ex where "app_step c lib boot s ?ex = Some ex" "app_inv c n ex" "Ex_config ex = cfg"
      using app_step_inv [OF inv(1), of lib s boot] assms(2) Stimulus inv(2) by auto
    moreover obtain g where "stop_decision c env pid pg lib s ?ex = Some g" using stop_decision_answers [OF q] by blast
    ultimately show ?thesis using Stimulus by (simp add: spawn_def)
  next
    case (Trace_Stopped name)
    obtain g where "on_stopped_trace c env name (Ex_sm ?ex) = Some g" using on_stopped_trace_answers [OF q] by blast
    then show ?thesis using Trace_Stopped inv by (simp add: spawn_def)
  qed (use inv in \<open>auto simp: Let_def upd split: prod.split\<close>)
  then obtain l' where l': "live_step c env pid pg lib boot e l = Some l'" "app_inv c n (L_ex l')" "Ex_config (L_ex l') = cfg"
    by blast
  note r = live_refines [OF l'(1) inv(4)]
  have sm: "same_sessions sm (Ex_sm (L_ex l'))" using same_sessions_trans [OF inv(3)] r by blast
  have g: "set (S_restarts (L_shared l')) \<subseteq> fst ` set (L_goroutines l')"
    "fst ` set (L_goroutines l') \<subseteq> fst ` set (L_goroutines l) \<union> {name. restart_allowed env sm name}"
    using live_step_goroutines [OF l'(1) assms(4) inv(6)] same_sessions_cong [OF inv(3)] by simp_all
  have "\<forall>(name, p) \<in> set (L_goroutines l'). restart_allowed env sm name" using g(2) allowed by fastforce
  then show ?thesis using l' sm g(1) r restart_inv_reach [OF _ inv(5)] by (auto simp: live_inv_def)
qed

lemma live_run_inv:
  assumes "live_inv c n env cfg sm l" and "list_all (live_event_ok c n lib (Collectors cfg)) es"
    and "in_use_answers env sm" and "SystemTraceControlGuid c \<noteq> EtwExporterGuid"
  shows "\<exists>l'. live_run c env pid pg lib boot es l = Some l' \<and> live_inv c n env cfg sm l'"
  using assms(1,2)
proof (induction es arbitrary: l)
  case (Cons e es)
  then obtain l1 where "live_step c env pid pg lib boot e l = Some l1" "live_inv c n env cfg sm l1"
    using live_step_inv [OF Cons.prems(1) _ assms(3,4), of lib e pid pg boot] by auto
  then show ?case using Cons.IH [of l1] Cons.prems(2) by auto
qed simp

section \<open>From the start of the program\<close>

lemma enable_loop_frame:
  "enable_loop env ps sm = (e, sm') \<Longrightarrow> SM_config sm' = SM_config sm \<and> kernelSession sm' = kernelSession sm
   \<and> (manifestSession sm' = None \<longleftrightarrow> manifestSession sm = None) \<and> isStopping sm' = isStopping sm \<and> SM_cancelled sm' = SM_cancelled sm"
proof (induction ps arbitrary: sm)
  case (Cons p ps)
  show ?case
  proof (cases "env_enable env p")
    case True
    with Cons.prems have "enable_loop env ps (calls [EnableProvider p, GetRundownEvents (Prov_GUID p)]
        (sm\<lparr>manifestSession := map_option (\<lambda>m. m\<lparr>MS_providers := MS_providers m @ [p]\<rparr>) (manifestSession sm)\<rparr>)) = (e, sm')" by simp
    from Cons.IH [OF this] show ?thesis by (simp add: calls_def)
  qed (use Cons.prems in \<open>auto simp: calls_def\<close>)
qed simp

lemma sm_Start_config: "sm_Start c env sm = (e, sm') \<Longrightarrow> SM_config sm' = SM_config sm"
  by (auto simp: sm_Start_def setupSessions_def setup_kernel_def calls_def Let_def dest: enable_loop_frame
      split: if_splits prod.splits option.splits)

lemma setupETW_config:
  "setupETW c env n compiles cfg k = Inr ex \<Longrightarrow> SM_config (Ex_sm ex) = with_process_manager c cfg"
  by (auto simp: setupETW_def NewSessionManager_def initProviders_def CaptureNtSystemConfigEvents_def calls_def Let_def
      split: if_splits prod.splits option.splits)

lemma live_start_inv:
  "app_inv c n ex \<Longrightarrow> live_inv c n env (Ex_config ex) (Ex_sm ex) (live_start env ex)"
  by (simp add: live_inv_def live_start_def flags_agree_def restart_inv_def workers_def Let_def)


definition sample_restart :: "'e live_event list" where
  "sample_restart = [Trace_Stopped ''etw_exporter'', Goroutine 0 False, Goroutine 0 False, Goroutine 0 True, Stop_Begins, Stop_Ends]"

lemma sample_restart_runs:
  assumes "SM_running sm" and "\<not> isStopping sm" and "kernelSession sm = None" and "manifestSession sm \<noteq> None"
    and "RestartExporterSession (SessionWatcher (SM_config sm))" and "SystemTraceControlGuid c \<noteq> EtwExporterGuid"
  shows "\<exists>l. live_run c env pid pg lib boot sample_restart (live_start env (ex\<lparr>Ex_sm := sm\<rparr>)) = Some l
    \<and> S_restarts (L_shared l) = [''etw_exporter''] \<and> restartingSessions (L_shared l) = {}"
  using assms
  by (simp add: sample_restart_def live_start_def on_stopped_trace_def HandleSessionStop_def spawn_def restart_goroutine_def
      session_name_def managed_names_def manifest_name_def unlock_def Let_def)

lemma sample_sessions:
  assumes "setupETW c sample_session_env n compiles DefaultConfig k = Inr ex"
    and "sm_Start c sample_session_env (Ex_sm ex) = (None, sm)"
  shows "SM_running sm \<and> \<not> isStopping sm \<and> kernelSession sm = None \<and> manifestSession sm \<noteq> None
    \<and> RestartExporterSession (SessionWatcher (SM_config sm))"
proof -
  have w: "IsSystemProviderSupported sample_session_env" by (simp add: IsSystemProviderSupported_def sample_session_env_def)
  have ex: "Ex_sm ex = NewSessionManager c (with_process_manager c DefaultConfig)"
    using assms(1) w by (auto simp: setupETW_def Let_def split: prod.splits)
  have new: "kernelSession (Ex_sm ex) = None" "SM_config (Ex_sm ex) = with_process_manager c DefaultConfig"
    by (simp_all add: ex NewSessionManager_def initProviders_def calls_def Let_def)
  have watch: "SessionWatcher (with_process_manager c DefaultConfig) =
      \<lparr>Watcher_Enabled = True, RestartKernelSession = ''forced'', RestartExporterSession = True\<rparr>"
    by (simp add: with_process_manager_def DefaultConfig_def)
  have p: "manifest_providers c (SM_config (Ex_sm ex)) \<noteq> []" by (simp add: manifest_providers_def new watch)
  let ?sm = "(Ex_sm ex)\<lparr>manifestSession := Some \<lparr>MS_system = True, MS_providers = []\<rparr>\<rparr>"
  obtain e sm2 where l: "enable_loop sample_session_env (manifest_providers c (SM_config (Ex_sm ex))) ?sm = (e, sm2)" by force
  note f = enable_loop_frame [OF l]
  show ?thesis
    using assms(2) w p l f new watch
    by (auto simp: sm_Start_def setupSessions_def calls_def Let_def split: if_splits option.splits)
qed


end
