(* ===== verification/End_To_End.thy ===== *)
theory End_To_End
  imports Application
begin

text \<open>
  From an event to the page that Prometheus reads: the router hands a disk transfer to the disk
  handler, which charges it to a process object; the next scrape sums the objects of each
  program and the disk collector sends the sums. The lemmas of the parts are joined here to
  one statement about the program: the bytes of a transfer are on the next page, under the
  labels of the process that issued it.
\<close>

section \<open>What a scrape changes in the processes\<close>

text \<open>Before it sums, a scrape looks up names of services. The counters and what else identifies a
  program stay.\<close>

definition same_counters :: "process_data \<Rightarrow> process_data \<Rightarrow> bool" where
  "same_counters p q \<longleftrightarrow> q = p\<lparr>Info := Info q\<rparr> \<and> Name (Info q) = Name (Info p)
     \<and> UniqueHash (Info q) = UniqueHash (Info p) \<and> SessionID (Info q) = SessionID (Info p)"

lemma same_counters_refl [simp]: "same_counters p p"
  by (simp add: same_counters_def)

lemma same_counters_trans: "same_counters p q \<Longrightarrow> same_counters q r \<Longrightarrow> same_counters p r"
  unfolding same_counters_def by (metis process_data.update_convs(1) process_data.surjective)

lemma same_counters_key:
  "same_counters p q \<Longrightarrow> Key_Name (program_key (Info q)) = Name (Info p)
   \<and> Key_UniqueHash (program_key (Info q)) = UniqueHash (Info p) \<and> Key_SessionID (program_key (Info q)) = SessionID (Info p)"
  by (simp add: same_counters_def program_key_def)

lemma resolve_tag_same: "same_counters (heap s q) (heap (snd (resolve_tag query r (as, s))) q)"
proof (cases "q = r")
  case True
  have "Name (Info (heap (snd (resolve_tag query r (as, s))) r)) = Name (Info (heap s r))
    \<and> UniqueHash (Info (heap (snd (resolve_tag query r (as, s))) r)) = UniqueHash (Info (heap s r))
    \<and> SessionID (Info (heap (snd (resolve_tag query r (as, s))) r)) = SessionID (Info (heap s r))"
    using resolve_tag_Info [of query r as s] by auto
  then show ?thesis unfolding True same_counters_def using resolve_tag_heap [of query r as s r] by simp
qed (simp add: resolve_tag_heap)

lemma apply_service_same: "same_counters (heap s q) (heap (resolveAndApplyServiceName r tag s) q)"
  by (simp add: same_counters_def resolveAndApplyServiceName_def upd_info_def upd_obj_def apply_service_tag_def Let_def
      split: option.split)

lemma apply_services_same: "apply_services_loop xs s = Some t \<Longrightarrow> same_counters (heap s q) (heap t q)"
proof (induction xs s rule: apply_services_loop.induct)
  case (2 pid name xs s)
  obtain tag found where g: "GetTagForService name s = (tag, found)" by force
  show ?case
  proof (cases "\<exists>r. found \<and> GetCurrentProcessDataByPID pid s = Some (Some r)")
    case True
    then obtain r where r: "found" "GetCurrentProcessDataByPID pid s = Some (Some r)" by blast
    then have "same_counters (heap (resolveAndApplyServiceName r tag s) q) (heap t q)"
      using 2 g by simp
    then show ?thesis by (rule same_counters_trans [OF apply_service_same])
  next
    case False
    then show ?thesis using 2 g by (auto split: bool.splits option.splits if_splits)
  qed
qed simp

lemma aggregate_steps_same:
  "fold (aggregate_step query) rs ((as, s), agg) = ((as', s'), agg') \<Longrightarrow> same_counters (heap s q) (heap s' q)"
proof (induction rs arbitrary: as s agg)
  case (Cons r rs)
  obtain as1 s1 where r: "resolve_tag query r (as, s) = (as1, s1)" by force
  then have "same_counters (heap s q) (heap s1 q)" using resolve_tag_same [of s q query r as] by simp
  then show ?case using Cons r by (auto simp: aggregate_step_eq intro: same_counters_trans)
qed simp

lemma AggregateMetrics_same:
  assumes "AggregateMetrics snapshot query s = Some t"
  shows "same_counters (heap s q) (heap t q)"
proof -
  obtain s1 where s1: "(if serviceListOnce s then Some s else ApplyServices snapshot (s\<lparr>serviceListOnce := True\<rparr>)) = Some s1"
    using assms by (auto simp: AggregateMetrics_def split: option.splits)
  obtain as s2 agg where f: "aggregate_all query s1 = ((as, s2), agg)" by (metis prod.exhaust)
  then have t: "t = s2\<lparr>aggregatedData := Some agg\<rparr>" using assms s1 by (simp add: AggregateMetrics_def)
  have "same_counters (heap s q) (heap s1 q)"
    using s1 apply_services_same [of _ "s\<lparr>serviceListOnce := True\<rparr>" s1 q]
    by (auto simp: ApplyServices_def split: if_splits option.splits)
  then show ?thesis
    using aggregate_steps_same [of query "process_refs s1" "[]" s1 cm_empty as s2 agg q] f t
    by (auto simp: aggregate_all_fold intro: same_counters_trans)
qed

section \<open>From an object to its program\<close>

text \<open>The sum of a counter over the processes that a scrape puts into one program, the counters
  taken from an earlier state.\<close>

definition recorded_before :: "(process_data \<Rightarrow> 'a::comm_monoid_add) \<Rightarrow> ksm \<Rightarrow> ksm \<Rightarrow> program_aggregation_key \<Rightarrow> 'a" where
  "recorded_before nu s t k =
     sum_list (map (\<lambda>q. if program_key (Info (heap t q)) = k then nu (heap s q) else 0) (process_refs s))"

lemma sum_list_bump:
  "distinct rs \<Longrightarrow> r \<in> set rs \<Longrightarrow>
   sum_list (map (\<lambda>q. f q + (if q = r then n else (0::'a::comm_monoid_add))) rs) = sum_list (map f rs) + n"
proof (induction rs)
  case (Cons x xs)
  have "sum_list (map (\<lambda>q. f q + (if q = r then n else 0)) xs) = sum_list (map f xs)" if "r \<notin> set xs"
    using that by (intro arg_cong [where f = sum_list] map_cong) auto
  then show ?case using Cons by (cases "x = r") (auto simp: ac_simps)
qed simp

context aggregated_metric
begin

lemma published_after:
  assumes "ksm_inv s1" and "AggregateMetrics snapshot query s1 = Some t" and "aggregatedData t = Some agg"
    and "process_refs s1 = process_refs s" and "r \<in> set (process_refs s)"
    and "\<And>q. nu (heap s1 q) = nu (heap s q) + (if q = r then n else 0)"
  defines "k \<equiv> program_key (Info (heap t r))"
  shows "mu (published k agg) = recorded_before nu s t k + n"
proof -
  have same: "nu (heap t q) = nu (heap s1 q)" for q
    using AggregateMetrics_same [OF assms(2), of q] nu_Info unfolding same_counters_def by metis
  have d: "distinct (process_refs s)" using distinct_process_refs [OF ksm_invD(1) [OF assms(1)]] assms(4) by simp
  have "mu (published k agg) = sum_list (map (\<lambda>q. (if program_key (Info (heap t q)) = k then nu (heap s q) else 0)
      + (if q = r then n else 0)) (process_refs s))"
    unfolding conservation [OF assms(1-3)] assms(4) same assms(6) k_def
    by (intro arg_cong [where f = sum_list] map_cong) auto
  then show ?thesis using sum_list_bump [OF d assms(5)] by (simp add: recorded_before_def)
qed

end

lemma ref_live_in_refs: "ref_live s r \<Longrightarrow> r \<in> set (process_refs s)"
  using cm_load_Some_entry [of "start_key s r" "instanceData (Processes s)" r]
  by (force simp: ref_live_def process_refs_def cm_entries_def)

section \<open>From an event to an object\<close>

text \<open>A transfer that the router sends to the MOF disk handler, with its fields.\<close>

definition disk_transfer_event :: "etw_consts \<Rightarrow> 'e etw_lib \<Rightarrow> 'e \<Rightarrow> event_handler \<Rightarrow> bool \<Rightarrow> u32 \<Rightarrow> u32 \<Rightarrow> u32 \<Rightarrow> bool" where
  "disk_transfer_event c lib er eh isWrite diskNumber transferSize issuingTID \<longleftrightarrow>
     \<not> is_cswitch c lib er \<and> \<not> is_registry c lib er
     \<and> rawHandler (route_of eh (lib_ProviderId lib er) (lib_EventId lib er)) =
         Some (H_Disk (if isWrite then Disk_Write else Disk_Read))
     \<and> lib_Uint32At lib er 0 = Some diskNumber \<and> lib_Uint32At lib er 8 = Some transferSize
     \<and> lib_Uint32At lib er (if lib_PointerSize lib er \<noteq> 8 then 40 else 48) = Some issuingTID"

lemma disk_transfer_delivered:
  assumes "disk_transfer_event c lib er eh w d n tid" and "W_disk wld = Some dc" and "disk_inv dc" and "ksm_inv (W_k wld)"
    and "attribute_disk tid (lib_ProcessId lib er) (W_k wld) = Some r"
  shows "\<exists>dc' s'. deliver c lib boot choice er (eh, wld) =
      Some (bump_provider (lib_ProviderId lib er) eh, wld\<lparr>W_disk := Some dc', W_k := s'\<rparr>)
    \<and> disk_inv dc' \<and> ksm_inv s' \<and> process_refs s' = process_refs (W_k wld)
    \<and> (\<forall>q. Info (heap s' q) = Info (heap (W_k wld) q))
    \<and> (\<forall>q e. BytesRead (disk_of (heap s' q) e) = BytesRead (disk_of (heap (W_k wld) q) e)
         + (if q = r then if e = d \<and> \<not> w then ucast n else 0 else 0))
    \<and> (\<forall>q e. BytesWritten (disk_of (heap s' q) e) = BytesWritten (disk_of (heap (W_k wld) q) e)
         + (if q = r then if e = d \<and> w then ucast n else 0 else 0))"
proof -
  let ?s = "W_k wld"
  obtain dc' s' pd where rec: "dc_RecordDiskIO d (Some r) n w (dc, ?s) = Some (dc', s')" "disk_inv dc'" "ksm_inv s'"
    "RecordDiskIO d n w (heap ?s r) = Some pd" "s' = upd_obj r (\<lambda>_. pd) ?s"
    using dc_RecordDiskIO_spec [OF assms(3,4), of d "Some r" n w] by auto
  have h: "HandleDiskTransferMofRaw w lib er (Some dc, ?s) = ok (Some dc', s')"
    using assms(1,5) rec(1) by (simp add: HandleDiskTransferMofRaw_def disk_transfer_event_def)
  have run: "run_handler lib boot choice er (H_Disk (if w then Disk_Write else Disk_Read)) wld =
      Some (wld\<lparr>W_disk := Some dc', W_k := s'\<rparr>)"
    using h assms(2)
    by (cases w) (simp_all add: run_handler_def via_def ok_def HandleDiskReadMofRaw_def HandleDiskWriteMofRaw_def)
  have "wf_process_data (heap ?s r)" using ksm_invD(1) [OF assms(4)] by (simp add: proc_parts)
  then have obj: "Info pd = Info (heap ?s r)" "\<forall>e. disk_of pd e = (if e = d then
         let m = disk_of (heap ?s r) d; i = (if w then DiskOpWrite else DiskOpRead)
         in \<lparr>IOCount = (IOCount m)[i := IOCount m ! i + 1], BytesRead = BytesRead m + (if w then 0 else ucast n),
             BytesWritten = BytesWritten m + (if w then ucast n else 0)\<rparr>
       else disk_of (heap ?s r) e)"
    using RecordDiskIO_Some [of "heap ?s r" d n w] rec(4) by auto
  have "deliver c lib boot choice er (eh, wld) =
      Some (bump_provider (lib_ProviderId lib er) eh, wld\<lparr>W_disk := Some dc', W_k := s'\<rparr>)"
    using assms(1) run by (simp add: deliver_def EventRecordCallback_def disk_transfer_event_def)
  moreover have "process_refs s' = process_refs ?s" by (simp add: rec(5) process_refs_def upd_obj_def)
  moreover have "Info (heap s' q) = Info (heap ?s q)" for q using obj(1) by (simp add: rec(5) upd_obj_def)
  moreover have "BytesRead (disk_of (heap s' q) e) = BytesRead (disk_of (heap ?s q) e)
        + (if q = r then if e = d \<and> \<not> w then ucast n else 0 else 0)"
    "BytesWritten (disk_of (heap s' q) e) = BytesWritten (disk_of (heap ?s q) e)
        + (if q = r then if e = d \<and> w then ucast n else 0 else 0)" for q e
    using obj by (simp_all add: rec(5) upd_obj_def Let_def)
  ultimately show ?thesis using rec(2,3) by blast
qed

section \<open>From a program to the page\<close>

lemma disk_metric_sent:
  assumes "aggregatedData t = Some agg"
  shows "sint (F_BytesRead (agg_disk_of d (published k agg))) > 0 \<Longrightarrow>
      CounterMetric ''etw_disk_process_read_bytes_total'' (unat (F_BytesRead (agg_disk_of d (published k agg))))
        (program_labels k @ [FormatUint10 (unat d)]) \<in> set (disk_Collect dc t)"
    and "sint (F_BytesWritten (agg_disk_of d (published k agg))) > 0 \<Longrightarrow>
      CounterMetric ''etw_disk_process_written_bytes_total'' (unat (F_BytesWritten (agg_disk_of d (published k agg))))
        (program_labels k @ [FormatUint10 (unat d)]) \<in> set (disk_Collect dc t)"
proof -
  let ?f = "agg_disk_of d (published k agg)"
  have entry: "\<exists>m disks. (k, m) \<in> set (cm_entries agg) \<and> Agg_Disk m = Some disks \<and> (d, ?f) \<in> set (cm_entries disks)"
    if "?f \<noteq> zeroFinalDisk"
  proof -
    have "cm_load k agg \<noteq> None" using that by (cases "cm_load k agg") (simp_all add: published_def get_or_def agg_disk_new)
    then obtain m where m: "cm_load k agg = Some m" "?f = agg_disk_of d m" by (auto simp: published_def get_or_def)
    have "agg_disk_of d m \<noteq> zeroFinalDisk" using that m(2) by metis
    then obtain disks f where f: "Agg_Disk m = Some disks" "cm_load d disks = Some f" "agg_disk_of d m = f"
      by (auto simp: agg_disk_of_def get_or_def split: option.splits)
    then show ?thesis using m unfolding m(2) by (auto simp: cm_entries_def dest: cm_load_Some_entry)
  qed
  have sent: "x \<in> set (disk_Collect dc t)"
    if "(k, m) \<in> set (cm_entries agg)" "x \<in> set (disk_program_metrics k m)" for m x
    using that assms by (auto simp: disk_Collect_def program_metrics_eq)
  show "CounterMetric ''etw_disk_process_read_bytes_total'' (unat (F_BytesRead ?f))
        (program_labels k @ [FormatUint10 (unat d)]) \<in> set (disk_Collect dc t)" if p: "sint (F_BytesRead ?f) > 0"
  proof -
    obtain m disks where e: "(k, m) \<in> set (cm_entries agg)" "Agg_Disk m = Some disks" "(d, ?f) \<in> set (cm_entries disks)"
      using entry p by (force simp: zeroFinalDisk_def)
    show ?thesis by (rule sent [OF e(1)]) (use e(2) p in \<open>auto simp: disk_program_metrics_def Let_def intro!: bexI [OF _ e(3)]\<close>)
  qed
  show "CounterMetric ''etw_disk_process_written_bytes_total'' (unat (F_BytesWritten ?f))
        (program_labels k @ [FormatUint10 (unat d)]) \<in> set (disk_Collect dc t)" if p: "sint (F_BytesWritten ?f) > 0"
  proof -
    obtain m disks where e: "(k, m) \<in> set (cm_entries agg)" "Agg_Disk m = Some disks" "(d, ?f) \<in> set (cm_entries disks)"
      using entry p by (force simp: zeroFinalDisk_def)
    show ?thesis by (rule sent [OF e(1)]) (use e(2) p in \<open>auto simp: disk_program_metrics_def Let_def intro!: bexI [OF _ e(3)]\<close>)
  qed
qed

lemma collect_all_disk:
  "W_disk w = Some dc \<Longrightarrow> x \<in> set (disk_Collect dc (W_k w)) \<Longrightarrow> x \<in> set (fst (collect_all w))"
  by (simp add: collect_all_def case_prod_unfold collect_thread_def collect_perf_def split: option.split)

lemma collect_all_W_k: "W_k (snd (collect_all w)) = W_k w"
  by (simp add: collect_all_def case_prod_unfold collect_thread_def collect_perf_def split: option.split)

lemma scrape_page:
  assumes "ksm_inv (W_k w)"
  shows "\<exists>t agg w2. AggregateMetrics snapshot query (W_k w) = Some t \<and> aggregatedData t = Some agg
    \<and> metricsHandler snapshot query now w = Some (fst (collect_all (w\<lparr>W_k := t\<rparr>)), w2)"
proof -
  obtain t agg where t: "AggregateMetrics snapshot query (W_k w) = Some t" "ksm_inv t" "aggregatedData t = Some agg"
    using aggregates [OF assms] by blast
  obtain ms w1 where c: "collect_all (w\<lparr>W_k := t\<rparr>) = (ms, w1)" by force
  then have "W_k w1 = t" using collect_all_W_k [of "w\<lparr>W_k := t\<rparr>"] by simp
  then show ?thesis using t c PostScrape_inv [OF t(2), of now] by (auto simp: metricsHandler_def)
qed

section \<open>From an event to the page\<close>

definition transferred :: "bool \<Rightarrow> u32 \<Rightarrow> process_data \<Rightarrow> u64" where
  "transferred isWrite diskNumber pd = (if isWrite then BytesWritten (disk_of pd diskNumber) else BytesRead (disk_of pd diskNumber))"

definition transfer_metric :: "bool \<Rightarrow> u64 \<Rightarrow> program_aggregation_key \<Rightarrow> u32 \<Rightarrow> metric" where
  "transfer_metric isWrite bytes k diskNumber =
     CounterMetric (if isWrite then ''etw_disk_process_written_bytes_total'' else ''etw_disk_process_read_bytes_total'')
       (unat bytes) (program_labels k @ [FormatUint10 (unat diskNumber)])"

lemma app_inv_disk:
  assumes "app_inv c n ex" and "W_disk (Ex_world ex) = Some dc"
  shows "disk_inv dc" and "ksm_inv (W_k (Ex_world ex))"
  using assms by (simp_all add: app_inv_def partial_inv_def world_inv_def with_collectors_def disk_state_ok_def)

text \<open>C3. End to end: a disk transfer whose process can be told is on the next page. The event goes
  through the router without a panic, and the scrape that follows publishes the bytes of that
  disk for the program of the process: what was recorded for the processes of the program
  before, plus the size of this transfer. The labels are name, checksum and session of the
  process; only the service name may be looked up in between. A total that is not positive as
  a signed number is left out.\<close>

theorem disk_transfer_published:
  assumes "app_inv c n ex" and "W_disk (Ex_world ex) = Some dc"
    and "disk_transfer_event c lib er (Ex_eh ex) isWrite diskNumber transferSize issuingTID"
    and "attribute_disk issuingTID (lib_ProcessId lib er) (W_k (Ex_world ex)) = Some r"
  shows "\<exists>ex1 t k page w2.
      app_step c lib boot (Event er choice) ex = Some ex1
    \<and> AggregateMetrics snapshot query (W_k (Ex_world ex1)) = Some t
    \<and> metricsHandler snapshot query now (Ex_world ex1) = Some (page, w2)
    \<and> k = program_key (Info (heap t r))
    \<and> (case Info (heap (W_k (Ex_world ex)) r) of i \<Rightarrow>
         Key_Name k = Name i \<and> Key_UniqueHash k = UniqueHash i \<and> Key_SessionID k = SessionID i)
    \<and> (case recorded_before (transferred isWrite diskNumber) (W_k (Ex_world ex)) t k + ucast transferSize of bytes \<Rightarrow>
         0 < sint bytes \<longrightarrow> transfer_metric isWrite bytes k diskNumber \<in> set page)"
proof -
  let ?w = "Ex_world ex" and ?s = "W_k (Ex_world ex)"
  note inv = app_inv_disk [OF assms(1,2)]
  obtain dc' s' where d: "deliver c lib boot choice er (Ex_eh ex, ?w) =
      Some (bump_provider (lib_ProviderId lib er) (Ex_eh ex), ?w\<lparr>W_disk := Some dc', W_k := s'\<rparr>)"
    "ksm_inv s'" "process_refs s' = process_refs ?s"
    "\<forall>q e. BytesRead (disk_of (heap s' q) e) = BytesRead (disk_of (heap ?s q) e)
         + (if q = r then if e = diskNumber \<and> \<not> isWrite then ucast transferSize else 0 else 0)"
    "\<forall>q e. BytesWritten (disk_of (heap s' q) e) = BytesWritten (disk_of (heap ?s q) e)
         + (if q = r then if e = diskNumber \<and> isWrite then ucast transferSize else 0 else 0)"
    "\<forall>q. Info (heap s' q) = Info (heap ?s q)"
    using disk_transfer_delivered [OF assms(3,2) inv assms(4), of boot choice] by blast
  let ?w1 = "?w\<lparr>W_disk := Some dc', W_k := s'\<rparr>"
  obtain t agg w2 where t: "AggregateMetrics snapshot query s' = Some t" "aggregatedData t = Some agg"
    "metricsHandler snapshot query now ?w1 = Some (fst (collect_all (?w1\<lparr>W_k := t\<rparr>)), w2)"
    using scrape_page [of ?w1 snapshot query now] d(2) by auto
  let ?k = "program_key (Info (heap t r))" and ?page = "fst (collect_all (?w1\<lparr>W_k := t\<rparr>))"
  have refs: "r \<in> set (process_refs ?s)" by (rule ref_live_in_refs [OF attribute_disk_live [OF inv(2) assms(4)]])
  have page: "x \<in> set ?page" if "x \<in> set (disk_Collect dc' t)" for x
    by (rule collect_all_disk [of _ dc']) (use that in simp_all)
  have summed: "(if isWrite then F_BytesWritten else F_BytesRead) (agg_disk_of diskNumber (published ?k agg)) =
      recorded_before (transferred isWrite diskNumber) ?s t ?k + ucast transferSize"
    using disk_written.published_after [OF d(2) t(1,2) d(3) refs, of diskNumber "ucast transferSize"] d(5)
      disk_read.published_after [OF d(2) t(1,2) d(3) refs, of diskNumber "ucast transferSize"] d(4)
    by (auto simp: transferred_def [abs_def])
  have labels: "Key_Name ?k = Name (Info (heap ?s r)) \<and> Key_UniqueHash ?k = UniqueHash (Info (heap ?s r))
      \<and> Key_SessionID ?k = SessionID (Info (heap ?s r))"
    using same_counters_key [OF AggregateMetrics_same [OF t(1), of r]] d(6) by simp
  have sent: "0 < sint b \<longrightarrow> transfer_metric isWrite b ?k diskNumber \<in> set ?page"
    if "(if isWrite then F_BytesWritten else F_BytesRead) (agg_disk_of diskNumber (published ?k agg)) = b" for b
    using page disk_metric_sent [OF t(2), where d = diskNumber and k = ?k and dc = dc'] that
    by (auto simp: transfer_metric_def split: if_splits)
  have step: "app_step c lib boot (Event er choice) ex =
      Some (ex\<lparr>Ex_eh := bump_provider (lib_ProviderId lib er) (Ex_eh ex), Ex_world := ?w1\<rparr>)" using d(1) by simp
  show ?thesis
    by (rule exI, rule exI, rule exI, rule exI, rule exI, intro conjI, rule step)
      (use t(1,3) labels sent [OF summed] in simp_all)
qed

definition sample_collectors :: collector_config where
  "sample_collectors = default_collectors
     \<lparr>Cfg_Network := \<lparr>Net_Enabled = True, Net_ConnectionHealth = True, Net_ByProtocol = True, Net_RetransmissionRate = True\<rparr>,
      Cfg_Memory := \<lparr>MemCfg_Enabled = True, MemCfg_EnablePerProcess = True\<rparr>\<rparr>"

text \<open>An exporter that tracks one process, and a read of 512 bytes by it.\<close>

definition sample_exporter :: exporter where
  "sample_exporter = (let cfg = DefaultConfig\<lparr>Collectors := sample_collectors\<rparr> in
     \<lparr>Ex_config = cfg, Ex_sm = NewSessionManager sample_etw cfg, Ex_eh = app_eh sample_etw True,
      Ex_world = (start_world 4 (Cfg_Network sample_collectors) True True 0)\<lparr>W_k := sample_state\<rparr>\<rparr>)"

definition sample_disk_read :: sample_event where
  "sample_disk_read = sample_read\<lparr>se_provider := DiskIoKernelGuid sample_etw, se_id := 10\<rparr>"

lemma sample_exporter_inv: "app_inv sample_etw 4 sample_exporter"
proof -
  let ?w = "(start_world 4 (Cfg_Network sample_collectors) True True 0)\<lparr>W_k := sample_state\<rparr>"
  have "with_collectors ?w = ?w" by (simp add: with_collectors_def start_world_def)
  then have "partial_inv 4 ?w"
    using world_inv_W_k [OF world_inv_start sample_state_inv] by (simp add: partial_inv_def)
  then show ?thesis
    by (simp add: app_inv_def sample_exporter_def Let_def start_world_def sample_collectors_def DefaultConfig_def)
qed

lemma sample_disk_route:
  "route_of (app_eh sample_etw True) (DiskIoKernelGuid sample_etw) 10 = raw (H_Disk Disk_Read)"
proof -
  have "DiskIoKernelGuid sample_etw \<noteq> MicrosoftWindowsKernelEventTracingGUID"
    by (simp add: sample_etw_def MicrosoftWindowsKernelEventTracingGUID_def)
  then have "route_of (app_eh sample_etw True) (DiskIoKernelGuid sample_etw) 10 =
      route_of (register (all_routes sample_etw) (empty_event_handler sample_etw)) (DiskIoKernelGuid sample_etw) 10"
    using route_of_addRoute [OF register_ok] by (simp add: app_eh_def RegisterWatcherRoutes_def AddRoute_def)
  also have "\<dots> = raw (H_Disk Disk_Read)"
    using routes.lookup_fold [of "empty_event_handler sample_etw" "map entry_of (all_routes sample_etw)" "(DiskIoKernelGuid sample_etw, 10)"]
    by (simp add: register_fold route_lists sample_etw_def)
  finally show ?thesis .
qed

lemma sample_nothing_recorded: "recorded_before (transferred w d) sample_state t k = 0"
proof -
  have "transferred w d (heap sample_state q) = 0" for q
    by (simp add: transferred_def disk_of_def sample_state_simps unknown_process_def wf_Reset_new Let_def)
      (simp add: newProcessData_def newDiskModule_def newDiskMetrics_def)
  then show ?thesis by (simp add: recorded_before_def cong: if_cong)
qed

theorem disk_transfer_published_witness:
  "\<exists>ex1 k page w2. app_step sample_etw byte_lib 0 (Event sample_disk_read None) sample_exporter = Some ex1
     \<and> metricsHandler None (\<lambda>_ _. None) (5 * second) (Ex_world ex1) = Some (page, w2) \<and> Key_Name k = ''app.exe''
     \<and> CounterMetric ''etw_disk_process_read_bytes_total'' 512 (program_labels k @ [FormatUint10 2]) \<in> set page"
proof -
  have ex: "Ex_world sample_exporter = (start_world 4 (Cfg_Network sample_collectors) True True 0)\<lparr>W_k := sample_state\<rparr>"
    "Ex_eh sample_exporter = app_eh sample_etw True"
    by (simp_all add: sample_exporter_def Let_def)
  have dc: "W_disk (Ex_world sample_exporter) = Some NewDiskIOCustomCollector" by (simp add: ex start_world_def)
  have ev: "disk_transfer_event sample_etw byte_lib sample_disk_read (Ex_eh sample_exporter) False 2 512 0"
    unfolding disk_transfer_event_def is_cswitch_def is_registry_def ex
    by (simp add: sample_disk_read_def sample_disk_route raw_def byte_lib_def le_read_def sample_read_def ThreadKernelGUID_def
        RegistryKernelGUID_def) (simp add: sample_etw_def)
  have at: "attribute_disk 0 (lib_ProcessId byte_lib sample_disk_read) (W_k (Ex_world sample_exporter)) = Some 1"
    by (simp add: ex sample_disk_read_def byte_lib_def sample_read_def attribute_disk_def load_ptr_def
        GetCurrentProcessDataByPID_def sample_state_simps)
  have name: "Name (Info (heap (W_k (Ex_world sample_exporter)) 1)) = ''app.exe''" by (simp add: ex sample_state_simps)
  have none: "recorded_before (transferred False 2) (W_k (Ex_world sample_exporter)) t k = 0" for t k
    by (simp add: ex sample_nothing_recorded)
  from disk_transfer_published [OF sample_exporter_inv dc ev at, of 0 None None "\<lambda>_ _. None" "5 * second"]
  show ?thesis unfolding none by (auto simp: transfer_metric_def name [simplified])
qed

end
