(* ===== verification/Metric_Series.thy ===== *)
theory Metric_Series
  imports Etw
begin

text \<open>
  Time series. Prometheus' registry answers a scrape with an error when two metrics have the same
  name and label values, and a metric cannot even be made when it has another number of label
  values than its descriptor has labels. \<open>exposes\<close> states that neither happens in a list of
  metrics; the lemmas build it up from the loops of the collectors. It rests on the labels
  being injective: different numbers are printed differently, so programs, disks, CPUs and
  codes can be told apart by their labels.
\<close>

section \<open>Printed numbers are distinct\<close>

lemma digit_inj: "m < 16 \<Longrightarrow> n < 16 \<Longrightarrow> digit m = digit n \<Longrightarrow> m = n"
  by (auto simp: digit_def split: if_splits dest!: arg_cong [where f = "of_char :: char \<Rightarrow> nat"])

lemma format_base_not_Nil [simp]: "format_base b n \<noteq> []" "[] \<noteq> format_base b n"
  by (subst format_base.simps; simp)+

lemma format_base_inj:
  assumes "2 \<le> b" and "b \<le> 16" and "format_base b m = format_base b n"
  shows "m = n"
  using assms(3)
proof (induction m arbitrary: n rule: less_induct)
  case (less m)
  note unfold = format_base.simps [of b m] format_base.simps [of b n]
  have bound: "k < b \<Longrightarrow> k < 16" for k using assms(2) by simp
  show ?case
  proof (cases "m < b \<or> n < b")
    case True
    then have "m < b \<and> n < b" using less.prems assms(1) by (auto simp: unfold split: if_splits)
    then show ?thesis using less.prems assms(1) by (auto simp: unfold bound intro: digit_inj)
  next
    case False
    then have e: "format_base b (m div b) = format_base b (n div b)" and d: "digit (m mod b) = digit (n mod b)"
      using less.prems assms(1) by (simp_all add: unfold)
    have "m div b < m" using False assms(1) by simp
    then have "m div b = n div b" using e by (rule less.IH)
    moreover have "m mod b = n mod b" using d assms by (intro digit_inj bound) simp_all
    ultimately show ?thesis by (metis div_mult_mod_eq)
  qed
qed

lemma FormatUint_inj [simp]:
  "FormatUint10 m = FormatUint10 n \<longleftrightarrow> m = n" "FormatUint16 m = FormatUint16 n \<longleftrightarrow> m = n"
  by (auto simp: FormatUint10_def FormatUint16_def dest: format_base_inj [rotated 2])

lemma program_labels_inj [simp]: "program_labels k = program_labels j \<longleftrightarrow> k = j"
  by (cases k; cases j) (auto simp: program_labels_def word_unat_eq_iff)

lemma length_program_labels [simp]: "length (program_labels k) = 4" "length program_label_names = 4"
  by (simp_all add: program_labels_def program_label_names_def)

lemma program_labels_append_inj [simp]:
  "program_labels k @ xs = program_labels j @ ys \<longleftrightarrow> k = j \<and> xs = ys"
  by (simp add: append_eq_append_conv)


section \<open>Series\<close>

type_synonym series = "string \<times> string list"

fun metric_series :: "metric \<Rightarrow> series" where
  "metric_series (CounterMetric name v labels) = (name, labels)"
| "metric_series (GaugeMetric name v labels) = (name, labels)"
| "metric_series (HistogramMetric name n s bs labels) = (name, labels)"

definition series :: "metric list \<Rightarrow> series list" where
  "series ms = map metric_series ms"

lemma series_simps [simp]:
  "series [] = []" "series (m # ms) = metric_series m # series ms" "series (ms @ ns) = series ms @ series ns"
  by (simp_all add: series_def)

definition announced :: "prom_desc list \<Rightarrow> series \<Rightarrow> bool" where
  "announced ds s \<longleftrightarrow> (\<exists>d \<in> set ds. Desc_Name d = fst s \<and> length (Desc_Labels d) = length (snd s))"

definition exposes :: "prom_desc list \<Rightarrow> metric list \<Rightarrow> bool" where
  "exposes ds ms \<longleftrightarrow> distinct (series ms) \<and> (\<forall>s \<in> set (series ms). announced ds s)"

definition desc_names :: "prom_desc list \<Rightarrow> string set" where
  "desc_names ds = Desc_Name ` set ds"

lemma desc_names_simps [simp]:
  "desc_names [] = {}" "desc_names (NewDesc name ls # ds) = insert name (desc_names ds)"
  "desc_names (ds @ es) = desc_names ds \<union> desc_names es"
  by (auto simp: desc_names_def NewDesc_def)

lemma announced_simps [simp]:
  "announced (NewDesc name ls # ds) s \<longleftrightarrow> name = fst s \<and> length ls = length (snd s) \<or> announced ds s"
  "announced [] s \<longleftrightarrow> False"
  "announced (ds @ es) s \<longleftrightarrow> announced ds s \<or> announced es s"
  by (auto simp: announced_def NewDesc_def)

lemma announced_name: "announced ds s \<Longrightarrow> fst s \<in> desc_names ds"
  by (force simp: announced_def desc_names_def)

lemma exposes_Nil [simp]: "exposes ds []"
  by (simp add: exposes_def)

lemma exposes_append:
  assumes "exposes ds ms" and "exposes es ns" and "desc_names ds \<inter> desc_names es = {}"
  shows "exposes (ds @ es) (ms @ ns)"
proof -
  have "set (series ms) \<inter> set (series ns) = {}"
    using assms announced_name by (fastforce simp: exposes_def)
  then show ?thesis using assms(1,2) by (auto simp: exposes_def)
qed

text \<open>Descriptors of the same list: the metrics must differ by themselves.\<close>

lemma exposes_within:
  assumes "exposes ds ms" and "exposes ds ns" and "\<And>s. s \<in> set (series ms) \<Longrightarrow> s \<in> set (series ns) \<Longrightarrow> False"
  shows "exposes ds (ms @ ns)"
  using assms by (auto simp: exposes_def)

lemma exposes_mono: "exposes ds ms \<Longrightarrow> set ds \<subseteq> set es \<Longrightarrow> exposes es ms"
  unfolding exposes_def announced_def by blast

lemma exposes_if [simp]: "(b \<Longrightarrow> exposes ds ms) \<Longrightarrow> exposes (if b then ds else []) (if b then ms else [])"
  by simp

lemma exposes_when: "(b \<Longrightarrow> exposes ds ms) \<Longrightarrow> exposes ds (if b then ms else [])"
  by simp

text \<open>A loop over distinct keys whose series show the key.\<close>

lemma exposes_loop:
  assumes "distinct xs" and "\<And>x. x \<in> set xs \<Longrightarrow> exposes ds (f x)"
    and "\<And>x y s. x \<in> set xs \<Longrightarrow> y \<in> set xs \<Longrightarrow> s \<in> set (series (f x)) \<Longrightarrow> s \<in> set (series (f y)) \<Longrightarrow> x = y"
  shows "exposes ds (concat (map f xs))"
  using assms
proof (induction xs)
  case (Cons x xs)
  have "exposes ds (concat (map f xs))" using Cons.prems by (intro Cons.IH) (auto intro: Cons.prems(3))
  moreover have False if x: "s \<in> set (series (f x))" and rest: "s \<in> set (series (concat (map f xs)))" for s
  proof -
    obtain y where "y \<in> set xs" "s \<in> set (series (f y))" using rest by (auto simp: series_def)
    then show False using Cons.prems(1) Cons.prems(3) [of x y s] x by auto
  qed
  ultimately show ?case using Cons.prems(2) [of x] unfolding list.map concat.simps by (intro exposes_within) auto
qed simp

lemma exposes_map:
  assumes "distinct xs" and "\<And>x. x \<in> set xs \<Longrightarrow> announced ds (metric_series (f x))"
    and "\<And>x y. x \<in> set xs \<Longrightarrow> y \<in> set xs \<Longrightarrow> metric_series (f x) = metric_series (f y) \<Longrightarrow> x = y"
  shows "exposes ds (map f xs)"
  using assms by (auto simp: exposes_def series_def distinct_map inj_on_def)

lemma cm_invar_distinct: "cm_invar m \<Longrightarrow> distinct (cm_entries m)"
  by (simp add: cm_invar_def cm_entries_def distinct_map)

lemma cm_entries_key: "cm_invar m \<Longrightarrow> (k, v) \<in> set (cm_entries m) \<Longrightarrow> (k, w) \<in> set (cm_entries m) \<Longrightarrow> v = w"
  by (auto simp: cm_entries_def cm_entries_load)

text \<open>A loop over the entries of a map: it is enough that the series show the key.\<close>

lemma exposes_entries:
  assumes "cm_invar m" and "\<And>k v. (k, v) \<in> set (cm_entries m) \<Longrightarrow> exposes ds (f k v)"
    and "\<And>k v j w s. s \<in> set (series (f k v)) \<Longrightarrow> s \<in> set (series (f j w)) \<Longrightarrow> k = j"
  shows "exposes ds (concat (map (\<lambda>(k, v). f k v) (cm_entries m)))"
proof (rule exposes_loop [OF cm_invar_distinct [OF assms(1)]])
  show "exposes ds (case x of (k, v) \<Rightarrow> f k v)" if "x \<in> set (cm_entries m)" for x
    using assms(2) that by (cases x) simp
  show "x = y" if "x \<in> set (cm_entries m)" "y \<in> set (cm_entries m)"
    "s \<in> set (series (case x of (k, v) \<Rightarrow> f k v))" "s \<in> set (series (case y of (k, v) \<Rightarrow> f k v))" for x y s
  proof -
    obtain k v j w where xy: "x = (k, v)" "y = (j, w)" by force
    then have "k = j" using assms(3) [of s k v j w] that(3,4) by simp
    then show ?thesis using cm_entries_key [OF assms(1), of k v w] that(1,2) xy by simp
  qed
qed

lemma exposes_map_entries:
  assumes "cm_invar m" and "\<And>k v. (k, v) \<in> set (cm_entries m) \<Longrightarrow> announced ds (metric_series (f k v))"
    and "\<And>k v j w. (k, v) \<in> set (cm_entries m) \<Longrightarrow> (j, w) \<in> set (cm_entries m) \<Longrightarrow>
      metric_series (f k v) = metric_series (f j w) \<Longrightarrow> k = j"
  shows "exposes ds (map (\<lambda>(k, v). f k v) (cm_entries m))"
proof (rule exposes_map [OF cm_invar_distinct [OF assms(1)]])
  show "announced ds (metric_series (case x of (k, v) \<Rightarrow> f k v))" if "x \<in> set (cm_entries m)" for x
    using assms(2) that by (cases x) simp
  show "x = y" if xy: "x \<in> set (cm_entries m)" "y \<in> set (cm_entries m)"
    and e: "metric_series (case x of (k, v) \<Rightarrow> f k v) = metric_series (case y of (k, v) \<Rightarrow> f k v)" for x y
  proof -
    obtain k v j w where p: "x = (k, v)" "y = (j, w)" by force
    then have "k = j" using assms(3) xy e by simp
    then show ?thesis using cm_entries_key [OF assms(1), of k v w] xy p by simp
  qed
qed

text \<open>The metrics per program show the program in their first four labels.\<close>

definition labelled :: "program_aggregation_key \<Rightarrow> metric list \<Rightarrow> bool" where
  "labelled key ms \<longleftrightarrow> (\<forall>s \<in> set (series ms). \<exists>ls. snd s = program_labels key @ ls)"

lemma labelled_simps [simp]:
  "labelled key []" "labelled key (ms @ ns) \<longleftrightarrow> labelled key ms \<and> labelled key ns"
  "labelled key (m # ms) \<longleftrightarrow> (\<exists>ls. snd (metric_series m) = program_labels key @ ls) \<and> labelled key ms"
  "labelled key (concat mss) \<longleftrightarrow> (\<forall>ms \<in> set mss. labelled key ms)"
  by (auto simp: labelled_def series_def)

definition published_ok :: "(program_aggregation_key \<Rightarrow> aggregated_program_metrics \<Rightarrow> bool) \<Rightarrow> ksm \<Rightarrow> bool" where
  "published_ok P s \<longleftrightarrow> (\<forall>data. aggregatedData s = Some data \<longrightarrow>
     cm_invar data \<and> (\<forall>(k, m) \<in> set data. P k m))"

lemma exposes_programs:
  assumes "published_ok P s" and "\<And>key m. P key m \<Longrightarrow> exposes ds (f key m)" and "\<And>key m. labelled key (f key m)"
  shows "exposes ds (program_metrics f s)"
proof (cases "aggregatedData s")
  case (Some data)
  show ?thesis
    unfolding program_metrics_eq Some option.case
  proof (rule exposes_entries)
    show "cm_invar data" using assms(1) Some by (simp add: published_ok_def)
    show "exposes ds (f k v)" if "(k, v) \<in> set (cm_entries data)" for k v
      using assms(1,2) that Some by (auto simp: published_ok_def cm_entries_def)
    show "k = j" if "s \<in> set (series (f k v))" "s \<in> set (series (f j w))" for k v j w s
      using assms(3) that unfolding labelled_def by (metis program_labels_append_inj)
  qed
qed (simp add: program_metrics_eq)

end
