(* ===== verification/Exposition.thy ===== *)
theory Exposition
  imports Exporter Metric_Series Stats_Collector
begin

text \<open>
  What a scrape publishes, across all collectors: every time series once, every one under a
  descriptor of its collector, and no descriptor announced twice, which the registration of a
  collector would refuse.

  \<open>unique_agg\<close> is what the aggregates have to satisfy for it, \<open>expo_inv\<close> what the state of the
  exporter has to.
\<close>

section \<open>The published aggregates\<close>

definition unique_agg :: "aggregated_program_metrics \<Rightarrow> bool" where
  "unique_agg a \<longleftrightarrow> wf_agg a
     \<and> (\<forall>disks. Agg_Disk a = Some disks \<longrightarrow> cm_invar disks)
     \<and> (\<forall>n. Agg_Network a = Some n \<longrightarrow> cm_invar (AN_ConnectionsFailed n)
          \<and> (\<forall>k. cm_load k (AN_ConnectionsFailed n) \<noteq> None \<longrightarrow> plain_failure_key k))
     \<and> (\<forall>ops. Agg_Registry a = Some ops \<longrightarrow> cm_invar ops
          \<and> (\<forall>k. cm_load k ops \<noteq> None \<longrightarrow> RegistryOpcodeToString (Opcode k) \<noteq> '''' \<and> Result k < ResultMax))"

lemma unique_agg_new [simp]: "unique_agg newAggregatedProgramMetrics"
  by (simp add: unique_agg_def) (simp add: newAggregatedProgramMetrics_def)

lemma add_disks_invar: "cm_invar m \<Longrightarrow> cm_invar (fold (\<lambda>(d, x). add_disk d x) xs m)"
  by (induction xs arbitrary: m) (auto simp: add_disk_def Let_def)

lemma add_failures_invar:
  assumes "cm_invar m" and "\<And>k. cm_load k m \<noteq> None \<Longrightarrow> P k" and "\<And>k c. (k, c) \<in> set xs \<Longrightarrow> P k"
  shows "cm_invar (fold (\<lambda>(k, c). add_failure k c) xs m)
    \<and> (\<forall>k. cm_load k (fold (\<lambda>(k, c). add_failure k c) xs m) \<noteq> None \<longrightarrow> P k)"
  using assms
proof (induction xs arbitrary: m)
  case (Cons x xs)
  obtain k c where x: "x = (k, c)" by force
  have 1: "cm_load j (add_failure k c m) \<noteq> None \<Longrightarrow> P j" for j
    using Cons.prems(2) [of j] Cons.prems(3) [of k c] x by (auto simp: add_failure_def split: if_splits)
  have 2: "cm_invar (add_failure k c m)" using Cons.prems(1) by (simp add: add_failure_def)
  have "\<And>k c. (k, c) \<in> set xs \<Longrightarrow> P k" using Cons.prems(3) by (meson list.set_intros(2))
  from Cons.IH [OF 2 1 this] show ?case by (simp add: x)
qed simp

lemma add_registry_ops_invar:
  assumes "cm_invar m" and "\<And>k. cm_load k m \<noteq> None \<Longrightarrow> P k"
    and "\<And>i c. (i, c) \<in> set xs \<Longrightarrow> c \<noteq> 0 \<Longrightarrow> P (registry_key i)"
  shows "cm_invar (fold (\<lambda>(i, c). add_registry_op i c) xs m)
    \<and> (\<forall>k. cm_load k (fold (\<lambda>(i, c). add_registry_op i c) xs m) \<noteq> None \<longrightarrow> P k)"
  using assms
proof (induction xs arbitrary: m)
  case (Cons x xs)
  obtain i c where x: "x = (i, c)" by force
  have 1: "cm_load j (add_registry_op i c m) \<noteq> None \<Longrightarrow> P j" for j
    using Cons.prems(2) [of j] Cons.prems(3) [of i c] x by (auto simp: add_registry_op_def split: if_splits)
  have 2: "cm_invar (add_registry_op i c m)" using Cons.prems(1) by (simp add: add_registry_op_def)
  have "\<And>i c. (i, c) \<in> set xs \<Longrightarrow> c \<noteq> 0 \<Longrightarrow> P (registry_key i)" using Cons.prems(3) by (meson list.set_intros(2))
  from Cons.IH [OF 2 1 this] show ?case by (simp add: x)
qed simp

lemma unique_agg_add:
  assumes pd: "wf_process_data pd" and a: "unique_agg a"
  shows "unique_agg (add_process pd a)"
proof -
  have "cm_invar disks" if "Agg_Disk (add_process pd a) = Some disks" for disks
    using that a by (auto simp: add_disk_module_def Let_def unique_agg_def intro!: add_disks_invar split: option.splits)
  moreover have "cm_invar (AN_ConnectionsFailed n)
      \<and> (\<forall>k. cm_load k (AN_ConnectionsFailed n) \<noteq> None \<longrightarrow> plain_failure_key k)"
    if n: "Agg_Network (add_process pd a) = Some n" for n
  proof -
    have e: "AN_ConnectionsFailed n = fold (\<lambda>(k, c). add_failure k c) (cm_entries (ConnectionsFailed (Network pd)))
        (AN_ConnectionsFailed (agg_network_of a))"
      using n by (auto simp: add_network_module_def Let_def agg_network_of_def)
    have new: "plain_failure_key k" if "(k, c) \<in> set (cm_entries (ConnectionsFailed (Network pd)))" for k c
      using that pd by (auto simp: wf_process_data_def wf_network_module_def cm_entries_def cm_entries_load)
    have old: "cm_invar (AN_ConnectionsFailed (agg_network_of a))"
      "\<And>k. cm_load k (AN_ConnectionsFailed (agg_network_of a)) \<noteq> None \<Longrightarrow> plain_failure_key k"
      using a by (auto simp: unique_agg_def agg_network_of_def newAggregatedNetwork_def split: option.splits)
    show ?thesis unfolding e using old new by (rule add_failures_invar)
  qed
  moreover have "cm_invar ops
      \<and> (\<forall>k. cm_load k ops \<noteq> None \<longrightarrow> RegistryOpcodeToString (Opcode k) \<noteq> '''' \<and> Result k < ResultMax)"
    if ops: "Agg_Registry (add_process pd a) = Some ops" for ops
  proof -
    let ?ops = "Operations (Registry pd)"
    have e: "ops = fold (\<lambda>(i, c). add_registry_op i c) (zip [0..<length ?ops] ?ops)
        (case Agg_Registry a of Some m \<Rightarrow> m | None \<Rightarrow> cm_empty)"
      using ops by (simp add: add_registry_module_def Let_def)
    have new: "RegistryOpcodeToString (Opcode (registry_key i)) \<noteq> '''' \<and> Result (registry_key i) < ResultMax"
      if i: "(i, c) \<in> set (zip [0..<length ?ops] ?ops)" "c \<noteq> 0" for i c
    proof -
      have "i < length ?ops" "c = ?ops ! i" using i(1) by (auto simp: set_zip)
      then have "named_slot i" using pd i(2) by (simp add: wf_process_data_def named_slots_def)
      then show ?thesis by (simp add: named_slot_def registry_key_def module_consts)
    qed
    have old: "cm_invar (case Agg_Registry a of Some m \<Rightarrow> m | None \<Rightarrow> cm_empty)"
      "\<And>k. cm_load k (case Agg_Registry a of Some m \<Rightarrow> m | None \<Rightarrow> cm_empty) \<noteq> None \<Longrightarrow>
        RegistryOpcodeToString (Opcode k) \<noteq> '''' \<and> Result k < ResultMax"
      using a by (auto simp: unique_agg_def split: option.splits)
    show ?thesis unfolding e using old new by (rule add_registry_ops_invar)
  qed
  moreover have "wf_agg (add_process pd a)" using wf_agg_add [OF pd] a by (simp add: unique_agg_def)
  ultimately show ?thesis unfolding unique_agg_def by blast
qed

definition unique_aggregation :: "aggregation \<Rightarrow> bool" where
  "unique_aggregation agg \<longleftrightarrow> cm_invar agg \<and> (\<forall>k a. cm_load k agg = Some a \<longrightarrow> unique_agg a)"

lemma unique_aggregate_one:
  assumes "wf_process_data pd" and "unique_aggregation agg"
  shows "unique_aggregation (aggregate_one pd agg)"
proof -
  have "unique_agg (get_or newAggregatedProgramMetrics (program_key (Info pd)) agg)"
    using assms(2) by (auto simp: unique_aggregation_def get_or_def split: option.split)
  from unique_agg_add [OF assms(1) this] show ?thesis
    using assms(2) by (auto simp: unique_aggregation_def aggregate_one_def Let_def split: if_splits)
qed

lemma aggregate_fold_unique:
  assumes "fold (aggregate_step query) rs ((as, s), agg) = ((as', s'), agg')"
    and "ksm_inv s" and "unique_aggregation agg"
  shows "unique_aggregation agg'"
  using assms
proof (induction rs arbitrary: as s agg)
  case (Cons r rs)
  obtain as1 s1 where r: "resolve_tag query r (as, s) = (as1, s1)" by force
  have inv: "ksm_inv s1" using resolve_tag_inv [OF Cons.prems(2), of query r as] r by simp
  then have "wf_process_data (heap s1 r)" using ksm_invD(1) by (simp add: proc_parts)
  from unique_aggregate_one [OF this Cons.prems(3)] Cons.IH [OF _ inv] Cons.prems(1)
  show ?case by (simp add: aggregate_step_eq [OF r])
qed simp

lemma AggregateMetrics_unique:
  assumes "ksm_inv s" and "AggregateMetrics snapshot query s = Some t"
  shows "published_ok (\<lambda>_. unique_agg) t"
proof -
  obtain s1 as s2 agg where A: "ksm_inv s1"
    "fold (aggregate_step query) (process_refs s) (([], s1), cm_empty) = ((as, s2), agg)"
    "AggregateMetrics snapshot query s = Some (s2\<lparr>aggregatedData := Some agg\<rparr>)"
    using AggregateMetrics_fold [OF assms(1)] by blast
  have "unique_aggregation agg"
    by (rule aggregate_fold_unique [OF A(2,1)]) (simp add: unique_aggregation_def)
  then show ?thesis using A(3) assms(2)
    by (auto simp: published_ok_def unique_aggregation_def cm_entries_load)
qed


section \<open>Each collector\<close>

lemma exposes_single [simp]: "exposes ds [m] \<longleftrightarrow> announced ds (metric_series m)"
  by (simp add: exposes_def)

text \<open>A metric that is only sent when there is something to report.\<close>

lemma exposes_opt: "(b \<Longrightarrow> announced ds (metric_series m)) \<Longrightarrow> exposes ds (if b then [m] else [])"
  by simp

lemma series_if: "series (if b then ms else ns) = (if b then series ms else series ns)"
  by simp

lemma series_concat: "set (series (concat mss)) = (\<Union>ms \<in> set mss. set (series ms))"
  by (induction mss) auto

lemma series_map: "series (map f xs) = map (metric_series \<circ> f) xs"
  by (simp add: series_def)

lemma DiskOp_names: "i < 3 \<Longrightarrow> j < 3 \<Longrightarrow> DiskOpToString ! i = DiskOpToString ! j \<longleftrightarrow> i = j"
proof -
  have "distinct DiskOpToString" "length DiskOpToString = 3" by (simp_all add: DiskOpToString_def)
  then show "i < 3 \<Longrightarrow> j < 3 \<Longrightarrow> ?thesis" by (metis nth_eq_iff_index_eq)
qed

lemma unat_same [simp]: "unat (x :: 'a::len word) = unat y \<longleftrightarrow> x = y"
  by (simp add: word_unat_eq_iff)

lemma exposes_disk_program:
  assumes "unique_agg m"
  shows "exposes disk_Describe (disk_program_metrics key m)"
proof (cases "Agg_Disk m")
  case (Some disks)
  have inv: "cm_invar disks" using assms Some by (simp add: unique_agg_def)
  have len: "length (F_IOCount f) = 3" if "(d, f) \<in> set disks" for d f
    using assms Some that cm_entries_load [OF inv] by (auto simp: unique_agg_def wf_agg_def DiskOpCount_def)
  show ?thesis
    unfolding disk_program_metrics_def Some option.case Let_def
  proof (rule exposes_entries [OF inv], goal_cases)
    case (1 d f)
    then have 3: "length (F_IOCount f) = 3" using len by (simp add: cm_entries_def)
    have "exposes disk_Describe (concat (map (\<lambda>op. if F_IOCount f ! op = 0 then []
             else [CounterMetric ''etw_disk_process_io_operations_total'' (unat (F_IOCount f ! op))
                     ((program_labels key @ [FormatUint10 (unat d)]) @ [DiskOpToString ! op])]) [0..<length (F_IOCount f)]))"
      by (rule exposes_loop) (auto simp: 3 disk_Describe_def DiskOp_names split: if_splits)
    then show ?case
      by (intro exposes_within)
        (auto simp: disk_Describe_def series_concat split: if_splits)
  next
    case (2 d f e g s)
    then show ?case by (auto simp: series_concat split: if_splits)
  qed
qed (simp add: disk_program_metrics_def)

lemma labelled_loop: "(\<And>x. x \<in> set xs \<Longrightarrow> labelled key (f x)) \<Longrightarrow> labelled key (concat (map f xs))"
  by simp

lemma labelled_if [simp]: "labelled key (if b then ms else []) \<longleftrightarrow> (b \<longrightarrow> labelled key ms)"
  by simp

lemma labelled_disk: "labelled key (disk_program_metrics key m)"
  by (auto simp: disk_program_metrics_def Let_def split: option.split)

lemma program_series:
  assumes "s \<in> set (series (program_metrics f k))" and "\<And>key m. labelled key (f key m)"
  shows "\<exists>key ls. snd s = program_labels key @ ls"
proof (cases "aggregatedData k")
  case (Some data)
  then obtain key m where "s \<in> set (series (f key m))"
    using assms(1) by (auto simp: program_metrics_eq series_concat)
  then show ?thesis using assms(2) [of key m] by (auto simp: labelled_def)
qed (use assms(1) in \<open>simp add: program_metrics_eq\<close>)

text \<open>The system-wide metrics have fewer labels than those of a program.\<close>

lemma exposes_with_programs:
  assumes "exposes ds ms" and "exposes ds (program_metrics f k)" and "\<And>key m. labelled key (f key m)"
    and "\<And>s. s \<in> set (series ms) \<Longrightarrow> length (snd s) < 4"
  shows "exposes ds (ms @ program_metrics f k)" and "exposes ds (program_metrics f k @ ms)"
proof -
  have "4 \<le> length (snd s)" if "s \<in> set (series (program_metrics f k))" for s
    using program_series [OF that assms(3)] by auto
  then have "False" if "s \<in> set (series ms)" "s \<in> set (series (program_metrics f k))" for s
    using assms(4) that by (metis leD)
  then show "exposes ds (ms @ program_metrics f k)" "exposes ds (program_metrics f k @ ms)"
    using assms(1,2) exposes_within by blast+
qed

lemma exposes_disk:
  assumes "disk_inv c" and "published_ok (\<lambda>_. unique_agg) s"
  shows "exposes disk_Describe (disk_Collect c s)"
proof -
  let ?io = "concat (map (\<lambda>(d, arr). map (\<lambda>op. CounterMetric ''etw_disk_io_operations_total'' (unat (arr ! op))
                [FormatUint10 (unat d), DiskOpToString ! op]) [0..<length arr]) (cm_entries (diskIOCount c)))"
  let ?rd = "map (\<lambda>(d, n). CounterMetric ''etw_disk_read_bytes_total'' (unat n) [FormatUint10 (unat d)])
         (cm_entries (diskBytesRead c))"
  let ?wr = "map (\<lambda>(d, n). CounterMetric ''etw_disk_written_bytes_total'' (unat n) [FormatUint10 (unat d)])
         (cm_entries (diskBytesWritten c))"
  have inv: "cm_invar (diskIOCount c)" "cm_invar (diskBytesRead c)" "cm_invar (diskBytesWritten c)"
    using assms(1) by (simp_all add: disk_inv_def)
  have len: "length arr = 3" if "(d, arr) \<in> set (cm_entries (diskIOCount c))" for d arr
    using assms(1) that cm_entries_load [OF inv(1)] by (auto simp: disk_inv_def cm_entries_def DiskOpCount_def)
  have "exposes disk_Describe ?io"
  proof (rule exposes_entries [OF inv(1)], goal_cases)
    case (1 d arr)
    show ?case by (rule exposes_map) (auto simp: disk_Describe_def len [OF 1] DiskOp_names)
  qed (auto simp: series_map)
  moreover have "exposes disk_Describe ?rd" "exposes disk_Describe ?wr"
    by (rule exposes_map_entries; simp add: disk_Describe_def inv)+
  ultimately have "exposes disk_Describe (?io @ ?rd @ ?wr)"
    by (intro exposes_within) (auto simp: series_map series_concat)
  moreover have "exposes disk_Describe (program_metrics disk_program_metrics s)"
    by (rule exposes_programs [OF assms(2) exposes_disk_program labelled_disk])
  ultimately have "exposes disk_Describe ((?io @ ?rd @ ?wr) @ program_metrics disk_program_metrics s)"
    by (rule exposes_with_programs(1) [OF _ _ labelled_disk]) (auto simp: series_map series_concat)
  then show ?thesis by (simp add: disk_Collect_def)
qed

lemma exposes_memory:
  assumes "published_ok (\<lambda>_. unique_agg) s"
  shows "exposes (memory_Describe c) (memory_Collect c s)"
proof -
  let ?f = "\<lambda>key m. case Agg_Memory m of
                 None \<Rightarrow> []
               | Some n \<Rightarrow> if n = 0 then []
                           else [CounterMetric ''etw_memory_hard_pagefaults_per_process_total'' (unat n)
                                  (program_labels key)]"
  let ?m = "CounterMetric ''etw_memory_hard_pagefaults_total'' (unat (hardPageFaultsTotal c)) []"
  have l: "labelled key (?f key m)" for key m by (simp split: option.split)
  show ?thesis
  proof (cases "Mem_EnablePerProcess c")
    case True
    have "exposes (memory_Describe c) (program_metrics ?f s)"
      by (rule exposes_programs [OF assms _ l]) (simp add: True memory_Describe_def split: option.split)
    moreover have "exposes (memory_Describe c) [?m]" by (simp add: memory_Describe_def)
    ultimately have "exposes (memory_Describe c) ([?m] @ program_metrics ?f s)"
      by (intro exposes_with_programs(1) [OF _ _ l]) auto
    then show ?thesis using True by (simp add: memory_Collect_def)
  qed (simp add: memory_Collect_def memory_Describe_def)
qed

lemma exposes_process:
  assumes "published_ok (\<lambda>_. unique_agg) s"
  shows "exposes process_Describe (process_Collect s)"
  unfolding process_Collect_def by (rule exposes_programs [OF assms]) (simp_all add: process_Describe_def)

lemma opcode_name_inj:
  assumes "RegistryOpcodeToString a \<noteq> ''''" and "RegistryOpcodeToString a = RegistryOpcodeToString b"
  shows "a = b"
proof -
  have d: "distinct registry_opcode_names" by (simp add: registry_opcode_names_def)
  have l: "length registry_opcode_names = 24" by (simp add: registry_opcode_names_def)
  have "10 \<le> unat a \<and> unat a \<le> 33 \<and> 10 \<le> unat b \<and> unat b \<le> 33"
    using assms by (auto simp: RegistryOpcodeToString_def Let_def split: if_splits)
  then have "registry_opcode_names ! (unat a - 10) = registry_opcode_names ! (unat b - 10)" and
    bound: "unat a - 10 < 24" "unat b - 10 < 24" "10 \<le> unat a" "10 \<le> unat b"
    using assms(2) by (auto simp: RegistryOpcodeToString_def)
  then have "unat a - 10 = unat b - 10" using nth_eq_iff_index_eq [OF d] l by simp
  then have "unat a = unat b" using bound by arith
  then show ?thesis by simp
qed

lemma registry_labels_inj:
  assumes "RegistryOpcodeToString a \<noteq> ''''" and "RegistryOpcodeToString b \<noteq> ''''" and "r < ResultMax" and "t < ResultMax"
  shows "registry_label a = registry_label b \<and> result_label r = result_label t \<longleftrightarrow> a = b \<and> r = t"
  using assms opcode_name_inj [OF assms(1), of b]
  by (auto simp: registry_label_def result_label_def module_consts split: if_splits)

lemma exposes_registry:
  assumes "reg_state_ok (Some c, s)" and "published_ok (\<lambda>_. unique_agg) s"
  shows "exposes (registry_Describe c) (registry_Collect c s)"
proof -
  let ?f = "\<lambda>key m. case Agg_Registry m of
                 None \<Rightarrow> []
               | Some ops \<Rightarrow> map (\<lambda>(k, count). CounterMetric ''etw_registry_operations_process_total'' (unat count)
                     (program_labels key @ [registry_label (Opcode k), result_label (Result k)])) (cm_entries ops)"
  let ?s = "concat (map (\<lambda>i. let count = operationsTotal c ! i in
        if count > 0
        then [CounterMetric ''etw_registry_operations_total'' (unat count)
               [registry_label (of_nat (i div ResultMax)), result_label (i mod ResultMax)]]
        else []) [0..<length (operationsTotal c)])"
  have c: "length (operationsTotal c) = MaxRegistryArray" "named_slots (operationsTotal c)"
    using assms(1) by (simp_all add: reg_state_ok_def)
  have named: "RegistryOpcodeToString (of_nat (i div ResultMax)) \<noteq> ''''"
    if "i < length (operationsTotal c)" "operationsTotal c ! i > 0" for i
    using c(2) that by (auto simp: named_slots_def named_slot_def)
  have sys: "exposes (registry_Describe c) ?s"
  proof (rule exposes_loop, goal_cases)
    case (3 i j s)
    from 3 have ij: "i < MaxRegistryArray" "j < MaxRegistryArray" "operationsTotal c ! i > 0" "operationsTotal c ! j > 0"
      "registry_label (of_nat (i div ResultMax)) = registry_label (of_nat (j div ResultMax))"
      "result_label (i mod ResultMax) = result_label (j mod ResultMax)"
      by (auto simp: Let_def c(1) split: if_splits)
    moreover have "i mod ResultMax < ResultMax" "j mod ResultMax < ResultMax" by (simp_all add: module_consts)
    moreover have "RegistryOpcodeToString (of_nat (i div ResultMax)) \<noteq> ''''"
      "RegistryOpcodeToString (of_nat (j div ResultMax)) \<noteq> ''''"
      using named [of i] named [of j] ij(1-4) c(1) by simp_all
    ultimately have "(of_nat (i div ResultMax) :: u8) = of_nat (j div ResultMax) \<and> i mod ResultMax = j mod ResultMax"
      using registry_labels_inj by blast
    then have "registry_key i = registry_key j" by (simp add: registry_key_def)
    then show ?case using registry_key_inj ij(1,2) by blast
  qed (auto simp: Let_def registry_Describe_def)
  have l: "labelled key (?f key m)" for key m
    by (auto simp: labelled_def series_map split: option.split)
  show ?thesis
  proof (cases "Reg_EnablePerProcess c")
    case True
    have "exposes (registry_Describe c) (?f key m)" if m: "unique_agg m" for key m
    proof (cases "Agg_Registry m")
      case (Some ops)
      have inv: "cm_invar ops" using m Some by (simp add: unique_agg_def)
      have ops: "RegistryOpcodeToString (Opcode k) \<noteq> '''' \<and> Result k < ResultMax" if "(k, n) \<in> set (cm_entries ops)" for k n
        using m Some that cm_entries_load [OF inv] by (simp add: unique_agg_def cm_entries_def)
      have "k = j" if "(k, v) \<in> set (cm_entries ops)" "(j, w) \<in> set (cm_entries ops)"
        "registry_label (Opcode k) = registry_label (Opcode j)" "result_label (Result k) = result_label (Result j)" for k v j w
        using registry_labels_inj [of "Opcode k" "Opcode j" "Result k" "Result j"] ops that
        by (metis registry_operation_key.equality unit.exhaust)
      then show ?thesis
        unfolding Some option.case
        by (intro exposes_map_entries [OF inv]) (auto simp: registry_Describe_def True)
    qed simp
    then have "exposes (registry_Describe c) (program_metrics ?f s)"
      by (rule exposes_programs [OF assms(2) _ l])
    then have "exposes (registry_Describe c) (?s @ program_metrics ?f s)"
      by (intro exposes_with_programs(1) [OF sys _ l]) (auto simp: series_concat Let_def split: if_splits)
    then show ?thesis using True by (simp add: registry_Collect_def)
  qed (use sys in \<open>simp add: registry_Collect_def\<close>)
qed

text \<open>The network collector: every kind of metric has a name of its own.\<close>

lemma protocol_names: "p < 2 \<Longrightarrow> q < 2 \<Longrightarrow> protocolToString p = protocolToString q \<longleftrightarrow> p = q"
  by (auto simp: protocolToString_def ProtocolTCP_def ProtocolUDP_def split: if_splits)

lemma family_names: "p < 2 \<Longrightarrow> q < 2 \<Longrightarrow> addressFamilyToString p = addressFamilyToString q \<longleftrightarrow> p = q"
  by (auto simp: addressFamilyToString_def AddressFamilyIPV4_def AddressFamilyIPV6_def split: if_splits)

lemma per_protocol_series:
  "s \<in> set (series (per_protocol name labels counts)) \<Longrightarrow> fst s = name \<and> (\<exists>l. snd s = labels @ [l])"
  by (auto simp: per_protocol_def series_concat split: if_splits)

lemma exposes_per_protocol:
  assumes "length counts = protocolMax" and "\<And>l. announced ds (name, labels @ [l])"
  shows "exposes ds (per_protocol name labels counts)"
  unfolding per_protocol_def
  by (rule exposes_loop) (use assms in \<open>auto simp: protocolMax_def protocol_names split: if_splits\<close>)

lemma key_parts_inj:
  assumes "key_protocol k = key_protocol j" and "key_family k = key_family j" and "key_code k = key_code j"
  shows "k = j"
proof -
  have m: "(0xFF :: u32) = mask 8" by (simp add: mask_eq_exp_minus_1)
  have "drop_bit 24 k = drop_bit 24 j" "drop_bit 16 k AND mask 8 = drop_bit 16 j AND mask 8"
    using assms(1,2) by (simp_all add: key_protocol_def key_family_def m)
  then have high: "bit k (24 + n) = bit j (24 + n)" and mid: "n < 8 \<Longrightarrow> bit k (16 + n) = bit j (16 + n)" for n
  proof -
    show "bit k (24 + n) = bit j (24 + n)"
      using arg_cong [OF \<open>drop_bit 24 k = drop_bit 24 j\<close>, of "\<lambda>w. bit w n"] by (simp add: bit_drop_bit_eq)
    show "n < 8 \<Longrightarrow> bit k (16 + n) = bit j (16 + n)"
      using arg_cong [OF \<open>drop_bit 16 k AND mask 8 = drop_bit 16 j AND mask 8\<close>, of "\<lambda>w. bit w n"]
      by (simp add: bit_simps)
  qed
  have low: "n < 16 \<Longrightarrow> bit k n = bit j n" for n
    using arg_cong [OF assms(3), of "\<lambda>w. bit w n"] by (simp add: key_code_def bit_ucast_iff)
  have "bit k n = bit j n" for n
    using low [of n] mid [of "n - 16"] high [of "n - 24"]
    by (cases "n < 16"; cases "n < 24") simp_all
  then show ?thesis by (intro bit_word_eqI) simp
qed

lemma exposes_network_program:
  assumes "unique_agg m"
  shows "exposes (network_Describe cfg) (network_program_metrics cfg key m)"
proof (cases "Agg_Network m")
  case (Some n)
  let ?ds = "network_Describe cfg" and ?labels = "program_labels key"
  have n: "length (AN_BytesSent n) = protocolMax" "length (AN_BytesReceived n) = protocolMax"
    "length (AN_ConnectionsAttempted n) = protocolMax" "length (AN_ConnectionsAccepted n) = protocolMax"
    "cm_invar (AN_ConnectionsFailed n)"
    "\<And>k c. (k, c) \<in> set (cm_entries (AN_ConnectionsFailed n)) \<Longrightarrow> plain_failure_key k"
    using assms Some by (auto simp: unique_agg_def wf_agg_def cm_entries_def cm_entries_load)
  let ?sent = "per_protocol ''etw_network_process_sent_bytes_total'' ?labels (AN_BytesSent n)"
  let ?recv = "per_protocol ''etw_network_process_received_bytes_total'' ?labels (AN_BytesReceived n)"
  let ?att = "per_protocol ''etw_network_process_connections_attempted_total'' ?labels (AN_ConnectionsAttempted n)"
  let ?acc = "per_protocol ''etw_network_process_connections_accepted_total'' ?labels (AN_ConnectionsAccepted n)"
  let ?ret = "[CounterMetric ''etw_network_process_retransmissions_total'' (unat (AN_RetransmissionsTotal n)) ?labels]"
  let ?fail = "map (\<lambda>(k, count). CounterMetric ''etw_network_connections_failed_total'' (unat count)
                    (?labels @ [protocolToString (key_protocol k), addressFamilyToString (key_family k),
                       FormatUint10 (unat (key_code k))])) (cm_entries (AN_ConnectionsFailed n))"
  have 1: "exposes ?ds ?sent" "exposes ?ds ?recv"
    by (rule exposes_per_protocol; simp add: n network_Describe_def)+
  have 2: "exposes ?ds ?att" "exposes ?ds ?acc" if "Net_ConnectionHealth cfg"
    by (rule exposes_per_protocol; simp add: n network_Describe_def that)+
  have 3: "exposes ?ds ?ret" if "Net_RetransmissionRate cfg"
    using that by (simp add: network_Describe_def)
  have 4: "exposes ?ds ?fail" if "Net_ConnectionHealth cfg"
  proof (rule exposes_map_entries [OF n(5)], goal_cases)
    case (2 k v j w)
    then have "plain_failure_key k" "plain_failure_key j" using n(6) by blast+
    then show ?case using 2 key_parts_inj [of k j]
      by (simp add: plain_failure_key_parts protocolMax_def protocol_names family_names)
  qed (simp add: network_Describe_def that)
  have fail_name: "fst s = ''etw_network_connections_failed_total''" if "s \<in> set (series ?fail)" for s
    using that by (auto simp: series_map)
  have "exposes ?ds (?sent @ ?recv @ (if Net_ConnectionHealth cfg then ?att @ ?acc else [])
      @ (if Net_RetransmissionRate cfg \<and> AN_RetransmissionsTotal n > 0 then ?ret else [])
      @ (if Net_ConnectionHealth cfg then ?fail else []))"
    by (intro exposes_within exposes_when 1 2 3 4)
      (auto simp: series_if dest!: per_protocol_series fail_name split: if_splits)
  then show ?thesis by (simp add: network_program_metrics_def Some Let_def)
qed (simp add: network_program_metrics_def)

lemma labelled_network: "labelled key (network_program_metrics cfg key m)"
  by (auto simp: network_program_metrics_def per_protocol_def labelled_def Let_def series_concat series_map series_if
      split: option.splits if_splits)

lemma exposes_network:
  assumes "published_ok (\<lambda>_. unique_agg) s"
  shows "exposes (network_Describe (nc_config c)) (network_Collect c s)"
proof -
  let ?ds = "network_Describe (nc_config c)"
  let ?f = "\<lambda>p. traffic_metric ''etw_network_sent_bytes_total'' (trafficBytesTotal c) p DirectionSent
               @ traffic_metric ''etw_network_received_bytes_total'' (trafficBytesTotal c) p DirectionReceived"
  let ?t = "concat (map ?f [0..<protocolMax])"
  have t: "exposes ?ds ?t" if "Net_ByProtocol (nc_config c)"
  proof (rule exposes_loop, goal_cases)
    case (2 p)
    show ?case by (rule exposes_within)
      (auto simp: traffic_metric_def Let_def network_Describe_def that split: if_splits)
  qed (auto simp: traffic_metric_def Let_def protocolMax_def protocol_names split: if_splits)
  moreover have "length (snd s) < 4" if "s \<in> set (series ?t)" for s
    using that by (auto simp: series_concat traffic_metric_def Let_def split: if_splits)
  moreover have "exposes ?ds (program_metrics (network_program_metrics (nc_config c)) s)"
    by (rule exposes_programs [OF assms exposes_network_program labelled_network])
  ultimately show ?thesis
    unfolding network_Collect_def
    using exposes_with_programs(2) [OF _ _ labelled_network, where ds = ?ds and ms = ?t and k = s] by simp
qed

text \<open>Thread states: the table has entries for the four simple states and for each wait reason, and
  only those are counted.\<close>

definition used_state :: "nat \<Rightarrow> bool" where
  "used_state i \<longleftrightarrow> i \<in> set ([0..<4] @ [40..<78])"

lemma used_state_iff: "used_state i \<longleftrightarrow> i < 4 \<or> 40 \<le> i \<and> i < 78"
  unfolding used_state_def set_append set_upt by auto

lemma state_keys_length: "length state_keys = 78"
  by code_simp

lemma used_states_distinct: "distinct (map ((!) state_keys) ([0..<4] @ [40..<78]))"
  by code_simp

lemma used_states_inj:
  assumes "used_state i" and "used_state j" and "state_keys ! i = state_keys ! j"
  shows "i = j"
  using used_states_distinct assms unfolding distinct_map used_state_def by (metis inj_onD)

definition thread_exposable :: "thread_collector \<Rightarrow> bool" where
  "thread_exposable c \<longleftrightarrow> indexToStateKey c = state_keys
     \<and> length (threadStateCounters c) = length state_keys
     \<and> (\<forall>i < length state_keys. threadStateCounters c ! i \<noteq> 0 \<longrightarrow> used_state i)"

lemma exposes_thread:
  assumes "thread_exposable c" and "published_ok (\<lambda>_. unique_agg) s"
  shows "exposes thread_Describe (fst (thread_Collect c s))"
proof -
  let ?cpu = "concat (map (\<lambda>cpu. if sint (contextSwitchesPerCPU c ! cpu) > 0
                   then [CounterMetric ''etw_thread_context_switches_cpu_total''
                          (unat (contextSwitchesPerCPU c ! cpu)) [FormatUint10 cpu]] else [])
            [0..<length (contextSwitchesPerCPU c)])"
  let ?f = "\<lambda>key m. case Agg_Threads m of
                Some n \<Rightarrow> if n > 0 then [CounterMetric ''etw_thread_context_switches_process_total'' (unat n)
                                          (program_labels key)] else []
              | None \<Rightarrow> []"
  let ?int = "concat (map (\<lambda>cpu. interval_metrics cpu (cumulativeIntervals (collect_intervals c) ! cpu))
              [0..<length (cumulativeIntervals (collect_intervals c))])"
  let ?st = "concat (map (\<lambda>i. if sint (threadStateCounters c ! i) > 0
                then [CounterMetric ''etw_thread_states_total'' (unat (threadStateCounters c ! i))
                       [fst (indexToStateKey c ! i), snd (indexToStateKey c ! i)]] else [])
              [0..<length (indexToStateKey c)])"
  have l: "labelled key (?f key m)" for key m by (simp split: option.split)
  have cpu: "exposes thread_Describe ?cpu"
    by (rule exposes_loop) (auto simp: thread_Describe_def split: if_splits)
  have int: "exposes thread_Describe ?int"
    by (rule exposes_loop) (auto simp: thread_Describe_def interval_metrics_def split: if_splits)
  have st: "exposes thread_Describe ?st"
  proof (rule exposes_loop, goal_cases)
    case (3 i j s)
    then have "used_state i" "used_state j" "state_keys ! i = state_keys ! j"
      using assms(1) by (auto simp: thread_exposable_def prod_eq_iff split: if_splits)
    then show ?case by (rule used_states_inj)
  qed (auto simp: thread_Describe_def split: if_splits)
  have prog: "exposes thread_Describe (program_metrics ?f s)"
    by (rule exposes_programs [OF assms(2) _ l]) (simp add: thread_Describe_def split: option.split)
  have "exposes thread_Describe (?int @ ?st)"
    by (rule exposes_within [OF int st]) (auto simp: series_concat interval_metrics_def split: if_splits)
  then have "exposes thread_Describe (program_metrics ?f s @ ?int @ ?st)"
    by (intro exposes_with_programs(2) [OF _ prog l]) (auto simp: series_concat interval_metrics_def split: if_splits)
  moreover have "False" if "s \<in> set (series ?cpu)" "s \<in> set (series (program_metrics ?f s'))" for s s'
  proof -
    have "length (snd s) = 1" using that(1) by (auto simp: series_concat split: if_splits)
    then show False using program_series [OF that(2) l] by auto
  qed
  then have "s \<in> set (series ?cpu) \<Longrightarrow> s \<in> set (series (program_metrics ?f s' @ ?int @ ?st)) \<Longrightarrow> False" for s s'
    by (auto simp: series_concat interval_metrics_def split: if_splits)
  ultimately have "exposes thread_Describe (?cpu @ program_metrics ?f s @ ?int @ ?st)"
    by (intro exposes_within [OF cpu])
  then show ?thesis by (simp add: thread_Collect_def Let_def)
qed

lemma merge_drivers_invar: "cm_invar m \<Longrightarrow> cm_invar (merge_drivers m old)"
proof -
  have "cm_invar m \<Longrightarrow> cm_invar (fold (\<lambda>(key, hist) m. cm_store key (merge_hist (get_or newHistogramData key m) hist) m) xs m)" for xs
    by (induction xs arbitrary: m) auto
  then show "cm_invar m \<Longrightarrow> ?thesis" by (simp add: merge_drivers_def)
qed

definition perf_exposable :: "perf_collector \<Rightarrow> bool" where
  "perf_exposable c \<longleftrightarrow> cm_invar (totalDpcDurations c)"

lemma perf_exposable_merge: "perf_exposable c \<Longrightarrow> perf_exposable (merge_buffer removed c)"
  by (simp add: perf_exposable_def merge_buffer_def Let_def merge_drivers_invar)

lemma exposes_perf_metrics:
  assumes "perf_exposable c"
  shows "exposes (perf_Describe c) (perf_collectMetrics c)"
proof -
  let ?ds = "perf_Describe c"
  have isr: "exposes ?ds (collectISRToDPCLatencyHistogram c)"
    by (simp add: collectISRToDPCLatencyHistogram_def hist_metric_def perf_Describe_def)
  have drivers: "exposes ?ds (collectDPCDurationHistograms c)" if "Perf_EnablePerDriver c"
    unfolding collectDPCDurationHistograms_def
    by (rule exposes_entries) (use assms in \<open>auto simp: perf_exposable_def hist_metric_def perf_Describe_def that split: if_splits\<close>)
  have "exposes ?ds (concat (map (\<lambda>cpu.
            [CounterMetric ''etw_perfinfo_dpc_queued_cpu_total'' (unat (get_or 0 cpu (totalDpcQueuedCount c))) [FormatUint10 (unat cpu)],
             CounterMetric ''etw_perfinfo_dpc_executed_cpu_total'' (unat (get_or 0 cpu (totalDpcExecutedCount c))) [FormatUint10 (unat cpu)]])
            (allCPUs c)))" if "Perf_EnablePerCPU c"
    by (rule exposes_loop) (auto simp: allCPUs_def exposes_def perf_Describe_def that)
  then have counters: "exposes ?ds (collectDPCCounters c)"
    unfolding collectDPCCounters_def Let_def
    by (intro exposes_within exposes_when) (auto simp: perf_Describe_def exposes_def series_concat split: if_splits)
  have smi: "exposes ?ds collectSMIGaps" if "Perf_EnableSMIDetection c"
    by (simp add: collectSMIGaps_def perf_Describe_def that)
  show ?thesis
    unfolding perf_collectMetrics_def
    by (intro exposes_within exposes_when isr drivers counters smi)
      (auto simp: collectISRToDPCLatencyHistogram_def collectDPCDurationHistograms_def collectDPCCounters_def
        collectSMIGaps_def hist_metric_def Let_def series_concat split: if_splits)
qed

definition sysconf_exposable :: "sysconf_collector \<Rightarrow> bool" where
  "sysconf_exposable c \<longleftrightarrow> cm_invar (physicalDisks c) \<and> cm_invar (logicalDisks c)
     \<and> (\<forall>k d. cm_load k (physicalDisks c) = Some d \<longrightarrow> PD_DiskNumber d = k)
     \<and> (\<forall>k d. cm_load k (logicalDisks c) = Some d \<longrightarrow> LD_DiskNumber d = k)"

lemma exposes_sysconf:
  assumes "sysconf_exposable c"
  shows "exposes (sysconf_Describe c) (sysconf_Collect c)"
proof -
  let ?p = "map (\<lambda>(_, d). GaugeMetric PhysicalDiskInfoMetricName 1
             [FormatUint10 (unat (PD_DiskNumber d)), PD_Manufacturer d]) (cm_entries (physicalDisks c))"
  let ?l = "map (\<lambda>(_, d). GaugeMetric LogicalDiskInfoMetricName 1
               [FormatUint10 (unat (LD_DiskNumber d)), LD_DriveLetterString d, LD_FileSystem d])
               (cm_entries (logicalDisks c))"
  have inv: "cm_invar (physicalDisks c)" "cm_invar (logicalDisks c)"
    and keys: "\<And>k d. (k, d) \<in> set (cm_entries (physicalDisks c)) \<Longrightarrow> PD_DiskNumber d = k"
    "\<And>k d. (k, d) \<in> set (cm_entries (logicalDisks c)) \<Longrightarrow> LD_DiskNumber d = k"
    using assms by (auto simp: sysconf_exposable_def cm_entries_def cm_entries_load)
  have "exposes (sysconf_Describe c) ?p" if "PhysicalDiskInfoMetricName \<in> set (requestedMetrics c)"
    by (rule exposes_map_entries [OF inv(1)]) (use keys(1) in \<open>auto simp: sysconf_Describe_def that\<close>)
  moreover have "exposes (sysconf_Describe c) ?l" if "LogicalDiskInfoMetricName \<in> set (requestedMetrics c)"
    by (rule exposes_map_entries [OF inv(2)]) (use keys(2) in \<open>auto simp: sysconf_Describe_def that\<close>)
  ultimately show ?thesis
    unfolding sysconf_Collect_def
    by (intro exposes_within exposes_when)
      (auto simp: series_map PhysicalDiskInfoMetricName_def LogicalDiskInfoMetricName_def split: if_splits)
qed


section \<open>The invariant of the exporter\<close>

definition threads_exposable :: "thread_handler \<Rightarrow> bool" where
  "threads_exposable h \<longleftrightarrow> (\<forall>c. th_collector h = Some c \<longrightarrow> thread_exposable c)"

definition world_exposable :: "world \<Rightarrow> bool" where
  "world_exposable w \<longleftrightarrow> threads_exposable (W_thread w)
     \<and> (\<forall>c. W_perf w = Some c \<longrightarrow> perf_exposable c) \<and> sysconf_exposable (W_sys w)"

lemma transition_exposable:
  assumes "thread_exposable c" and "state < 4 \<or> state = StateWaiting"
  shows "thread_exposable (RecordThreadStateTransition state waitReason c)"
proof -
  let ?i = "if state = StateWaiting then StateWaitingOffset + unat waitReason else state"
  have "?i < length state_keys \<Longrightarrow> used_state ?i"
    using assms(2) by (auto simp: used_state_iff state_keys_length StateWaiting_def StateWaitingOffset_def)
  then show ?thesis using assms(1)
    by (auto simp: RecordThreadStateTransition_def Let_def thread_exposable_def nth_list_update)
qed

lemma cpu_switch_exposable:
  "RecordCpuContextSwitch cpu d c = Some c' \<Longrightarrow> thread_exposable c \<Longrightarrow> thread_exposable c'"
  by (auto simp: RecordCpuContextSwitch_def Let_def thread_exposable_def split: if_splits)

lemmas thread_state_numbers = StateCreated_def StateRunning_def StateReady_def StateTerminated_def StateWaiting_def

lemma with_collector_exposable:
  "threads_exposable h \<Longrightarrow> (\<And>c. thread_exposable c \<Longrightarrow> thread_exposable (f c)) \<Longrightarrow> threads_exposable (with_collector f h)"
  by (auto simp: threads_exposable_def with_collector_def)

lemma process_switch_exposable:
  assumes "process_switch tid wr cpu t c (h, k) = Some ((h', k'), err)" and "thread_exposable c"
  shows "threads_exposable h'"
proof -
  have "thread_exposable (RecordThreadStateTransition StateRunning 0 (RecordThreadStateTransition StateWaiting wr c1))"
    if "RecordCpuContextSwitch cpu d c = Some c1" for c1 d
    using cpu_switch_exposable [OF that assms(2)] by (intro transition_exposable) (auto simp: thread_state_numbers)
  then show ?thesis using assms(1)
    by (auto simp: process_switch_def Let_def ok_def threads_exposable_def split: if_splits option.splits)
qed

lemma thread_handler_exposable:
  assumes "thread_handler_of ev lib e (h, k) = Some ((h', k'), err)" and "threads_exposable h"
  shows "threads_exposable h'"
proof (cases ev)
  case T_Switch
  show ?thesis
  proof (cases "th_collector h")
    case (Some c)
    then have "thread_exposable c" using assms(2) by (simp add: threads_exposable_def)
    then show ?thesis using assms T_Switch Some process_switch_exposable
      by (auto simp: HandleContextSwitchRaw_def bind_err_def fail_def split: option.splits)
  qed (use assms T_Switch in \<open>auto simp: HandleContextSwitchRaw_def ok_def\<close>)
next
  case T_Ready
  then show ?thesis using assms
    by (auto simp: HandleReadyThreadRaw_def ok_def thread_state_numbers intro!: with_collector_exposable transition_exposable)
next
  case T_Start
  then show ?thesis using assms
    by (auto simp: HandleThreadStartRaw_def ok_def RecordThreadCreation_def thread_state_numbers split: option.splits
        intro!: with_collector_exposable transition_exposable)
next
  case T_End
  then show ?thesis using assms
    by (auto simp: HandleThreadEndRaw_def ok_def RecordThreadTermination_def thread_state_numbers split: option.splits
        intro!: with_collector_exposable transition_exposable)
qed

lemma perf_totals:
  "totalDpcDurations (ProcessISREvent cpu v t a c) = totalDpcDurations c"
  "ProcessDPCEvent cpu t t0 a (c, im) = (c', im') \<Longrightarrow> totalDpcDurations c' = totalDpcDurations c"
  "ProcessCSwitchEvent cpu t (c, im) = (c', im') \<Longrightarrow> totalDpcDurations c' = totalDpcDurations c"
  by (auto simp: ProcessISREvent_def ProcessDPCEvent_def ProcessCSwitchEvent_def Let_def split: prod.splits)

lemma perf_handler_exposable:
  assumes "perf_handler ev lib e (co, im) = Some ((co', im'), err)" and "\<And>c. co = Some c \<Longrightarrow> perf_exposable c" and "co' = Some c'"
  shows "perf_exposable c'"
proof -
  have "totalDpcDurations c' = totalDpcDurations c" if "co = Some c" for c
    using assms(1,3) that
    by (cases ev)
      (auto simp: PerfHandleISREventRaw_def PerfHandleDPCEventRaw_def PerfHandleContextSwitchRaw_def
        HandleSampleProfileEventRaw_def ok_def fail_def bind_err_def perf_totals(1)
        split: option.splits prod.splits dest: perf_totals(2,3))
  moreover have "co \<noteq> None" using assms(1,3)
    by (cases ev; cases co) (auto simp: PerfHandleISREventRaw_def PerfHandleDPCEventRaw_def
        PerfHandleContextSwitchRaw_def HandleSampleProfileEventRaw_def ok_def)
  ultimately show ?thesis using assms(2) by (auto simp: perf_exposable_def)
qed

lemma sys_handler_exposable:
  assumes "sys_handler ev lib e (c, k) = Some ((c', k'), err)" and "sysconf_exposable c"
  shows "sysconf_exposable c'"
  using assms
  by (cases ev)
    (auto simp: HandleSystemConfigPhyDisk_def HandleSystemConfigLogDisk_def HandleSystemConfigServices_def Let_def
      bind_err_def ok_def fail_def sysconf_exposable_def AddPhysicalDisk_def AddLogicalDisk_def split: option.splits if_splits)

lemma collect_exposable:
  assumes "world_exposable w"
  shows "world_exposable (snd (collect_all w))"
proof -
  have "thread_exposable (collect_intervals c)" if "thread_exposable c" for c
    using that by (simp add: thread_exposable_def collect_intervals_def)
  then have 1: "world_exposable (snd (collect_thread v))" if "world_exposable v" for v
    using that by (auto simp: collect_thread_def world_exposable_def threads_exposable_def thread_Collect_def Let_def
        split: option.split)
  have 2: "world_exposable (snd (collect_perf v))" if "world_exposable v" for v
    using that perf_exposable_merge
    by (auto simp: collect_perf_def world_exposable_def threads_exposable_def perf_Collect_def Let_def split: option.split)
  show ?thesis using 2 [OF 1 [OF assms]] by (simp add: collect_all_def case_prod_unfold)
qed

lemma world_exposable_k [simp]: "world_exposable (w\<lparr>W_k := k\<rparr>) = world_exposable w"
  by (simp add: world_exposable_def)

lemma act_exposable:
  assumes "act lib boot a w = Some w'" and "world_exposable w"
  shows "world_exposable w'"
proof (cases a)
  case (On_Thread ev e)
  then obtain h k err where "thread_handler_of ev lib e (W_thread w, W_k w) = Some ((h, k), err)"
    "w' = w\<lparr>W_thread := h, W_k := k\<rparr>"
    using assms(1) by (auto simp: via_def)
  then show ?thesis using thread_handler_exposable assms(2) by (auto simp: world_exposable_def)
next
  case (On_Perf ev e)
  then obtain co im err where "perf_handler ev lib e (W_perf w, Images (W_k w)) = Some ((co, im), err)"
    "w' = w\<lparr>W_perf := co, W_k := (W_k w)\<lparr>Images := im\<rparr>\<rparr>"
    using assms(1) by (auto simp: via_def)
  then show ?thesis using perf_handler_exposable assms(2) by (fastforce simp: world_exposable_def)
next
  case (On_Sys ev e)
  then obtain c k err where "sys_handler ev lib e (W_sys w, W_k w) = Some ((c, k), err)"
    "w' = w\<lparr>W_sys := c, W_k := k\<rparr>"
    using assms(1) by (auto simp: via_def)
  then show ?thesis using sys_handler_exposable assms(2) by (auto simp: world_exposable_def)
next
  case (Scrape_Metrics snapshot query now)
  then show ?thesis using assms collect_exposable
    by (auto simp: metricsHandler_def split: option.splits prod.splits) (metis snd_conv world_exposable_k)
qed (use assms in \<open>auto simp: via_def world_exposable_def\<close>)

lemma start_exposable: "world_exposable (start_world n net_cfg mem_pp reg_pp now)"
  by (simp add: start_world_def world_exposable_def threads_exposable_def thread_exposable_def perf_exposable_def
      sysconf_exposable_def NewThreadCSCollector_def NewPerfInfoCollector_def NewSystemConfigCollector_def
      state_keys_length) (simp add: StateWaitingOffset_def GetAllWaitReasonStrings_def)

lemma reaches_exposable:
  "reaches lib boot w as v \<Longrightarrow> world_exposable w \<Longrightarrow> world_exposable v"
  by (induction rule: reaches.induct) (auto dest: act_exposable)


section \<open>All collectors together\<close>

definition of_collector :: "('c \<Rightarrow> 'a list) \<Rightarrow> 'c option \<Rightarrow> 'a list" where
  "of_collector f co = (case co of Some c \<Rightarrow> f c | None \<Rightarrow> [])"

definition world_Describe :: "world \<Rightarrow> prom_desc list" where
  "world_Describe w =
     of_collector (\<lambda>_. disk_Describe) (W_disk w) @ of_collector (\<lambda>c. network_Describe (nc_config c)) (W_net w)
     @ of_collector memory_Describe (W_mem w) @ of_collector registry_Describe (W_reg w)
     @ of_collector (\<lambda>_. thread_Describe) (th_collector (W_thread w)) @ of_collector perf_Describe (W_perf w)
     @ (if registered (W_sys w) then sysconf_Describe (W_sys w) else [])
     @ (if W_process w then process_Describe else [])"

text \<open>The names of a collector share their first eight letters, and no two collectors have the same.\<close>

definition prefixed :: "string \<Rightarrow> prom_desc list \<Rightarrow> bool" where
  "prefixed p ds \<longleftrightarrow> distinct (map Desc_Name ds) \<and> (\<forall>d \<in> set ds. take 8 (Desc_Name d) = p)"

lemma Desc_Name_New [simp]: "Desc_Name (NewDesc name ls) = name"
  by (simp add: NewDesc_def)

lemma prefixed_collectors:
  "prefixed ''etw_disk'' disk_Describe" "prefixed ''etw_netw'' (network_Describe cfg)"
  "prefixed ''etw_memo'' (memory_Describe mc)" "prefixed ''etw_regi'' (registry_Describe rc)"
  "prefixed ''etw_thre'' thread_Describe" "prefixed ''etw_perf'' (perf_Describe pc)"
  "prefixed ''etw_syst'' (sysconf_Describe sc)" "prefixed ''etw_proc'' process_Describe"
  "prefixed ''etw_stat'' stats_Describe"
  by (auto simp: prefixed_def disk_Describe_def network_Describe_def memory_Describe_def registry_Describe_def
      thread_Describe_def perf_Describe_def sysconf_Describe_def process_Describe_def
      PhysicalDiskInfoMetricName_def LogicalDiskInfoMetricName_def stats_Describe_def trace_descs
      consumerEventsLostDesc_def providerEventsReceivedDesc_def)

type_synonym section_of = "string \<times> prom_desc list \<times> metric list"

definition section_ok :: "section_of \<Rightarrow> bool" where
  "section_ok x \<longleftrightarrow> (case x of (p, ds, ms) \<Rightarrow> prefixed p ds \<and> exposes ds ms)"

lemma sections:
  assumes "distinct (map fst xs)" and "\<forall>x \<in> set xs. section_ok x"
  shows "exposes (concat (map (\<lambda>(p, ds, ms). ds) xs)) (concat (map (\<lambda>(p, ds, ms). ms) xs))
    \<and> distinct (map Desc_Name (concat (map (\<lambda>(p, ds, ms). ds) xs)))
    \<and> take 8 ` desc_names (concat (map (\<lambda>(p, ds, ms). ds) xs)) \<subseteq> fst ` set xs"
  using assms
proof (induction xs)
  case (Cons x xs)
  obtain p ds ms where x: "x = (p, ds, ms)" by (cases x)
  let ?ds = "concat (map (\<lambda>(p, ds, ms). ds) xs)" and ?ms = "concat (map (\<lambda>(p, ds, ms). ms) xs)"
  have ok: "distinct (map Desc_Name ds)" "\<forall>n \<in> desc_names ds. take 8 n = p" "exposes ds ms"
    using Cons.prems(2) x by (auto simp: section_ok_def prefixed_def desc_names_def)
  have IH: "exposes ?ds ?ms" "distinct (map Desc_Name ?ds)" "take 8 ` desc_names ?ds \<subseteq> fst ` set xs"
    using Cons by auto
  have disjoint: "desc_names ds \<inter> desc_names ?ds = {}"
  proof -
    have "p \<notin> fst ` set xs" using Cons.prems(1) x by simp
    then have False if "n \<in> desc_names ds" "n \<in> desc_names ?ds" for n
      using ok(2) that(1) subsetD [OF IH(3) imageI [OF that(2)]] by simp
    then show ?thesis by blast
  qed
  then have "distinct (map Desc_Name (ds @ ?ds))"
    using ok(1) IH(2) by (simp add: desc_names_def)
  moreover have "exposes (ds @ ?ds) (ms @ ?ms)" by (rule exposes_append [OF ok(3) IH(1) disjoint])
  moreover have "take 8 ` desc_names (ds @ ?ds) \<subseteq> insert p (fst ` set xs)"
    using ok(2) IH(3) unfolding desc_names_simps by (auto simp: image_Un)
  ultimately show ?case by (simp add: x)
qed (simp add: desc_names_def)

definition world_sections :: "world \<Rightarrow> metric list \<Rightarrow> metric list \<Rightarrow> section_of list" where
  "world_sections w thread_ms perf_ms =
     [(''etw_disk'', of_collector (\<lambda>_. disk_Describe) (W_disk w), of_collector (\<lambda>c. disk_Collect c (W_k w)) (W_disk w)),
      (''etw_netw'', of_collector (\<lambda>c. network_Describe (nc_config c)) (W_net w),
        of_collector (\<lambda>c. network_Collect c (W_k w)) (W_net w)),
      (''etw_memo'', of_collector memory_Describe (W_mem w), of_collector (\<lambda>c. memory_Collect c (W_k w)) (W_mem w)),
      (''etw_regi'', of_collector registry_Describe (W_reg w), of_collector (\<lambda>c. registry_Collect c (W_k w)) (W_reg w)),
      (''etw_thre'', of_collector (\<lambda>_. thread_Describe) (th_collector (W_thread w)), thread_ms),
      (''etw_perf'', of_collector perf_Describe (W_perf w), perf_ms),
      (''etw_syst'', if registered (W_sys w) then sysconf_Describe (W_sys w) else [],
        if registered (W_sys w) then sysconf_Collect (W_sys w) else []),
      (''etw_proc'', if W_process w then process_Describe else [], if W_process w then process_Collect (W_k w) else [])]"

lemma section_collector:
  "(\<And>c. prefixed p (f c)) \<Longrightarrow> (\<And>c. co = Some c \<Longrightarrow> exposes (f c) (g c)) \<Longrightarrow> section_ok (p, of_collector f co, of_collector g co)"
  by (auto simp: section_ok_def of_collector_def prefixed_def split: option.split)

lemma section_if:
  "prefixed p ds \<Longrightarrow> (b \<Longrightarrow> exposes ds ms) \<Longrightarrow> section_ok (p, if b then ds else [], if b then ms else [])"
  by (auto simp: section_ok_def prefixed_def)

lemma collect_all_sections:
  "collect_all w = (ms, w') \<Longrightarrow>
   ms = concat (map (\<lambda>(p, ds, ms). ms) (world_sections w
     (of_collector (\<lambda>c. fst (thread_Collect c (W_k w))) (th_collector (W_thread w)))
     (of_collector (\<lambda>c. fst (perf_Collect (Images (W_k w)) c)) (W_perf w))))"
  by (auto simp: collect_all_def collect_thread_def collect_perf_def world_sections_def of_collector_def
      split: option.splits prod.splits)

lemma world_Describe_sections:
  "world_Describe w = concat (map (\<lambda>(p, ds, ms). ds) (world_sections w tms pms))"
  by (simp add: world_Describe_def world_sections_def)

lemma world_sections_ok:
  assumes "world_inv n w" and "world_exposable w" and "published_ok (\<lambda>_. unique_agg) (W_k w)"
  shows "\<forall>x \<in> set (world_sections w
     (of_collector (\<lambda>c. fst (thread_Collect c (W_k w))) (th_collector (W_thread w)))
     (of_collector (\<lambda>c. fst (perf_Collect (Images (W_k w)) c)) (W_perf w))). section_ok x"
proof -
  have perf: "exposes (perf_Describe c) (fst (perf_Collect (Images (W_k w)) c))" if "perf_exposable c" for c
  proof -
    have "perf_Describe (merge_buffer r c) = perf_Describe c" for r by (simp add: perf_Describe_def merge_buffer_def Let_def)
    then show ?thesis
      using exposes_perf_metrics [OF perf_exposable_merge [OF that], of "GetCleanedImages (Images (W_k w))"]
      by (simp add: perf_Collect_def Let_def)
  qed
  have "disk_inv c" if "W_disk w = Some c" for c
    using assms(1) that by (simp add: world_inv_def disk_state_ok_def)
  moreover have "reg_state_ok (Some c, W_k w)" if "W_reg w = Some c" for c
    using assms(1) that by (simp add: world_inv_def)
  moreover have "thread_exposable c" if "th_collector (W_thread w) = Some c" for c
    using assms(2) that by (simp add: world_exposable_def threads_exposable_def)
  moreover have "perf_exposable c" if "W_perf w = Some c" for c
    using assms(2) that by (simp add: world_exposable_def)
  moreover have "sysconf_exposable (W_sys w)" using assms(2) by (simp add: world_exposable_def)
  ultimately show ?thesis
    unfolding world_sections_def list.set ball_simps
    by (intro conjI section_collector section_if prefixed_collectors exposes_disk exposes_network exposes_memory
        exposes_registry exposes_thread perf exposes_sysconf exposes_process assms(3)) blast+
qed


section \<open>The statistics of the pipeline\<close>

text \<open>The library keys its traces by name, and a session has a name of its own.\<close>

definition distinct_sources :: "etw_stats \<Rightarrow> bool" where
  "distinct_sources es \<longleftrightarrow> distinct (map fst (ES_traces es))
     \<and> (case (SS_query (ES_manifest es), SS_query (ES_kernel es)) of
          (Some p, Some q) \<Rightarrow> SP_TraceName p \<noteq> SP_TraceName q | _ \<Rightarrow> True)"

definition opt_series :: "metric option list \<Rightarrow> series list" where
  "opt_series ms = map (metric_series \<circ> the) ms"

lemma opt_series_simps [simp]:
  "opt_series [] = []" "opt_series (m # ms) = metric_series (the m) # opt_series ms"
  "opt_series (ms @ ns) = opt_series ms @ opt_series ns"
  "opt_series (concat mss) = concat (map opt_series mss)"
  by (simp_all add: opt_series_def [abs_def] map_concat)

lemma series_MustNewConstMetric [simp]:
  "length labels = length (Desc_Labels d) \<Longrightarrow> metric_series (the (MustNewConstMetric d vt v labels)) = (Desc_Name d, labels)"
  by (simp add: MustNewConstMetric_def split: value_type.split)

lemma those_series: "those ms = Some xs \<Longrightarrow> series xs = opt_series ms"
proof (induction ms arbitrary: xs)
  case (Cons m ms)
  then show ?case by (cases m) auto
qed simp

lemma describes_announced: "describes d m \<Longrightarrow> d \<in> set ds \<Longrightarrow> announced ds (metric_series m)"
  by (cases m) (auto simp: announced_def)

lemma those_announced: "list_all sendable ms \<Longrightarrow> those ms = Some xs \<Longrightarrow> s \<in> set (series xs) \<Longrightarrow> announced stats_Describe s"
  using those_sendable [of ms] describes_announced
  by (auto simp: list_all_iff list_ex_iff series_def)

definition trace_names :: "string list" where
  "trace_names = map Desc_Name [traceRTEventsLostDesc, traceRTBuffersLostDesc, traceParseErrorsDesc, tracePropParseErrorsDesc]"

definition session_names :: "string list" where
  "session_names = map Desc_Name [sessionBuffersInUseDesc, sessionBuffersFreeDesc, sessionEventsLostDesc, sessionRTBuffersLostDesc]"

lemma consumer_series:
  "opt_series (collectConsumerStats es) =
     (Desc_Name consumerEventsLostDesc, []) # concat (map (\<lambda>t. map (\<lambda>n. (n, [t])) trace_names) (map fst (ES_traces es)))"
  by (simp add: collectConsumerStats_def trace_names_def comp_def case_prod_unfold)

lemma session_series:
  "opt_series (collectSessionStats st) \<in> insert [] {map (\<lambda>n. (n, [SP_TraceName p])) session_names | p s. st = Some s \<and> SS_query s = Some p}"
  by (auto simp: collectSessionStats_def session_names_def split: option.split)

lemma provider_series:
  "opt_series (collectProviderEventStats eh) \<in> {[], map (\<lambda>n. (Desc_Name providerEventsReceivedDesc, [n])) (map fst provider_names)}"
  by (auto simp: collectProviderEventStats_def newProviderMetric_def opt_series_def comp_def case_prod_unfold split: option.split)

lemma stats_names_distinct:
  "distinct (Desc_Name consumerEventsLostDesc # trace_names @ session_names @ [Desc_Name providerEventsReceivedDesc])"
  "distinct (map fst provider_names)"
  by (simp_all add: trace_names_def session_names_def trace_descs consumerEventsLostDesc_def
      providerEventsReceivedDesc_def provider_names_def)

lemma distinct_product: "distinct ns \<Longrightarrow> distinct ts \<Longrightarrow> distinct (concat (map (\<lambda>t. map (\<lambda>n. (n, [t])) ns) ts))"
  by (induction ts) (auto simp: distinct_map inj_on_def)

lemma exposes_stats:
  assumes "stats_Collect es sm eh = Some ms" and "distinct_sources es"
  shows "exposes stats_Describe ms"
proof (cases "SM_running sm")
  case True
  let ?c = "if SM_consumer sm \<noteq> None then collectConsumerStats es else []"
  let ?m = "collectSessionStats (map_option (\<lambda>_. ES_manifest es) (manifestSession sm))"
  let ?k = "collectSessionStats (map_option (\<lambda>_. ES_kernel es) (kernelSession sm))"
  let ?p = "collectProviderEventStats eh"
  have those: "those (?c @ ?m @ ?k @ ?p) = Some ms"
    using assms(1) True by (simp add: stats_Collect_def)
  have "list_all sendable (?c @ ?m @ ?k @ ?p)" using parts_sendable by auto
  note announced = those_announced [OF this those]
  note n = stats_names_distinct
  have c: "distinct (opt_series ?c)" "fst ` set (opt_series ?c) \<subseteq> insert (Desc_Name consumerEventsLostDesc) (set trace_names)"
  proof -
    have "distinct (concat (map (\<lambda>t. map (\<lambda>n. (n, [t])) trace_names) (map fst (ES_traces es))))"
      using n(1) assms(2) by (intro distinct_product) (simp_all add: distinct_sources_def)
    then show "distinct (opt_series ?c)" "fst ` set (opt_series ?c) \<subseteq> insert (Desc_Name consumerEventsLostDesc) (set trace_names)"
      using n(1) by (auto simp: consumer_series simp del: map_map)
  qed
  have p: "distinct (opt_series ?p)" "fst ` set (opt_series ?p) \<subseteq> {Desc_Name providerEventsReceivedDesc}"
    using provider_series [of eh] n(2) by (auto simp: distinct_map inj_on_def)
  have s: "distinct (opt_series (collectSessionStats st))" "fst ` set (opt_series (collectSessionStats st)) \<subseteq> set session_names" for st
    using session_series [of st] n(1) by (auto simp: distinct_map inj_on_def)
  have mk: "set (opt_series ?m) \<inter> set (opt_series ?k) = {}"
    using session_series [of "map_option (\<lambda>_. ES_manifest es) (manifestSession sm)"]
      session_series [of "map_option (\<lambda>_. ES_kernel es) (kernelSession sm)"] assms(2)
    by (auto simp: distinct_sources_def)
  have apart: "set xs \<inter> set ys = {}" if A: "fst ` set xs \<subseteq> A" and B: "fst ` set ys \<subseteq> B" and AB: "A \<inter> B = {}"
    for xs ys :: "series list" and A B
  proof -
    have False if "x \<in> set xs" "x \<in> set ys" for x
      using subsetD [OF A imageI [OF that(1)]] subsetD [OF B imageI [OF that(2)]] AB by blast
    then show ?thesis by blast
  qed
  have "insert (Desc_Name consumerEventsLostDesc) (set trace_names) \<inter> set session_names = {}"
    "insert (Desc_Name consumerEventsLostDesc) (set trace_names) \<inter> {Desc_Name providerEventsReceivedDesc} = {}"
    "set session_names \<inter> {Desc_Name providerEventsReceivedDesc} = {}"
    using n(1) by auto
  note disjoint = apart [OF c(2) s(2) this(1)] apart [OF c(2) p(2) this(2)] apart [OF s(2) p(2) this(3)]
  have "distinct (opt_series (?c @ ?m @ ?k @ ?p))"
    unfolding opt_series_simps distinct_append set_append Int_Un_distrib
    using c(1) s(1) p(1) mk disjoint by blast
  then show ?thesis using announced those_series [OF those] by (simp add: exposes_def)
qed (use assms in \<open>simp add: stats_Collect_def\<close>)


section \<open>Properties\<close>

text \<open>C7. A scrape is consistent: after any run from the start state with every collector enabled, no
  two metrics of a scrape, those about the event pipeline included, have the same name and
  label values; every metric has the name of a descriptor of its collector and as many label
  values as that one has labels; and no two collectors use the same name, so all of them can be
  registered.\<close>

theorem scrape_series_unique:
  assumes "\<forall>a \<in> set as. cpu_in_range n lib a"
    and "reaches lib boot (start_world n net_cfg mem_pp reg_pp t0) as w"
    and "metricsHandler snapshot query now w = Some (ms, w')"
    and "stats_Collect es sm eh = Some st" and "distinct_sources es"
  shows "distinct (series (ms @ st))
    \<and> (\<forall>s \<in> set (series (ms @ st)). announced (world_Describe w @ stats_Describe) s)
    \<and> distinct (map Desc_Name (world_Describe w @ stats_Describe))"
proof -
  have w: "world_inv n w" "world_exposable w"
    using reaches_inv [OF assms(2) world_inv_start] assms(1) reaches_exposable [OF assms(2) start_exposable] by auto
  obtain k w1 where k: "AggregateMetrics snapshot query (W_k w) = Some k" "collect_all (w\<lparr>W_k := k\<rparr>) = (ms, w1)"
    using assms(3) by (auto simp: metricsHandler_def split: option.splits prod.splits)
  have inv: "ksm_inv k" "published_ok (\<lambda>_. unique_agg) k"
    using AggregateMetrics_inv [OF world_inv_ksm [OF w(1)]] AggregateMetrics_unique [OF world_inv_ksm [OF w(1)]] k(1)
    by (metis option.inject)+
  let ?v = "w\<lparr>W_k := k\<rparr>"
  let ?xs = "world_sections ?v
     (of_collector (\<lambda>c. fst (thread_Collect c (W_k ?v))) (th_collector (W_thread ?v)))
     (of_collector (\<lambda>c. fst (perf_Collect (Images (W_k ?v)) c)) (W_perf ?v)) @ [(''etw_stat'', stats_Describe, st)]"
  have "\<forall>x \<in> set ?xs. section_ok x"
    using world_sections_ok [of n ?v] w inv exposes_stats [OF assms(4,5)] prefixed_collectors(9)
    by (auto simp: section_ok_def)
  moreover have "distinct (map fst ?xs)" by (simp add: world_sections_def)
  ultimately have "exposes (world_Describe ?v @ stats_Describe) (ms @ st)
      \<and> distinct (map Desc_Name (world_Describe ?v @ stats_Describe))"
    using sections [of ?xs] collect_all_sections [OF k(2)] by (simp add: world_Describe_sections [symmetric])
  moreover have "world_Describe ?v = world_Describe w" by (simp add: world_Describe_def)
  ultimately show ?thesis by (simp add: exposes_def)
qed

definition sample_stats :: etw_stats where
  "sample_stats = \<lparr>ES_LostEvents = 3,
     ES_traces = [(''a'', \<lparr>TC_RTLostEvents = 0, TC_RTLostBuffer = 1, TC_ErrorEvents = 0, TC_ErrorPropsParse = 2\<rparr>),
                  (''b'', \<lparr>TC_RTLostEvents = 0, TC_RTLostBuffer = 1, TC_ErrorEvents = 0, TC_ErrorPropsParse = 2\<rparr>)],
     ES_manifest = \<lparr>SS_started = True, SS_query = None\<rparr>, ES_kernel = \<lparr>SS_started = True, SS_query = None\<rparr>\<rparr>"

theorem scrape_series_unique_witness:
  "\<exists>w ms w' st. reaches byte_lib 0 (start_world 4 \<lparr>Net_Enabled = True, Net_ConnectionHealth = True, Net_ByProtocol = True,
         Net_RetransmissionRate = True\<rparr> True True 0)
       [On_Kernel Proc_Start None sample_read, On_Thread T_Switch sample_read, On_Disk Disk_Read sample_read,
        On_Perf P_DPC sample_read] w
     \<and> metricsHandler None (\<lambda>_ _. None) (5 * second) w = Some (ms, w')
     \<and> stats_Collect sample_stats ((NewSessionManager sample_etw DefaultConfig)\<lparr>SM_running := True\<rparr>) (Some default_router) = Some st
     \<and> distinct (series (ms @ st))"
proof -
  let ?cfg = "\<lparr>Net_Enabled = True, Net_ConnectionHealth = True, Net_ByProtocol = True, Net_RetransmissionRate = True\<rparr>"
  let ?as = "[On_Kernel Proc_Start None sample_read, On_Thread T_Switch sample_read, On_Disk Disk_Read sample_read,
        On_Perf P_DPC sample_read]"
  let ?sm = "(NewSessionManager sample_etw DefaultConfig)\<lparr>SM_running := True\<rparr>"
  have cpu: "\<forall>a \<in> set ?as. cpu_in_range 4 byte_lib a" by (simp add: byte_lib_def sample_read_def)
  obtain w where w: "reaches byte_lib 0 (start_world 4 ?cfg True True 0) ?as w" "world_inv 4 w"
    using runs_on [OF world_inv_start, of ?as 4 byte_lib 0] cpu by blast
  obtain ms w' where ms: "metricsHandler None (\<lambda>_ _. None) (5 * second) w = Some (ms, w')"
    using metricsHandler_inv [OF w(2)] by blast
  have "list_all sendable ((if SM_consumer ?sm \<noteq> None then collectConsumerStats sample_stats else [])
         @ collectSessionStats (map_option (\<lambda>_. ES_manifest sample_stats) (manifestSession ?sm))
         @ collectSessionStats (map_option (\<lambda>_. ES_kernel sample_stats) (kernelSession ?sm))
         @ collectProviderEventStats (Some default_router))"
    using parts_sendable by simp
  from those_sendable [OF this] obtain st where st: "stats_Collect sample_stats ?sm (Some default_router) = Some st"
    by (auto simp: stats_Collect_def)
  have "distinct_sources sample_stats" by (simp add: distinct_sources_def sample_stats_def)
  from scrape_series_unique [OF cpu w(1) ms st this] show ?thesis using w(1) ms st by blast
qed

end
