(* ===== verification/Map_Backends.thy ===== *)
theory Map_Backends
  imports Conc_Map
begin

text \<open>
  \<open>NewConcurrentMap\<close> of \<open>maps/maps.go\<close>: the choice between the four implementations of
  \<open>ConcurrentMap\<close>, and \<open>cornelk_map.go\<close>, the one that \<open>Conc_Map\<close> does not have. Its library
  is a record of operations, a parameter of the wrappers, and \<open>hashmap_library\<close> states what
  the library documents of them, one operation at a time.

  Used by one goroutine at a time the four implementations cannot be told apart. Two of them
  are made of several steps of their library, so concurrent clients can: the halves of those
  operations are separate definitions.
\<close>

section \<open>CornelkMap\<close>

record ('k, 'v, 'm) hashmap_ops =
  hl_Get :: "'k \<Rightarrow> 'm \<Rightarrow> 'v option"
  hl_Set :: "'k \<Rightarrow> 'v \<Rightarrow> 'm \<Rightarrow> 'm"
  hl_Del :: "'k \<Rightarrow> 'm \<Rightarrow> 'm"
  hl_GetOrInsert :: "'k \<Rightarrow> 'v \<Rightarrow> 'm \<Rightarrow> ('v \<times> bool) \<times> 'm"
  hl_Entries :: "'m \<Rightarrow> ('k \<times> 'v) list"

definition ck_Load :: "('k, 'v, 'm) hashmap_ops \<Rightarrow> 'k \<Rightarrow> 'm \<Rightarrow> 'v option" where
  "ck_Load lib key m = hl_Get lib key m"

definition ck_Store :: "('k, 'v, 'm) hashmap_ops \<Rightarrow> 'k \<Rightarrow> 'v \<Rightarrow> 'm \<Rightarrow> 'm" where
  "ck_Store lib key value m = hl_Set lib key value m"

definition ck_Delete :: "('k, 'v, 'm) hashmap_ops \<Rightarrow> 'k \<Rightarrow> 'm \<Rightarrow> 'm" where
  "ck_Delete lib key m = hl_Del lib key m"

text \<open>\<open>LoadAndDelete\<close> gets the value and, if there was one, deletes the key in a second step.\<close>

definition ck_LoadAndDelete_del :: "('k, 'v, 'm) hashmap_ops \<Rightarrow> 'k \<Rightarrow> 'v option \<Rightarrow> 'm \<Rightarrow> 'm" where
  "ck_LoadAndDelete_del lib key val m = (if val \<noteq> None then hl_Del lib key m else m)"

definition ck_LoadAndDelete :: "('k, 'v, 'm) hashmap_ops \<Rightarrow> 'k \<Rightarrow> 'm \<Rightarrow> 'v option \<times> 'm" where
  "ck_LoadAndDelete lib key m =
     (let val = hl_Get lib key m in (val, ck_LoadAndDelete_del lib key val m))"

text \<open>The library reports whether it inserted, the interface whether the key was there.\<close>

definition ck_LoadOrStore ::
    "('k, 'v, 'm) hashmap_ops \<Rightarrow> 'k \<Rightarrow> (unit \<Rightarrow> 'v) \<Rightarrow> 'm \<Rightarrow> ('v \<times> bool) \<times> 'm" where
  "ck_LoadOrStore lib key valueFactory m =
     (case hl_GetOrInsert lib key (valueFactory ()) m of ((val, inserted), m') \<Rightarrow> ((val, \<not> inserted), m'))"

definition ck_Update_read ::
    "('k, 'v, 'm) hashmap_ops \<Rightarrow> 'k \<Rightarrow> ('v option \<Rightarrow> 'v option) \<Rightarrow> 'm \<Rightarrow> bool \<times> 'v option" where
  "ck_Update_read lib key updateFunc m =
     (let val = hl_Get lib key m in (val \<noteq> None, updateFunc val))"

definition ck_Update_write :: "('k, 'v, 'm) hashmap_ops \<Rightarrow> 'k \<Rightarrow> bool \<times> 'v option \<Rightarrow> 'm \<Rightarrow> 'm" where
  "ck_Update_write lib key d m =
     (case snd d of
        Some newVal \<Rightarrow> hl_Set lib key newVal m
      | None \<Rightarrow> if fst d then hl_Del lib key m else m)"

definition ck_Update :: "('k, 'v, 'm) hashmap_ops \<Rightarrow> 'k \<Rightarrow> ('v option \<Rightarrow> 'v option) \<Rightarrow> 'm \<Rightarrow> 'm" where
  "ck_Update lib key updateFunc m = ck_Update_write lib key (ck_Update_read lib key updateFunc m) m"

definition ck_Entries :: "('k, 'v, 'm) hashmap_ops \<Rightarrow> 'm \<Rightarrow> ('k \<times> 'v) list" where
  "ck_Entries lib m = hl_Entries lib m"

locale hashmap_library =
  fixes hlib :: "('k, 'v, 'm) hashmap_ops"
    and hl_lookup :: "'m \<Rightarrow> 'k \<Rightarrow> 'v option"
    and hl_invar :: "'m \<Rightarrow> bool"
    and hl_new :: 'm
  assumes hl_new: "hl_invar hl_new \<and> hl_lookup hl_new = Map.empty"
    and hl_Get: "hl_invar m \<Longrightarrow> hl_Get hlib k m = hl_lookup m k"
    and hl_Set: "hl_invar m \<Longrightarrow> hl_invar (hl_Set hlib k v m) \<and>
      hl_lookup (hl_Set hlib k v m) = (hl_lookup m)(k \<mapsto> v)"
    and hl_Del: "hl_invar m \<Longrightarrow> hl_invar (hl_Del hlib k m) \<and>
      hl_lookup (hl_Del hlib k m) = (hl_lookup m)(k := None)"
    and hl_GetOrInsert: "hl_invar m \<Longrightarrow> hl_GetOrInsert hlib k v m = ((w, inserted), m') \<Longrightarrow>
      hl_invar m' \<and> inserted = (hl_lookup m k = None) \<and>
      w = (case hl_lookup m k of Some u \<Rightarrow> u | None \<Rightarrow> v) \<and> hl_lookup m' = (hl_lookup m)(k \<mapsto> w)"
    and hl_Entries: "hl_invar m \<Longrightarrow>
      distinct (map fst (hl_Entries hlib m)) \<and> map_of (hl_Entries hlib m) = hl_lookup m"

sublocale hashmap_library \<subseteq> hm: concurrent_map hl_lookup hl_invar hl_new "ck_Load hlib" "ck_Store hlib"
  "ck_Delete hlib" "ck_LoadAndDelete hlib" "ck_LoadOrStore hlib" "ck_Update hlib" "ck_Entries hlib"
proof (unfold_locales, goal_cases)
  case (5 m k r m')
  then show ?case
    using hl_Del [OF 5(1), of k] by (auto simp: ck_LoadAndDelete_def ck_LoadAndDelete_del_def Let_def hl_Get fun_upd_idem_iff)
next
  case (6 m k f v loaded m')
  obtain w inserted m2 where g: "hl_GetOrInsert hlib k (f ()) m = ((w, inserted), m2)" by (metis surj_pair)
  then show ?case using 6 hl_GetOrInsert [OF 6(1) g] by (auto simp: ck_LoadOrStore_def)
next
  case (7 m k g)
  then show ?case
    using hl_Del [OF 7, of k] hl_Set [OF 7, of k]
    by (auto simp: ck_Update_def ck_Update_read_def ck_Update_write_def Let_def hl_Get fun_upd_idem_iff split: option.split)
qed (auto simp: hl_new hl_Get hl_Set hl_Del hl_Entries ck_Load_def ck_Store_def ck_Delete_def ck_Entries_def)

text \<open>The documented behaviour can hold: a library made of the map of entries has it.\<close>

definition hashmap_of_cmap :: "('k, 'v, ('k, 'v) cmap) hashmap_ops" where
  "hashmap_of_cmap = \<lparr>
     hl_Get = cm_load, hl_Set = cm_store, hl_Del = cm_delete,
     hl_GetOrInsert = (\<lambda>k v m. case cm_load k m of
         Some w \<Rightarrow> ((w, False), m) | None \<Rightarrow> ((v, True), cm_store k v m)),
     hl_Entries = cm_entries\<rparr>"

interpretation ck: hashmap_library hashmap_of_cmap "\<lambda>m k. cm_load k m" cm_invar cm_empty
  by unfold_locales
    (use cm.entries_spec in \<open>auto simp: hashmap_of_cmap_def fun_eq_iff split: option.splits\<close>)


section \<open>The factory\<close>

datatype ('x, 's, 'c, 't) backend = XSyncMap 'x | ShardedMap 's | CornelkMap 'c | StdSyncMap 't

type_synonym ('k, 'v, 'x, 'c) any_map = "('x, ('k, 'v) sharded_map, 'c, ('k word, 'v) cmap) backend"

definition mapImplementation :: string where "mapImplementation = ''xsync''"

text \<open>Any other string chooses the default. \<open>newx\<close> and \<open>newc\<close> are what the constructors of the two
  libraries return.\<close>

definition NewConcurrentMap :: "string \<Rightarrow> 'x \<Rightarrow> 'c \<Rightarrow> ('k::len, 'v, 'x, 'c) any_map" where
  "NewConcurrentMap impl newx newc =
     (if impl = ''xsync'' then XSyncMap newx
      else if impl = ''sharded'' then ShardedMap NewShardedMap
      else if impl = ''cornelk'' then CornelkMap newc
      else if impl = ''sync'' then StdSyncMap cm_empty
      else XSyncMap newx)"

text \<open>A call through the interface goes to the implementation behind it.\<close>

record ('k, 'v, 'x, 'c) map_libs =
  lib_xsync :: "('k, 'v, 'x) xsync_ops"
  lib_hashmap :: "('k, 'v, 'c) hashmap_ops"
  lib_zero :: 'v

type_synonym ('k, 'v, 'x, 'c) libs = "('k word, 'v, 'x, 'c) map_libs"

fun any_Load :: "('k::len, 'v, 'x, 'c) libs \<Rightarrow> 'k word \<Rightarrow> ('k, 'v, 'x, 'c) any_map \<Rightarrow> 'v option" where
  "any_Load L key (XSyncMap m) = xs_Load (lib_xsync L) key m"
| "any_Load L key (ShardedMap m) = sh_Load key m"
| "any_Load L key (CornelkMap m) = ck_Load (lib_hashmap L) key m"
| "any_Load L key (StdSyncMap m) = std_Load key m"

fun any_Store :: "('k::len, 'v, 'x, 'c) libs \<Rightarrow> 'k word \<Rightarrow> 'v \<Rightarrow> ('k, 'v, 'x, 'c) any_map \<Rightarrow> ('k, 'v, 'x, 'c) any_map" where
  "any_Store L key value (XSyncMap m) = XSyncMap (xs_Store (lib_xsync L) key value m)"
| "any_Store L key value (ShardedMap m) = ShardedMap (sh_Store key value m)"
| "any_Store L key value (CornelkMap m) = CornelkMap (ck_Store (lib_hashmap L) key value m)"
| "any_Store L key value (StdSyncMap m) = StdSyncMap (std_Store key value m)"

fun any_Delete :: "('k::len, 'v, 'x, 'c) libs \<Rightarrow> 'k word \<Rightarrow> ('k, 'v, 'x, 'c) any_map \<Rightarrow> ('k, 'v, 'x, 'c) any_map" where
  "any_Delete L key (XSyncMap m) = XSyncMap (xs_Delete (lib_xsync L) key m)"
| "any_Delete L key (ShardedMap m) = ShardedMap (sh_Delete key m)"
| "any_Delete L key (CornelkMap m) = CornelkMap (ck_Delete (lib_hashmap L) key m)"
| "any_Delete L key (StdSyncMap m) = StdSyncMap (std_Delete key m)"

fun any_LoadAndDelete :: "('k::len, 'v, 'x, 'c) libs \<Rightarrow> 'k word \<Rightarrow> ('k, 'v, 'x, 'c) any_map \<Rightarrow>
    'v option \<times> ('k, 'v, 'x, 'c) any_map" where
  "any_LoadAndDelete L key (XSyncMap m) = apsnd XSyncMap (xs_LoadAndDelete (lib_xsync L) key m)"
| "any_LoadAndDelete L key (ShardedMap m) = apsnd ShardedMap (sh_LoadAndDelete key m)"
| "any_LoadAndDelete L key (CornelkMap m) = apsnd CornelkMap (ck_LoadAndDelete (lib_hashmap L) key m)"
| "any_LoadAndDelete L key (StdSyncMap m) = apsnd StdSyncMap (std_LoadAndDelete key m)"

fun any_LoadOrStore :: "('k::len, 'v, 'x, 'c) libs \<Rightarrow> 'k word \<Rightarrow> (unit \<Rightarrow> 'v) \<Rightarrow> ('k, 'v, 'x, 'c) any_map \<Rightarrow>
    ('v \<times> bool) \<times> ('k, 'v, 'x, 'c) any_map" where
  "any_LoadOrStore L key f (XSyncMap m) = apsnd XSyncMap (xs_LoadOrStore (lib_xsync L) key f m)"
| "any_LoadOrStore L key f (ShardedMap m) = apsnd ShardedMap (sh_LoadOrStore key f m)"
| "any_LoadOrStore L key f (CornelkMap m) = apsnd CornelkMap (ck_LoadOrStore (lib_hashmap L) key f m)"
| "any_LoadOrStore L key f (StdSyncMap m) = apsnd StdSyncMap (std_LoadOrStore key f m)"

fun any_Update :: "('k::len, 'v, 'x, 'c) libs \<Rightarrow> 'k word \<Rightarrow> ('v option \<Rightarrow> 'v option) \<Rightarrow> ('k, 'v, 'x, 'c) any_map \<Rightarrow>
    ('k, 'v, 'x, 'c) any_map" where
  "any_Update L key g (XSyncMap m) = XSyncMap (xs_Update (lib_xsync L) (lib_zero L) key g m)"
| "any_Update L key g (ShardedMap m) = ShardedMap (sh_Update key g m)"
| "any_Update L key g (CornelkMap m) = CornelkMap (ck_Update (lib_hashmap L) key g m)"
| "any_Update L key g (StdSyncMap m) = StdSyncMap (std_Update key g m)"

fun any_Entries :: "('k::len, 'v, 'x, 'c) libs \<Rightarrow> ('k, 'v, 'x, 'c) any_map \<Rightarrow> ('k word \<times> 'v) list" where
  "any_Entries L (XSyncMap m) = xs_Entries (lib_xsync L) m"
| "any_Entries L (ShardedMap m) = sh_entries m"
| "any_Entries L (CornelkMap m) = ck_Entries (lib_hashmap L) m"
| "any_Entries L (StdSyncMap m) = cm_entries m"


section \<open>Whatever is chosen is a map\<close>

text \<open>Both libraries together. The contents and the invariant of a map are those of its
  implementation, and the interface holds of the choice because it holds of each of them.\<close>

locale map_libraries =
  x: xsync_library "lib_xsync L" x_lookup x_invar x_new "lib_zero L"
  + c: hashmap_library "lib_hashmap L" c_lookup c_invar c_new
  for L :: "('k::len, 'v, 'x, 'c) libs"
    and x_lookup :: "'x \<Rightarrow> 'k word \<Rightarrow> 'v option" and x_invar x_new
    and c_lookup :: "'c \<Rightarrow> 'k word \<Rightarrow> 'v option" and c_invar c_new

definition any_lookup :: "('x \<Rightarrow> 'k word \<Rightarrow> 'v option) \<Rightarrow> ('c \<Rightarrow> 'k word \<Rightarrow> 'v option) \<Rightarrow>
    ('k::len, 'v, 'x, 'c) any_map \<Rightarrow> 'k word \<Rightarrow> 'v option" where
  "any_lookup xl cl m = (case m of XSyncMap n \<Rightarrow> xl n | ShardedMap n \<Rightarrow> (\<lambda>k. sh_Load k n)
     | CornelkMap n \<Rightarrow> cl n | StdSyncMap n \<Rightarrow> (\<lambda>k. cm_load k n))"

definition any_invar :: "('x \<Rightarrow> bool) \<Rightarrow> ('c \<Rightarrow> bool) \<Rightarrow> ('k::len, 'v, 'x, 'c) any_map \<Rightarrow> bool" where
  "any_invar xi ci m = (case m of XSyncMap n \<Rightarrow> xi n | ShardedMap n \<Rightarrow> sh_invar n
     | CornelkMap n \<Rightarrow> ci n | StdSyncMap n \<Rightarrow> cm_invar n)"

lemma any_lookup_simps [simp]:
  "any_lookup xl cl (XSyncMap x) = xl x" "any_lookup xl cl (ShardedMap s) = (\<lambda>k. sh_Load k s)"
  "any_lookup xl cl (CornelkMap c) = cl c" "any_lookup xl cl (StdSyncMap t) = (\<lambda>k. cm_load k t)"
  "any_invar xi ci (XSyncMap x) = xi x" "any_invar xi ci (ShardedMap s) = sh_invar s"
  "any_invar xi ci (CornelkMap c) = ci c" "any_invar xi ci (StdSyncMap t) = cm_invar t"
  by (simp_all add: any_lookup_def any_invar_def)

sublocale map_libraries \<subseteq> any: concurrent_map "any_lookup x_lookup c_lookup" "any_invar x_invar c_invar"
  "NewConcurrentMap impl x_new c_new" "any_Load L" "any_Store L" "any_Delete L" "any_LoadAndDelete L"
  "any_LoadOrStore L" "any_Update L" "any_Entries L" for impl
proof (unfold_locales, goal_cases)
  case 1
  show ?case
    by (simp add: NewConcurrentMap_def x.empty_spec c.hm.empty_spec sh.empty_spec std.empty_spec)
next
  case (2 m k)
  then show ?case
    by (cases m) (simp_all add: x.load_spec c.hm.load_spec std.load_spec fun_eq_iff)
next
  case (3 m k v)
  then show ?case
    by (cases m) (simp_all add: x.store_spec c.hm.store_spec sh.store_spec std.store_spec fun_eq_iff)
next
  case (4 m k)
  then show ?case
    by (cases m) (simp_all add: x.delete_spec c.hm.delete_spec sh.delete_spec std.delete_spec fun_eq_iff)
next
  case (5 m k r m')
  then show ?case
    by (cases m) (auto simp: apsnd_def map_prod_def split: prod.splits dest: x.load_and_delete_spec
        c.hm.load_and_delete_spec sh.load_and_delete_spec std.load_and_delete_spec)
next
  case (6 m k f v loaded m')
  then show ?case
    by (cases m) (auto simp: apsnd_def map_prod_def split: prod.splits dest: x.load_or_store_spec
        c.hm.load_or_store_spec sh.load_or_store_spec std.load_or_store_spec)
next
  case (7 m k g)
  then show ?case
    by (cases m) (simp_all add: x.update_spec c.hm.update_spec sh.update_spec std.update_spec fun_eq_iff)
next
  case (8 m)
  then show ?case
    by (cases m) (simp_all add: x.entries_spec c.hm.entries_spec sh.entries_spec std.entries_spec fun_eq_iff)
qed


definition cmap_libs :: "'v \<Rightarrow> ('k::len, 'v, ('k word, 'v) cmap, ('k word, 'v) cmap) libs" where
  "cmap_libs zero = \<lparr>lib_xsync = xsync_of_cmap, lib_hashmap = hashmap_of_cmap, lib_zero = zero\<rparr>"

interpretation cm_libs: map_libraries "cmap_libs zero" "\<lambda>m k. cm_load k m" cm_invar cm_empty
    "\<lambda>m k. cm_load k m" cm_invar cm_empty for zero
  by (simp add: map_libraries_def cmap_libs_def xs.xsync_library_axioms ck.hashmap_library_axioms)


section \<open>Runs of a client\<close>

definition any_exec :: "('k::len, 'v, 'x, 'c) libs \<Rightarrow> ('k word, 'v) map_op \<Rightarrow> ('k, 'v, 'x, 'c) any_map \<Rightarrow>
    'v option \<times> ('k, 'v, 'x, 'c) any_map" where
  "any_exec L x m =
     (case x of
        OpLoad k \<Rightarrow> (any_Load L k m, m)
      | OpStore k v \<Rightarrow> (None, any_Store L k v m)
      | OpDelete k \<Rightarrow> (None, any_Delete L k m)
      | OpLoadAndDelete k \<Rightarrow> any_LoadAndDelete L k m
      | OpLoadOrStore k v \<Rightarrow> (case any_LoadOrStore L k (\<lambda>_. v) m of ((w, _), m') \<Rightarrow> (Some w, m'))
      | OpUpdate k g \<Rightarrow> (None, any_Update L k g m))"

context map_libraries
begin

lemma any_exec_step:
  assumes "any_invar x_invar c_invar m" and "any_exec L op m = (r, m')"
  shows "any_invar x_invar c_invar m' \<and>
    map_exec op (any_lookup x_lookup c_lookup m) = (r, any_lookup x_lookup c_lookup m')"
proof (cases op)
  case (OpLoadAndDelete k)
  then show ?thesis
    using assms any.load_and_delete_spec [of m k r m'] by (simp add: any_exec_def)
next
  case (OpLoadOrStore k v)
  obtain w l m2 where e: "any_LoadOrStore L k (\<lambda>_. v) m = ((w, l), m2)" by (metis surj_pair)
  then show ?thesis
    using assms any.load_or_store_spec [OF assms(1) e] OpLoadOrStore
    by (auto simp: any_exec_def fun_upd_idem_iff split: option.split)
qed (use assms any.load_spec any.store_spec any.delete_spec any.update_spec in \<open>auto simp: any_exec_def\<close>)

lemma any_run:
  assumes "any_invar x_invar c_invar m"
  shows "run_ops map_exec ops (any_lookup x_lookup c_lookup m) =
    (fst (run_ops (any_exec L) ops m), any_lookup x_lookup c_lookup (snd (run_ops (any_exec L) ops m)))"
  using assms
proof (induction ops arbitrary: m)
  case (Cons op ops)
  obtain r m1 where e: "any_exec L op m = (r, m1)" by force
  from Cons.IH [of m1] any_exec_step [OF Cons.prems e] show ?case
    by (simp add: e split: prod.split)
qed simp

lemma any_run_new:
  "run_ops map_exec ops Map.empty =
    (fst (run_ops (any_exec L) ops (NewConcurrentMap impl x_new c_new)),
     any_lookup x_lookup c_lookup (snd (run_ops (any_exec L) ops (NewConcurrentMap impl x_new c_new))))"
  using any_run [of "NewConcurrentMap impl x_new c_new" ops] any.empty_spec [of impl] by simp

end


section \<open>Properties\<close>



text \<open>Used by several goroutines the implementations differ. The interface calls every operation
  atomic; over \<open>cornelk\<close> one of two updates of a key is lost when both read before either
  writes.\<close>

theorem cornelk_update_loses:
  "cm_load k (ck_Update_write hashmap_of_cmap k (ck_Update_read hashmap_of_cmap k increment m)
       (ck_Update_write hashmap_of_cmap k (ck_Update_read hashmap_of_cmap k increment m) m))
     = cm_load k (ck_Update hashmap_of_cmap k increment m)"
  by (auto simp: ck_Update_def ck_Update_read_def ck_Update_write_def Let_def hashmap_of_cmap_def increment_def)

end
